(* ===== verification/Prelude.thy ===== *)
theory Prelude
  imports Main "HOL-Library.Word"
begin

text \<open>
  Shared vocabulary of the development: how the C++ integers, strings and fallible results are
  represented, the collections of rewrite rules the component theories extend, and the generic
  facts on lists, bits and partial maps that several components need.

  Integers. A C++ \<open>int\<close>, \<open>int64_t\<close> or \<open>time_t\<close> is an \<^typ>\<open>int\<close> read as its two's complement value,
  on which \<open>AND\<close>, \<open>OR\<close>, \<open>NOT\<close>, \<open>push_bit\<close> and \<open>drop_bit\<close> are the C++ operators. A conversion to a
  narrower type is written out with \<open>trunc32\<close> (signed) or as a word. Unsigned values that wrap are
  words.
\<close>

unbundle bit_operations_syntax

named_theorems fmt_defs "the numeric values of the tile formats"
named_theorems tile_simps "rewriting of tile records"
named_theorems queue_simps "rewriting of the task queue"

subsection \<open>Errors\<close>

text \<open>The exceptions of the program, what the language leaves undefined, a call that does not return, and the end of the process.\<close>

datatype cpp_error = Runtime_Error string | Broker_Error string | Bad_Lexical_Cast | Undefined_Behaviour | No_Return | Terminate

subsection \<open>Signed 32-bit conversion\<close>

definition trunc32 :: "int \<Rightarrow> int" where
  "trunc32 n = sint (word_of_int n :: 32 word)"

definition int32 :: "int \<Rightarrow> bool" where
  "int32 n \<longleftrightarrow> - (2 ^ 31) \<le> n \<and> n < 2 ^ 31"

lemma trunc32_id [simp]: "int32 n \<Longrightarrow> trunc32 n = n"
  unfolding trunc32_def int32_def
  by (simp add: sint_sbintrunc' signed_take_bit_int_eq_self)

lemma trunc32_int32 [simp]: "int32 (trunc32 n)"
  using sint_range_size [of "word_of_int n :: 32 word"]
  by (simp add: trunc32_def int32_def word_size)

lemma trunc32_eq_iff: "trunc32 n = n \<longleftrightarrow> int32 n"
  by (metis trunc32_id trunc32_int32)

subsection \<open>Bits\<close>

lemma and_7_eq_mod: "(n :: int) AND 7 = n mod 8"
  using take_bit_eq_mask [of 3 n] by (simp add: mask_eq_exp_minus_1 take_bit_eq_mod)

lemma and_not_and_left: "(n :: int) AND NOT (n AND m) = n AND NOT m"
  by (rule bit_eqI) (auto simp: bit_and_iff bit_not_iff bit_or_iff)

lemma and_not_7: "(n :: int) AND NOT 7 = n - n mod 8"
proof -
  have "n - (n AND 7) = n AND NOT (n AND 7)"
    by (rule disjunctive_diff) (simp add: bit_and_iff)
  then have "n - (n AND 7) = n AND NOT 7" by (simp only: and_not_and_left)
  then show ?thesis by (simp only: and_7_eq_mod)
qed

lemma or_eq_0_iff_int [simp]: "(a :: int) OR b = 0 \<longleftrightarrow> a = 0 \<and> b = 0"
  by (auto simp: bit_eq_iff bit_or_iff)

subsection \<open>Lists\<close>

text \<open>The position of the first occurrence, the way an iterator into a sequence denotes it.\<close>

fun index_of :: "'a \<Rightarrow> 'a list \<Rightarrow> nat" where
  "index_of k [] = 0"
| "index_of k (j # js) = (if k = j then 0 else Suc (index_of k js))"

lemma index_of_nth [simp]: "k \<in> set xs \<Longrightarrow> xs ! index_of k xs = k"
  by (induction xs) auto

lemma index_of_less [simp]: "k \<in> set xs \<Longrightarrow> index_of k xs < length xs"
  by (induction xs) auto

lemma index_of_append: "k \<notin> set xs \<Longrightarrow> index_of k (xs @ k # ys) = length xs"
  by (induction xs) auto

lemma length_le_concat: "t \<in> set ts \<Longrightarrow> length t \<le> length (concat ts)"
  by (induction ts) auto

lemma filter_split_first:
  assumes "filter P xs = k # ks"
  obtains us vs where "xs = us @ k # vs" "\<forall>u \<in> set us. \<not> P u" "P k" "ks = filter P vs"
  using assms by (metis filter_eq_ConsD)

lemma find_Some_split:
  assumes "find P xs = Some k"
  obtains us vs where "xs = us @ k # vs" "\<forall>u \<in> set us. \<not> P u" "P k"
  using assms
proof (induction xs arbitrary: thesis)
  case Nil
  then show ?case by simp
next
  case (Cons a xs)
  show ?case
  proof (cases "P a")
    case True
    then show ?thesis using Cons.prems(1) [of "[]" xs] Cons.prems(2) by simp
  next
    case False
    then have "find P xs = Some k" using Cons.prems(2) by simp
    from Cons.IH [OF _ this] obtain us vs
      where "xs = us @ k # vs" "\<forall>u \<in> set us. \<not> P u" "P k" by blast
    then show ?thesis using Cons.prems(1) [of "a # us" vs] False by simp
  qed
qed

text \<open>\<^verbatim>\<open>boost::tokenizer\<close> with a \<^verbatim>\<open>char_separator\<close>: the tokens between separators; empty tokens are dropped.\<close>

fun tokens_by :: "(char \<Rightarrow> bool) \<Rightarrow> string \<Rightarrow> string \<Rightarrow> string list" where
  "tokens_by sep [] tok = (if tok = [] then [] else [rev tok])"
| "tokens_by sep (c # cs) tok =
     (if sep c then (if tok = [] then tokens_by sep cs [] else rev tok # tokens_by sep cs []) else tokens_by sep cs (c # tok))"

end
