(* ===== verification/Tile_Types.thy ===== *)
theory Tile_Types
  imports Prelude
begin

text \<open>
  The message every part of the render stack exchanges (\<^verbatim>\<open>tile_protocol.hpp\<close>), the format bit masks
  and their names (\<^verbatim>\<open>tile_utils.hpp\<close>, \<^verbatim>\<open>tile_utils.cpp\<close>) and the conversion to and from the protocol
  buffer message of \<^verbatim>\<open>proto/tile.proto\<close>. The generated protocol buffer code and boost's hash mixing
  are parameters.
\<close>

subsection \<open>Formats\<close>

text \<open>\<^verbatim>\<open>protoFmt\<close> is an enumeration used as a bit mask, so its values are integers.\<close>

type_synonym protoFmt = int

definition fmtNone :: protoFmt where [fmt_defs]: "fmtNone = 0"
definition fmtPNG :: protoFmt where [fmt_defs]: "fmtPNG = 1"
definition fmtJPEG :: protoFmt where [fmt_defs]: "fmtJPEG = 2"
definition fmtJSON :: protoFmt where [fmt_defs]: "fmtJSON = 4"
definition fmtGIF :: protoFmt where [fmt_defs]: "fmtGIF = 8"
definition fmtAll :: protoFmt where [fmt_defs]: "fmtAll = 15"

definition mime_type_for :: "protoFmt \<Rightarrow> cpp_error + string" where
  "mime_type_for fmt =
     (if fmt = fmtPNG then Inr ''image/png''
      else if fmt = fmtJPEG then Inr ''image/jpeg''
      else if fmt = fmtGIF then Inr ''image/gif''
      else if fmt = fmtJSON then Inr ''application/json;charset=UTF-8''
      else Inl (Runtime_Error ''Ambiguous format in mime_type_for()''))"

definition file_type_for :: "protoFmt \<Rightarrow> cpp_error + string" where
  "file_type_for fmt =
     (if fmt = fmtNone then Inr ''none''
      else if fmt = fmtPNG then Inr ''png''
      else if fmt = fmtJPEG then Inr ''jpeg''
      else if fmt = fmtGIF then Inr ''gif''
      else if fmt = fmtJSON then Inr ''json''
      else if fmt = fmtAll then Inr ''all''
      else Inl (Runtime_Error ''Ambiguous format in file_type_for()''))"

definition get_formats_vec :: "protoFmt \<Rightarrow> protoFmt list" where
  "get_formats_vec formatMask =
     (if formatMask AND fmtPNG \<noteq> 0 then [fmtPNG] else []) @
     (if formatMask AND fmtJPEG \<noteq> 0 then [fmtJPEG] else []) @
     (if formatMask AND fmtGIF \<noteq> 0 then [fmtGIF] else []) @
     (if formatMask AND fmtJSON \<noteq> 0 then [fmtJSON] else [])"

definition get_format_for :: "string \<Rightarrow> protoFmt" where
  "get_format_for fileType =
     (if fileType = ''json'' then fmtJSON
      else if fileType = ''png'' then fmtPNG
      else if fileType = ''jpeg'' then fmtJPEG
      else if fileType = ''gif'' then fmtGIF
      else fmtNone)"

subsection \<open>Commands\<close>

text \<open>
  The enumeration \<^verbatim>\<open>protoCmd\<close>. \<open>cmdOther\<close> is a value outside the enumerators, which the
  \<^verbatim>\<open>static_cast\<close> of \<^verbatim>\<open>unserialise\<close> can produce and which the stream operator prints as
  unrecognised.
\<close>

datatype protoCmd =
    cmdIgnore | cmdRender | cmdDirty | cmdDone | cmdNotDone
  | cmdRenderPrio | cmdRenderBulk | cmdStatus | cmdOther int

fun cmd_to_int :: "protoCmd \<Rightarrow> int" where
  "cmd_to_int cmdIgnore = 0"
| "cmd_to_int cmdRender = 1"
| "cmd_to_int cmdDirty = 2"
| "cmd_to_int cmdDone = 3"
| "cmd_to_int cmdNotDone = 4"
| "cmd_to_int cmdRenderPrio = 5"
| "cmd_to_int cmdRenderBulk = 6"
| "cmd_to_int cmdStatus = 7"
| "cmd_to_int (cmdOther n) = n"

definition cmd_of_int :: "int \<Rightarrow> protoCmd" where
  "cmd_of_int n =
     (if n = 0 then cmdIgnore else if n = 1 then cmdRender else if n = 2 then cmdDirty
      else if n = 3 then cmdDone else if n = 4 then cmdNotDone else if n = 5 then cmdRenderPrio
      else if n = 6 then cmdRenderBulk else if n = 7 then cmdStatus else cmdOther n)"

definition wf_cmd :: "protoCmd \<Rightarrow> bool" where
  "wf_cmd c \<longleftrightarrow> cmd_of_int (cmd_to_int c) = c \<and> int32 (cmd_to_int c)"

subsection \<open>The tile message\<close>

record tile_protocol =
  status :: protoCmd
  tp_x :: int
  tp_y :: int
  tp_z :: int
  tp_id :: int
  style :: string
  format :: protoFmt
  last_modified :: int
  request_last_modified :: int
  tile_data :: string

definition default_tile :: tile_protocol where
  "default_tile = \<lparr>status = cmdRenderPrio, tp_x = 0, tp_y = 0, tp_z = 0, tp_id = 0, style = '''',
     format = fmtPNG, last_modified = 0, request_last_modified = 0, tile_data = ''''\<rparr>"

definition METATILE :: int where
  "METATILE = 8"

text \<open>\<^verbatim>\<open>operator==\<close> on tiles leaves the status, the times and the data out.\<close>

definition tile_eq :: "tile_protocol \<Rightarrow> tile_protocol \<Rightarrow> bool" where
  "tile_eq a b \<longleftrightarrow> tp_x a = tp_x b \<and> tp_y a = tp_y b \<and> tp_z a = tp_z b \<and>
     tp_id a = tp_id b \<and> style a = style b \<and> format a = format b"

text \<open>
  \<^verbatim>\<open>boost::hash_combine\<close> for the string and for the integer fields are the two parameters of the
  hash.
\<close>

definition tile_hash_value ::
  "('h \<Rightarrow> string \<Rightarrow> 'h) \<Rightarrow> ('h \<Rightarrow> int \<Rightarrow> 'h) \<Rightarrow> 'h \<Rightarrow> 'a tile_protocol_scheme \<Rightarrow> 'h" where
  "tile_hash_value combine_str combine_int seed tp =
     combine_int (combine_int (combine_int (combine_str seed (style tp)) (tp_z tp))
       (tp_x tp AND NOT (METATILE - 1))) (tp_y tp AND NOT (METATILE - 1))"

subsection \<open>Wire form\<close>

text \<open>The message declared in \<^verbatim>\<open>proto/tile.proto\<close>: an optional field is an option.\<close>

record pb_tile =
  pb_command :: int
  pb_x :: int
  pb_y :: int
  pb_z :: int
  pb_id :: int
  pb_image :: "string option"
  pb_style :: string
  pb_format :: int
  pb_last_modified :: "64 word option"
  pb_request_last_modified :: "64 word option"

definition to_pb :: "tile_protocol \<Rightarrow> pb_tile" where
  "to_pb tile = \<lparr>pb_command = cmd_to_int (status tile), pb_x = tp_x tile, pb_y = tp_y tile,
     pb_z = tp_z tile, pb_id = trunc32 (tp_id tile), pb_image = Some (tile_data tile),
     pb_style = style tile, pb_format = format tile,
     pb_last_modified = (if last_modified tile \<noteq> 0 then Some (word_of_int (last_modified tile)) else None),
     pb_request_last_modified =
       (if request_last_modified tile \<noteq> 0 then Some (word_of_int (request_last_modified tile)) else None)\<rparr>"

definition of_pb :: "pb_tile \<Rightarrow> tile_protocol" where
  "of_pb t = \<lparr>status = cmd_of_int (pb_command t), tp_x = pb_x t, tp_y = pb_y t, tp_z = pb_z t,
     tp_id = pb_id t, style = pb_style t, format = pb_format t,
     last_modified = (case pb_last_modified t of Some w \<Rightarrow> sint w | None \<Rightarrow> 0),
     request_last_modified = (case pb_request_last_modified t of Some w \<Rightarrow> sint w | None \<Rightarrow> 0),
     tile_data = (case pb_image t of Some d \<Rightarrow> d | None \<Rightarrow> '''')\<rparr>"

text \<open>
  \<^verbatim>\<open>serialise\<close> and \<^verbatim>\<open>unserialise\<close> over the generated \<^verbatim>\<open>SerializeToString\<close> and \<^verbatim>\<open>ParseFromString\<close>;
  \<open>None\<close> is a false result. On a parse failure the target tile is left as it was.
\<close>

definition serialise :: "(pb_tile \<Rightarrow> 'w option) \<Rightarrow> tile_protocol \<Rightarrow> 'w option" where
  "serialise SerializeToString tile = SerializeToString (to_pb tile)"

definition unserialise :: "('w \<Rightarrow> pb_tile option) \<Rightarrow> 'w \<Rightarrow> tile_protocol \<Rightarrow> bool \<times> tile_protocol" where
  "unserialise ParseFromString buf tile =
     (case ParseFromString buf of Some t \<Rightarrow> (True, of_pb t) | None \<Rightarrow> (False, tile))"

definition wf_tile :: "tile_protocol \<Rightarrow> bool" where
  "wf_tile t \<longleftrightarrow> wf_cmd (status t) \<and> int32 (tp_x t) \<and> int32 (tp_y t) \<and> int32 (tp_z t) \<and>
     int32 (format t) \<and>
     - (2 ^ 63) \<le> last_modified t \<and> last_modified t < 2 ^ 63 \<and>
     - (2 ^ 63) \<le> request_last_modified t \<and> request_last_modified t < 2 ^ 63"

definition wf_pb :: "pb_tile \<Rightarrow> bool" where
  "wf_pb m \<longleftrightarrow> int32 (pb_command m) \<and> int32 (pb_x m) \<and> int32 (pb_y m) \<and> int32 (pb_z m) \<and>
     int32 (pb_id m) \<and> int32 (pb_format m)"

subsection \<open>Facts\<close>

lemma cmd_to_int_of_int [simp]: "cmd_to_int (cmd_of_int n) = n"
  by (simp add: cmd_of_int_def)

lemma wf_cmd_enumerator [simp]:
  "wf_cmd cmdIgnore" "wf_cmd cmdRender" "wf_cmd cmdDirty" "wf_cmd cmdDone" "wf_cmd cmdNotDone"
  "wf_cmd cmdRenderPrio" "wf_cmd cmdRenderBulk" "wf_cmd cmdStatus"
  by (simp_all add: wf_cmd_def cmd_of_int_def int32_def)

lemma wf_cmd_cast: "wf_cmd c \<Longrightarrow> cmd_of_int (cmd_to_int c) = c"
  by (simp add: wf_cmd_def)

lemma sint64_word_of_int:
  "- (2 ^ 63) \<le> n \<Longrightarrow> n < 2 ^ 63 \<Longrightarrow> sint (word_of_int n :: 64 word) = n"
  by (simp add: sint_sbintrunc' signed_take_bit_int_eq_self)

lemma of_pb_to_pb:
  "wf_tile t \<Longrightarrow> of_pb (to_pb t) = t\<lparr>tp_id := trunc32 (tp_id t)\<rparr>"
  by (simp add: of_pb_def to_pb_def wf_tile_def wf_cmd_cast sint64_word_of_int)

lemma wf_pb_to_pb: "wf_tile t \<Longrightarrow> wf_pb (to_pb t)"
  by (simp add: wf_pb_def to_pb_def wf_tile_def wf_cmd_def)

lemma get_formats_vec_distinct: "distinct (get_formats_vec m)"
  by (simp add: get_formats_vec_def fmt_defs)

lemma get_formats_vec_single:
  "f \<in> set (get_formats_vec m) \<Longrightarrow> \<exists>n \<in> {''png'', ''jpeg'', ''gif'', ''json''}. file_type_for f = Inr n \<and> get_format_for n = f"
  by (auto simp: get_formats_vec_def file_type_for_def get_format_for_def fmt_defs split: if_splits)

end
