(* ===== verification/Ordered_Index.thy ===== *)
theory Ordered_Index
  imports Prelude "HOL-Library.Multiset"
begin

text \<open>
  The ordered non-unique indices of boost's \<^verbatim>\<open>multi_index_container\<close> as the task queue uses them. An
  index is the sequence of its elements in iteration order; \<open>lt\<close> is its comparison of two elements.
  Insertion links an element behind every element that is not greater (the upper bound). \<^verbatim>\<open>modify\<close>
  leaves an element where it is when it still lies between its neighbours and relinks it at the upper
  bound otherwise.
\<close>

definition idx_link :: "('k \<Rightarrow> 'k \<Rightarrow> bool) \<Rightarrow> 'k \<Rightarrow> 'k list \<Rightarrow> 'k list" where
  "idx_link lt k xs = takeWhile (\<lambda>j. \<not> lt k j) xs @ k # dropWhile (\<lambda>j. \<not> lt k j) xs"

definition idx_in_place :: "('k \<Rightarrow> 'k \<Rightarrow> bool) \<Rightarrow> 'k \<Rightarrow> 'k list \<Rightarrow> bool" where
  "idx_in_place lt k xs =
     (let before = takeWhile (\<lambda>j. j \<noteq> k) xs; after = tl (dropWhile (\<lambda>j. j \<noteq> k) xs)
      in (before = [] \<or> \<not> lt k (last before)) \<and> (after = [] \<or> \<not> lt (hd after) k))"

definition idx_modify :: "('k \<Rightarrow> 'k \<Rightarrow> bool) \<Rightarrow> 'k \<Rightarrow> 'k list \<Rightarrow> 'k list" where
  "idx_modify lt k xs = (if idx_in_place lt k xs then xs else idx_link lt k (remove1 k xs))"

lemma mset_idx_link [simp]: "mset (idx_link lt k xs) = add_mset k (mset xs)"
proof -
  have "mset xs = mset (takeWhile (\<lambda>j. \<not> lt k j) xs @ dropWhile (\<lambda>j. \<not> lt k j) xs)" by simp
  then show ?thesis by (simp add: idx_link_def del: takeWhile_dropWhile_id)
qed

lemma set_idx_link [simp]: "set (idx_link lt k xs) = insert k (set xs)"
  by (metis mset_idx_link set_mset_mset set_mset_add_mset_insert)

lemma distinct_idx_link: "distinct xs \<Longrightarrow> k \<notin> set xs \<Longrightarrow> distinct (idx_link lt k xs)"
proof -
  assume d: "distinct xs" "k \<notin> set xs"
  then have "distinct (k # xs)" by simp
  moreover have "mset (idx_link lt k xs) = mset (k # xs)" by simp
  ultimately show ?thesis by (metis mset_eq_imp_distinct_iff)
qed

lemma mset_idx_modify [simp]: "k \<in> set xs \<Longrightarrow> mset (idx_modify lt k xs) = mset xs"
  by (simp add: idx_modify_def)

lemma set_idx_modify [simp]: "k \<in> set xs \<Longrightarrow> set (idx_modify lt k xs) = set xs"
  by (metis mset_idx_modify set_mset_mset)

lemma distinct_idx_modify: "distinct xs \<Longrightarrow> k \<in> set xs \<Longrightarrow> distinct (idx_modify lt k xs)"
  by (metis mset_eq_imp_distinct_iff mset_idx_modify)

lemma idx_in_place_split:
  "k \<notin> set us \<Longrightarrow> idx_in_place lt k (us @ k # vs) \<longleftrightarrow>
     (us = [] \<or> \<not> lt k (last us)) \<and> (vs = [] \<or> \<not> lt (hd vs) k)"
proof -
  assume k: "k \<notin> set us"
  have "takeWhile (\<lambda>j. j \<noteq> k) (us @ k # vs) = us" using k by (subst takeWhile_append2) auto
  moreover have "dropWhile (\<lambda>j. j \<noteq> k) (us @ k # vs) = k # vs" using k by (subst dropWhile_append2) auto
  ultimately show ?thesis by (simp add: idx_in_place_def)
qed

text \<open>An ordered index needs a strict weak order; a sequence is in order when no element precedes a smaller one.\<close>

locale ordered_index =
  fixes lt :: "'k \<Rightarrow> 'k \<Rightarrow> bool"
  assumes lt_irrefl: "\<not> lt a a"
    and lt_trans: "lt a b \<Longrightarrow> lt b c \<Longrightarrow> lt a c"
    and lt_split: "lt a c \<Longrightarrow> lt a b \<or> lt b c"
begin

lemma lt_asym: "lt a b \<Longrightarrow> \<not> lt b a"
  using lt_irrefl lt_trans by blast

lemma le_trans: "\<not> lt b a \<Longrightarrow> \<not> lt c b \<Longrightarrow> \<not> lt c a"
  using lt_split by blast

lemma sorted_append_iff:
  "sorted_wrt (\<lambda>a b. \<not> lt b a) (us @ k # vs) \<longleftrightarrow>
     sorted_wrt (\<lambda>a b. \<not> lt b a) (us @ vs) \<and> (\<forall>u \<in> set us. \<not> lt k u) \<and> (\<forall>v \<in> set vs. \<not> lt v k)"
  by (auto simp: sorted_wrt_append)

lemma sorted_link:
  assumes "sorted_wrt (\<lambda>a b. \<not> lt b a) xs"
  shows "sorted_wrt (\<lambda>a b. \<not> lt b a) (idx_link lt k xs)"
proof -
  let ?us = "takeWhile (\<lambda>j. \<not> lt k j) xs" and ?vs = "dropWhile (\<lambda>j. \<not> lt k j) xs"
  have split: "?us @ ?vs = xs" by simp
  have "\<not> lt v k" if v: "v \<in> set ?vs" for v
  proof -
    obtain w ws where vs: "?vs = w # ws" using v by (cases ?vs) auto
    then have w: "lt k w" by (metis dropWhile_eq_Cons_conv)
    have "sorted_wrt (\<lambda>a b. \<not> lt b a) ?vs" using assms split by (metis sorted_wrt_append)
    then have "v = w \<or> \<not> lt v w" using v vs by auto
    then show ?thesis using w lt_trans lt_asym lt_irrefl by blast
  qed
  moreover have "\<forall>u \<in> set ?us. \<not> lt k u" by (auto dest: set_takeWhileD)
  ultimately show ?thesis
    unfolding idx_link_def sorted_append_iff using assms split by auto
qed

lemma sorted_in_place:
  assumes "sorted_wrt (\<lambda>a b. \<not> lt b a) (us @ vs)" "k \<notin> set us" "idx_in_place lt k (us @ k # vs)"
  shows "sorted_wrt (\<lambda>a b. \<not> lt b a) (us @ k # vs)"
proof -
  have us: "us = [] \<or> \<not> lt k (last us)" and vs: "vs = [] \<or> \<not> lt (hd vs) k"
    using assms(2,3) by (auto simp: idx_in_place_split)
  have "\<not> lt k u" if u: "u \<in> set us" for u
  proof -
    obtain ws l where ws: "us = ws @ [l]" using u by (cases us rule: rev_cases) auto
    have "sorted_wrt (\<lambda>a b. \<not> lt b a) (ws @ [l])" using assms(1) ws by (simp add: sorted_wrt_append)
    then have "u = last us \<or> \<not> lt (last us) u" using u ws by (auto simp: sorted_wrt_append)
    then show ?thesis using us u le_trans by auto
  qed
  moreover have "\<not> lt v k" if v: "v \<in> set vs" for v
  proof -
    have "sorted_wrt (\<lambda>a b. \<not> lt b a) vs" using assms(1) by (simp add: sorted_wrt_append)
    then have "v = hd vs \<or> \<not> lt v (hd vs)" using v by (cases vs) auto
    then show ?thesis using vs v le_trans by auto
  qed
  ultimately show ?thesis using assms(1) by (simp add: sorted_append_iff)
qed

text \<open>\<^const>\<open>idx_modify\<close> restores the order when only the modified element's place was in question.\<close>

lemma sorted_modify:
  assumes "distinct xs" "k \<in> set xs" "sorted_wrt (\<lambda>a b. \<not> lt b a) (remove1 k xs)"
  shows "sorted_wrt (\<lambda>a b. \<not> lt b a) (idx_modify lt k xs)"
proof (cases "idx_in_place lt k xs")
  case True
  obtain us vs where xs: "xs = us @ k # vs" using assms(2) by (meson split_list)
  have "k \<notin> set us" using assms(1) xs by simp
  moreover from this have "remove1 k xs = us @ vs" using xs by (simp add: remove1_append)
  ultimately show ?thesis using True assms(3) sorted_in_place [of us vs k] xs by (simp add: idx_modify_def)
next
  case False
  then show ?thesis using sorted_link [OF assms(3)] by (simp add: idx_modify_def)
qed

text \<open>Linking an element that is not smaller than any other puts it last.\<close>

lemma link_last: "\<forall>j \<in> set xs. \<not> lt k j \<Longrightarrow> idx_link lt k xs = xs @ [k]"
  by (simp add: idx_link_def takeWhile_eq_all_conv [THEN iffD2] dropWhile_eq_Nil_conv [THEN iffD2])

end

end
