(* ===== verification/Task_Queue.thy ===== *)
theory Task_Queue
  imports Tile_Types Ordered_Index
begin

text \<open>
  The broker's queue of tasks (\<^verbatim>\<open>task_queue.hpp\<close>). A task is a tile message extended with a priority, a
  timestamp, its subscribers and the flag that a worker is on it. The container has three indices: a
  hashed unique one on position and style, an ordered one on falling priority and an ordered one on
  rising timestamp; the last compares with \<^verbatim>\<open>std::less<int>\<close>, so on the low 32 bits of the
  time. The state is the map from keys to tasks and the two orders. The current time is an argument
  of the operations that read it.
\<close>

subsection \<open>Tasks\<close>

record task = tile_protocol +
  priority :: int
  timestamp :: int
  subscribers :: "(tile_protocol \<times> string) list"
  processed :: bool

text \<open>What the hashed index compares: position and style.\<close>

datatype task_key = Key int int int string

definition task_key :: "'a tile_protocol_scheme \<Rightarrow> task_key" where
  "task_key t = Key (tp_x t) (tp_y t) (tp_z t) (style t)"

definition mk_task :: "int \<Rightarrow> tile_protocol \<Rightarrow> int \<Rightarrow> task" where
  "mk_task now t prio = tile_protocol.extend t (task.fields prio now [] False)"

definition task_eq :: "task \<Rightarrow> task \<Rightarrow> bool" where
  "task_eq t0 t1 \<longleftrightarrow> tp_x t0 = tp_x t1 \<and> tp_y t0 = tp_y t1 \<and> tp_z t0 = tp_z t1 \<and> style t0 = style t1"

definition task_hash_value ::
  "('h \<Rightarrow> string \<Rightarrow> 'h) \<Rightarrow> ('h \<Rightarrow> int \<Rightarrow> 'h) \<Rightarrow> 'h \<Rightarrow> task \<Rightarrow> 'h" where
  "task_hash_value combine_str combine_int seed t = tile_hash_value combine_str combine_int seed t"

definition set_priority :: "int \<Rightarrow> task \<Rightarrow> task" where
  "set_priority prio t = t\<lparr>priority := prio\<rparr>"

definition task_add_subscriber :: "tile_protocol \<Rightarrow> string \<Rightarrow> task \<Rightarrow> task" where
  "task_add_subscriber tile addr t = t\<lparr>subscribers := subscribers t @ [(tile, addr)]\<rparr>"

subsection \<open>The functors passed to modify\<close>

definition add_subscriber :: "tile_protocol \<Rightarrow> string \<Rightarrow> int \<Rightarrow> task \<Rightarrow> task" where
  "add_subscriber tile addr prio t =
     (let t1 = (if prio > priority t then set_priority prio t else t);
          t2 = task_add_subscriber tile addr t1
      in t2\<lparr>format := format t2 OR format tile\<rparr>)"

definition processed_fun :: "task \<Rightarrow> task" where
  "processed_fun t = t\<lparr>processed := True\<rparr>"

definition unprocessed_fun :: "int \<Rightarrow> task \<Rightarrow> task" where
  "unprocessed_fun now t = t\<lparr>processed := False, timestamp := now\<rparr>"

subsection \<open>The container\<close>

record task_queue =
  nodes :: "task_key \<Rightarrow> task option"
  prio_index :: "task_key list"
  time_index :: "task_key list"

definition empty_queue :: task_queue where
  "empty_queue = \<lparr>nodes = (\<lambda>_. None), prio_index = [], time_index = []\<rparr>"

definition prio_of :: "(task_key \<Rightarrow> task option) \<Rightarrow> task_key \<Rightarrow> int" where
  "prio_of m k = (case m k of Some t \<Rightarrow> priority t | None \<Rightarrow> 0)"

definition time_of :: "(task_key \<Rightarrow> task option) \<Rightarrow> task_key \<Rightarrow> int" where
  "time_of m k = (case m k of Some t \<Rightarrow> trunc32 (timestamp t) | None \<Rightarrow> 0)"

definition prio_lt :: "(task_key \<Rightarrow> task option) \<Rightarrow> task_key \<Rightarrow> task_key \<Rightarrow> bool" where
  "prio_lt m a b \<longleftrightarrow> prio_of m a > prio_of m b"

definition time_lt :: "(task_key \<Rightarrow> task option) \<Rightarrow> task_key \<Rightarrow> task_key \<Rightarrow> bool" where
  "time_lt m a b \<longleftrightarrow> time_of m a < time_of m b"

definition mi_insert :: "task \<Rightarrow> task_queue \<Rightarrow> bool \<times> task_queue" where
  "mi_insert t q =
     (let k = task_key t in
      case nodes q k of
        Some _ \<Rightarrow> (False, q)
      | None \<Rightarrow>
        (let m = (nodes q)(k \<mapsto> t)
         in (True, \<lparr>nodes = m, prio_index = idx_link (prio_lt m) k (prio_index q),
                    time_index = idx_link (time_lt m) k (time_index q)\<rparr>)))"

definition mi_modify :: "task_key \<Rightarrow> (task \<Rightarrow> task) \<Rightarrow> task_queue \<Rightarrow> task_queue" where
  "mi_modify k f q =
     (case nodes q k of
        None \<Rightarrow> q
      | Some t \<Rightarrow>
        (let m = (nodes q)(k \<mapsto> f t)
         in \<lparr>nodes = m, prio_index = idx_modify (prio_lt m) k (prio_index q),
             time_index = idx_modify (time_lt m) k (time_index q)\<rparr>))"

definition mi_erase :: "task_key \<Rightarrow> task_queue \<Rightarrow> task_queue" where
  "mi_erase k q = \<lparr>nodes = (nodes q)(k := None), prio_index = remove1 k (prio_index q),
     time_index = remove1 k (time_index q)\<rparr>"

subsection \<open>The operations\<close>

definition set_processed :: "'a tile_protocol_scheme \<Rightarrow> task_queue \<Rightarrow> task_queue" where
  "set_processed tile q =
     (case nodes q (task_key tile) of
        Some _ \<Rightarrow> mi_modify (task_key tile) processed_fun q
      | None \<Rightarrow> q)"

text \<open>
  The loop of \<^verbatim>\<open>resubmit_older_than\<close>. The iterator is the position in the timestamp index; when a task
  is modified its element may be relinked elsewhere, and the increment continues behind the new place.
  A position without a task cannot occur in a well-formed queue and is skipped.
\<close>

definition resubmittable :: "int \<Rightarrow> int \<Rightarrow> task \<Rightarrow> bool" where
  "resubmittable now timeout t \<longleftrightarrow> status t \<noteq> cmdRenderBulk \<and> now - timestamp t \<ge> timeout \<and> processed t"

function resubmit_from :: "int \<Rightarrow> int \<Rightarrow> nat \<Rightarrow> task_queue \<Rightarrow> task_queue" where
  "resubmit_from now timeout i q =
     (if length (time_index q) \<le> i then q
      else
        (let k = time_index q ! i in
         case nodes q k of
           None \<Rightarrow> resubmit_from now timeout (Suc i) q
         | Some t \<Rightarrow>
           if resubmittable now timeout t
           then (let q' = mi_modify k (unprocessed_fun now) q
                 in resubmit_from now timeout (Suc (index_of k (time_index q'))) q')
           else resubmit_from now timeout (Suc i) q))"
  by pat_completeness auto

definition num_processed :: "task_queue \<Rightarrow> nat" where
  "num_processed q = length (filter (\<lambda>k. case nodes q k of Some t \<Rightarrow> processed t | None \<Rightarrow> False) (time_index q))"

lemma num_processed_unprocess:
  assumes "i < length (time_index q)" "nodes q (time_index q ! i) = Some t" "processed t"
  shows "num_processed (mi_modify (time_index q ! i) (unprocessed_fun now) q) < num_processed q"
proof -
  let ?k = "time_index q ! i" and ?P = "\<lambda>q k. case nodes q k of Some t \<Rightarrow> processed t | None \<Rightarrow> False"
  let ?q = "mi_modify ?k (unprocessed_fun now) q"
  have k: "?k \<in> set (time_index q)" using assms(1) by simp
  have ms: "mset (time_index ?q) = mset (time_index q)" using assms(2) k by (simp add: mi_modify_def Let_def)
  have "num_processed ?q = size (filter_mset (?P ?q) (mset (time_index ?q)))"
    by (simp add: num_processed_def mset_filter flip: size_mset)
  also have "\<dots> = size (filter_mset (?P ?q) (mset (time_index q)))" by (simp only: ms)
  also have "\<dots> < size (filter_mset (?P q) (mset (time_index q)))"
  proof (rule mset_subset_size, rule subset_mset.le_neq_trans)
    have imp: "?P ?q j \<Longrightarrow> ?P q j" for j
      using assms(2) by (auto simp: mi_modify_def unprocessed_fun_def Let_def split: option.splits if_splits)
    then show "filter_mset (?P ?q) (mset (time_index q)) \<subseteq># filter_mset (?P q) (mset (time_index q))"
      by (intro mset_subset_eqI) auto
    have "?k \<in># filter_mset (?P q) (mset (time_index q))" using assms(2,3) k by simp
    moreover have "?k \<notin># filter_mset (?P ?q) (mset (time_index q))"
      using assms(2) by (simp add: mi_modify_def unprocessed_fun_def Let_def)
    ultimately show "filter_mset (?P ?q) (mset (time_index q)) \<noteq> filter_mset (?P q) (mset (time_index q))" by metis
  qed
  also have "\<dots> = num_processed q" by (simp add: num_processed_def mset_filter flip: size_mset)
  finally show ?thesis .
qed

termination resubmit_from
  by (relation "measures [\<lambda>(now, timeout, i, q). num_processed q, \<lambda>(now, timeout, i, q). length (time_index q) - i]")
     (auto simp: num_processed_unprocess resubmittable_def)

declare resubmit_from.simps [simp del]

definition resubmit_older_than :: "int \<Rightarrow> int \<Rightarrow> task_queue \<Rightarrow> task_queue" where
  "resubmit_older_than now timeout q = resubmit_from now timeout 0 q"

definition meta_of :: "tile_protocol \<Rightarrow> tile_protocol" where
  "meta_of tile = tile\<lparr>tp_x := tp_x tile AND NOT (METATILE - 1), tp_y := tp_y tile AND NOT (METATILE - 1),
     status := cmdRender\<rparr>"

definition push :: "int \<Rightarrow> tile_protocol \<Rightarrow> string \<Rightarrow> int \<Rightarrow> task_queue \<Rightarrow> bool \<times> task_queue" where
  "push now tile address prio q =
     (let (inserted, q1) = mi_insert (mk_task now (meta_of tile) prio) q
      in (inserted, mi_modify (task_key (meta_of tile)) (add_subscriber tile address prio) q1))"

definition pop :: "task_queue \<Rightarrow> task_queue" where
  "pop q = (case prio_index q of [] \<Rightarrow> q | k # _ \<Rightarrow> mi_erase k q)"

definition erase :: "'a tile_protocol_scheme \<Rightarrow> task_queue \<Rightarrow> bool \<times> task_queue" where
  "erase tile q =
     (case nodes q (task_key tile) of
        Some _ \<Rightarrow> (True, mi_erase (task_key tile) q)
      | None \<Rightarrow> (False, q))"

definition get :: "'a tile_protocol_scheme \<Rightarrow> task_queue \<Rightarrow> task option" where
  "get tile q = nodes q (task_key tile)"

definition tasks :: "task_queue \<Rightarrow> task list" where
  "tasks q = List.map_filter (nodes q) (prio_index q)"

fun front_loop :: "(task_key \<Rightarrow> task option) \<Rightarrow> task_key list \<Rightarrow> task option" where
  "front_loop m [] = None"
| "front_loop m (k # ks) =
     (case m k of
        Some t \<Rightarrow> if \<not> processed t then Some t else front_loop m ks
      | None \<Rightarrow> front_loop m ks)"

definition front :: "task_queue \<Rightarrow> task option" where
  "front q = front_loop (nodes q) (prio_index q)"

definition queue_size :: "task_queue \<Rightarrow> nat" where
  "queue_size q = length (prio_index q)"

fun count_loop :: "(task_key \<Rightarrow> task option) \<Rightarrow> task_key list \<Rightarrow> nat \<Rightarrow> nat" where
  "count_loop m [] n = n"
| "count_loop m (k # ks) n =
     (case m k of
        Some t \<Rightarrow> count_loop m ks (if \<not> processed t then Suc n else n)
      | None \<Rightarrow> count_loop m ks n)"

definition count_unprocessed :: "task_queue \<Rightarrow> nat" where
  "count_unprocessed q = count_loop (nodes q) (prio_index q) 0"

definition clear :: "task_queue \<Rightarrow> task_queue" where
  "clear q = empty_queue"

end
