(* ===== verification/Task_Queue_Props.thy ===== *)
theory Task_Queue_Props
  imports Task_Queue
begin

text \<open>
  Correctness of the task queue: the representation invariant of the three indices and of the tasks,
  its preservation by every operation, the interface \<open>render_queue\<close> through which the broker uses the
  queue, and what each operation does to the tasks.
\<close>

subsection \<open>Both orders are strict weak orders\<close>

interpretation pr: ordered_index "prio_lt m" for m
  by unfold_locales (auto simp: prio_lt_def)

interpretation ti: ordered_index "time_lt m" for m
  by unfold_locales (auto simp: time_lt_def)

subsection \<open>The invariant\<close>

definition wf_index :: "task_queue \<Rightarrow> bool" where
  "wf_index q \<longleftrightarrow> distinct (prio_index q) \<and> distinct (time_index q) \<and>
     set (prio_index q) = dom (nodes q) \<and> set (time_index q) = dom (nodes q) \<and>
     sorted_wrt (\<lambda>a b. \<not> prio_lt (nodes q) b a) (prio_index q) \<and>
     sorted_wrt (\<lambda>a b. \<not> time_lt (nodes q) b a) (time_index q) \<and>
     (\<forall>k t. nodes q k = Some t \<longrightarrow> task_key t = k)"

text \<open>
  A task stands for one metatile: it has the render command, somebody waits for it, everybody who
  waits asked for a tile of this metatile, and the formats they asked for are among the task's.
\<close>

definition wf_task :: "task_key \<Rightarrow> task \<Rightarrow> bool" where
  "wf_task k t \<longleftrightarrow> task_key t = k \<and> status t = cmdRender \<and> subscribers t \<noteq> [] \<and>
     (\<forall>s \<in> set (subscribers t). task_key (meta_of (fst s)) = k \<and> format (fst s) OR format t = format t)"

definition wf_queue :: "task_queue \<Rightarrow> bool" where
  "wf_queue q \<longleftrightarrow> wf_index q \<and> (\<forall>k t. nodes q k = Some t \<longrightarrow> wf_task k t)"

lemma wf_index_empty [simp]: "wf_index empty_queue"
  by (simp add: wf_index_def empty_queue_def)

lemma wf_queue_empty [simp]: "wf_queue empty_queue"
  by (simp add: wf_queue_def) (simp add: empty_queue_def)

lemma wf_index_key: "wf_index q \<Longrightarrow> nodes q k = Some t \<Longrightarrow> task_key t = k"
  by (simp add: wf_index_def)

lemma sorted_remove:
  assumes "distinct xs" "sorted_wrt P xs"
    and "\<And>a b. a \<noteq> k \<Longrightarrow> b \<noteq> k \<Longrightarrow> P a b \<Longrightarrow> Q a b"
  shows "sorted_wrt Q (remove1 k xs)"
proof -
  have eq: "remove1 k xs = filter (\<lambda>j. j \<noteq> k) xs" using assms(1) by (rule distinct_remove1_removeAll [THEN trans]) (simp add: removeAll_filter_not_eq conj_commute eq_commute)
  have "sorted_wrt P (filter (\<lambda>j. j \<noteq> k) xs)" using assms(2) by (rule sorted_wrt_filter)
  then show ?thesis unfolding eq by (rule sorted_wrt_mono_rel [rotated]) (auto intro: assms(3))
qed

lemma prio_lt_other: "a \<noteq> k \<Longrightarrow> b \<noteq> k \<Longrightarrow> prio_lt (m(k := v)) a b = prio_lt m a b"
  by (simp add: prio_lt_def prio_of_def)

lemma time_lt_other: "a \<noteq> k \<Longrightarrow> b \<noteq> k \<Longrightarrow> time_lt (m(k := v)) a b = time_lt m a b"
  by (simp add: time_lt_def time_of_def)

lemma sorted_other:
  assumes "k \<notin> set xs" "sorted_wrt (\<lambda>a b. \<not> P m b a) xs"
    and "\<And>a b. a \<noteq> k \<Longrightarrow> b \<noteq> k \<Longrightarrow> P (m(k := v)) a b = P m a b"
  shows "sorted_wrt (\<lambda>a b. \<not> P (m(k := v)) b a) xs"
  using assms(2) by (rule sorted_wrt_mono_rel [rotated]) (metis assms(1,3))

lemma mi_insert_index:
  assumes "wf_index q" shows "wf_index (snd (mi_insert t q))"
proof (cases "nodes q (task_key t)")
  case (Some u)
  then show ?thesis using assms by (simp add: mi_insert_def)
next
  case None
  let ?k = "task_key t" and ?m = "(nodes q)(task_key t \<mapsto> t)"
  have new: "?k \<notin> set (prio_index q)" "?k \<notin> set (time_index q)"
    using assms None by (auto simp: wf_index_def)
  have "sorted_wrt (\<lambda>a b. \<not> prio_lt ?m b a) (idx_link (prio_lt ?m) ?k (prio_index q))"
    by (rule pr.sorted_link, rule sorted_other [OF new(1), where P = prio_lt]) (use assms in \<open>simp_all add: wf_index_def prio_lt_other\<close>)
  moreover have "sorted_wrt (\<lambda>a b. \<not> time_lt ?m b a) (idx_link (time_lt ?m) ?k (time_index q))"
    by (rule ti.sorted_link, rule sorted_other [OF new(2), where P = time_lt]) (use assms in \<open>simp_all add: wf_index_def time_lt_other\<close>)
  ultimately show ?thesis
    using assms None new by (auto simp: wf_index_def mi_insert_def Let_def intro: distinct_idx_link)
qed

lemma mi_modify_index:
  assumes wf: "wf_index q" and key: "\<And>t. task_key (f t) = task_key t"
  shows "wf_index (mi_modify k f q)"
proof (cases "nodes q k")
  case None
  then show ?thesis using wf by (simp add: mi_modify_def)
next
  case (Some t)
  let ?m = "(nodes q)(k \<mapsto> f t)"
  have k: "k \<in> set (prio_index q)" "k \<in> set (time_index q)" "distinct (prio_index q)" "distinct (time_index q)"
    using wf Some by (auto simp: wf_index_def)
  have "sorted_wrt (\<lambda>a b. \<not> prio_lt ?m b a) (idx_modify (prio_lt ?m) k (prio_index q))"
    by (rule pr.sorted_modify [OF k(3,1)], rule sorted_remove [OF k(3)])
       (use wf prio_lt_other in \<open>auto simp: wf_index_def\<close>)
  moreover have "sorted_wrt (\<lambda>a b. \<not> time_lt ?m b a) (idx_modify (time_lt ?m) k (time_index q))"
    by (rule ti.sorted_modify [OF k(4,2)], rule sorted_remove [OF k(4)])
       (use wf time_lt_other in \<open>auto simp: wf_index_def\<close>)
  ultimately show ?thesis
    using wf Some k key by (auto simp: wf_index_def mi_modify_def Let_def intro: distinct_idx_modify)
qed

lemma mi_erase_index:
  assumes wf: "wf_index q" shows "wf_index (mi_erase k q)"
proof -
  have d: "distinct (prio_index q)" "distinct (time_index q)" using wf by (auto simp: wf_index_def)
  have "sorted_wrt (\<lambda>a b. \<not> prio_lt ((nodes q)(k := None)) b a) (remove1 k (prio_index q))"
    by (rule sorted_remove [OF d(1)]) (use wf prio_lt_other in \<open>auto simp: wf_index_def\<close>)
  moreover have "sorted_wrt (\<lambda>a b. \<not> time_lt ((nodes q)(k := None)) b a) (remove1 k (time_index q))"
    by (rule sorted_remove [OF d(2)]) (use wf time_lt_other in \<open>auto simp: wf_index_def\<close>)
  ultimately show ?thesis using wf d by (auto simp: wf_index_def mi_erase_def)
qed

subsection \<open>What the operations do to the tasks\<close>

lemma nodes_mi_modify: "nodes (mi_modify k f q) = (nodes q)(k := map_option f (nodes q k))"
  by (auto simp: mi_modify_def Let_def split: option.splits)

lemma nodes_mi_insert:
  "nodes (snd (mi_insert t q)) = (if nodes q (task_key t) = None then (nodes q)(task_key t \<mapsto> t) else nodes q)"
  by (auto simp: mi_insert_def Let_def split: option.splits)

lemma task_key_mk [simp]: "task_key (mk_task now t p) = task_key t"
  by (simp add: task_key_def mk_task_def tile_protocol.defs task.defs)

lemma mk_task_simps [simp]:
  "status (mk_task now t p) = status t" "format (mk_task now t p) = format t"
  "subscribers (mk_task now t p) = []" "priority (mk_task now t p) = p"
  "processed (mk_task now t p) = False" "timestamp (mk_task now t p) = now"
  by (simp_all add: mk_task_def tile_protocol.defs task.defs)

lemma meta_of_simps [simp]: "status (meta_of t) = cmdRender" "format (meta_of t) = format t" "style (meta_of t) = style t"
  by (simp_all add: meta_of_def)

lemma add_subscriber_simps [simp]:
  "task_key (add_subscriber s a p t) = task_key t" "status (add_subscriber s a p t) = status t"
  "subscribers (add_subscriber s a p t) = subscribers t @ [(s, a)]"
  "format (add_subscriber s a p t) = format t OR format s" "priority (add_subscriber s a p t) = max (priority t) p"
  "processed (add_subscriber s a p t) = processed t" "timestamp (add_subscriber s a p t) = timestamp t"
  by (simp_all add: add_subscriber_def task_add_subscriber_def set_priority_def task_key_def Let_def)

lemma processed_fun_simps [simp]:
  "task_key (processed_fun t) = task_key t" "status (processed_fun t) = status t"
  "subscribers (processed_fun t) = subscribers t" "format (processed_fun t) = format t"
  "priority (processed_fun t) = priority t" "processed (processed_fun t)" "timestamp (processed_fun t) = timestamp t"
  by (simp_all add: processed_fun_def task_key_def)

lemma unprocessed_fun_simps [simp]:
  "task_key (unprocessed_fun n t) = task_key t" "status (unprocessed_fun n t) = status t"
  "subscribers (unprocessed_fun n t) = subscribers t" "format (unprocessed_fun n t) = format t"
  "priority (unprocessed_fun n t) = priority t" "\<not> processed (unprocessed_fun n t)" "timestamp (unprocessed_fun n t) = n"
  by (simp_all add: unprocessed_fun_def task_key_def)

lemma nodes_push:
  "nodes (snd (push now tile addr p q)) = (nodes q)(task_key (meta_of tile) \<mapsto> add_subscriber tile addr p
     (case nodes q (task_key (meta_of tile)) of Some t \<Rightarrow> t | None \<Rightarrow> mk_task now (meta_of tile) p))"
  by (auto simp: push_def case_prod_unfold Let_def nodes_mi_modify nodes_mi_insert split: option.splits)

lemma fst_push: "fst (push now tile addr p q) \<longleftrightarrow> nodes q (task_key (meta_of tile)) = None"
  by (auto simp: push_def case_prod_unfold Let_def mi_insert_def split: option.splits)

lemma nodes_erase: "nodes (snd (erase tile q)) = (nodes q)(task_key tile := None)"
  by (auto simp: erase_def mi_erase_def split: option.splits)

lemma nodes_set_processed:
  "nodes (set_processed tile q) = (nodes q)(task_key tile := map_option processed_fun (nodes q (task_key tile)))"
  by (auto simp: set_processed_def nodes_mi_modify split: option.splits)

lemma push_index: "wf_index q \<Longrightarrow> wf_index (snd (push now tile addr p q))"
  by (simp add: push_def case_prod_unfold Let_def mi_modify_index mi_insert_index)

lemma or_absorb_int: "(a :: int) OR (b OR a) = b OR a" "a OR (a OR b) = a OR b"
  by (auto simp: bit_eq_iff bit_or_iff)

lemma or_mono_int: "(a :: int) OR b = b \<Longrightarrow> a OR (b OR c) = b OR c"
  by (metis or.assoc)

text \<open>Every operation of the queue keeps the invariant.\<close>

lemma wf_push: "wf_queue q \<Longrightarrow> wf_queue (snd (push now tile addr p q))"
  unfolding wf_queue_def
  by (auto simp: push_index nodes_push wf_task_def or_absorb_int or_mono_int split: option.splits if_splits)

lemma wf_erase: "wf_queue q \<Longrightarrow> wf_queue (snd (erase tile q))"
  by (auto simp: wf_queue_def erase_def mi_erase_index split: option.splits) (auto simp: mi_erase_def split: if_splits)

lemma wf_pop: "wf_queue q \<Longrightarrow> wf_queue (pop q)"
  by (auto simp: wf_queue_def pop_def mi_erase_index split: list.splits) (auto simp: mi_erase_def split: if_splits)

lemma wf_modify:
  assumes "wf_queue q" "\<And>t. wf_task k t \<Longrightarrow> wf_task k (f t)" "\<And>t. task_key (f t) = task_key t"
  shows "wf_queue (mi_modify k f q)"
  using assms by (auto simp: wf_queue_def mi_modify_index nodes_mi_modify split: if_splits)

lemma wf_set_processed: "wf_queue q \<Longrightarrow> wf_queue (set_processed tile q)"
  by (auto simp: set_processed_def wf_task_def intro!: wf_modify split: option.splits)

lemma wf_unprocess: "wf_queue q \<Longrightarrow> wf_queue (mi_modify k (unprocessed_fun now) q)"
  by (rule wf_modify) (auto simp: wf_task_def)

lemma wf_resubmit_from: "wf_queue q \<Longrightarrow> wf_queue (resubmit_from now timeout i q)"
proof (induction now timeout i q rule: resubmit_from.induct)
  case (1 now timeout i q)
  then show ?case
    by (subst resubmit_from.simps) (auto simp: Let_def wf_unprocess split: option.splits)
qed

lemma wf_resubmit: "wf_queue q \<Longrightarrow> wf_queue (resubmit_older_than now timeout q)"
  by (simp add: resubmit_older_than_def wf_resubmit_from)

subsection \<open>Front and count\<close>

lemma front_loop_find:
  "front_loop m ks = (case find (\<lambda>k. \<exists>t. m k = Some t \<and> \<not> processed t) ks of Some k \<Rightarrow> m k | None \<Rightarrow> None)"
  by (induction ks) (auto split: option.splits)

lemma front_None:
  assumes "wf_index q"
  shows "front q = None \<longleftrightarrow> (\<forall>k t. nodes q k = Some t \<longrightarrow> processed t)"
proof -
  let ?P = "\<lambda>k. \<exists>t. nodes q k = Some t \<and> \<not> processed t"
  have "front q = None \<longleftrightarrow> find ?P (prio_index q) = None"
    unfolding front_def front_loop_find by (auto split: option.splits elim: find_Some_split)
  also have "\<dots> \<longleftrightarrow> (\<forall>k \<in> dom (nodes q). \<not> ?P k)"
    using assms by (auto simp: find_None_iff wf_index_def)
  finally show ?thesis by blast
qed

lemma front_Some:
  assumes "wf_index q" "front q = Some t"
  shows "nodes q (task_key t) = Some t" "\<not> processed t"
    and "\<And>k u. nodes q k = Some u \<Longrightarrow> \<not> processed u \<Longrightarrow> priority u \<le> priority t"
proof -
  let ?P = "\<lambda>k. \<exists>t. nodes q k = Some t \<and> \<not> processed t"
  obtain k where find: "find ?P (prio_index q) = Some k" and k: "nodes q k = Some t"
    using assms(2) unfolding front_def front_loop_find by (auto split: option.splits)
  obtain us vs where split: "prio_index q = us @ k # vs" "\<forall>u \<in> set us. \<not> ?P u" "?P k"
    using find by (rule find_Some_split)
  show "nodes q (task_key t) = Some t" using wf_index_key [OF assms(1) k] k by simp
  show "\<not> processed t" using split(3) k by simp
  fix j u assume j: "nodes q j = Some u" "\<not> processed u"
  then have "j \<in> set (prio_index q)" using assms(1) by (auto simp: wf_index_def)
  then have "j = k \<or> j \<in> set vs" using split j by auto
  moreover have "\<not> prio_lt (nodes q) j k" if "j \<in> set vs"
    using assms(1) split(1) that by (auto simp: wf_index_def sorted_wrt_append)
  ultimately show "priority u \<le> priority t" using j k by (auto simp: prio_lt_def prio_of_def)
qed

lemma count_loop_filter:
  "count_loop m ks n = n + length (filter (\<lambda>k. \<exists>t. m k = Some t \<and> \<not> processed t) ks)"
  by (induction ks arbitrary: n) (auto split: option.splits)

lemma count_unprocessed_card:
  assumes "wf_index q"
  shows "count_unprocessed q = card {k. \<exists>t. nodes q k = Some t \<and> \<not> processed t}"
proof -
  have "{k. \<exists>t. nodes q k = Some t \<and> \<not> processed t} =
      set (filter (\<lambda>k. \<exists>t. nodes q k = Some t \<and> \<not> processed t) (prio_index q))"
    using assms by (auto simp: wf_index_def)
  then show ?thesis
    using assms distinct_card [OF distinct_filter [of "prio_index q"]]
    by (simp add: count_unprocessed_def count_loop_filter wf_index_def)
qed

subsection \<open>Resubmission\<close>

lemma resubmit_from_task:
  "nodes (resubmit_from now timeout i q) k = nodes q k \<or>
   (\<exists>t. nodes q k = Some t \<and> resubmittable now timeout t \<and>
        nodes (resubmit_from now timeout i q) k = Some (unprocessed_fun now t))"
proof (induction now timeout i q rule: resubmit_from.induct)
  case (1 now timeout i q)
  let ?k = "time_index q ! i"
  consider "length (time_index q) \<le> i"
    | "i < length (time_index q)" "nodes q ?k = None \<or> (\<exists>t. nodes q ?k = Some t \<and> \<not> resubmittable now timeout t)"
    | t where "i < length (time_index q)" "nodes q ?k = Some t" "resubmittable now timeout t"
    by (cases "nodes q ?k") (use not_le in blast)+
  then show ?case
  proof cases
    case 1
    then show ?thesis by (subst (1 2) resubmit_from.simps) simp
  next
    case 2
    then have "resubmit_from now timeout i q = resubmit_from now timeout (Suc i) q"
      by (subst resubmit_from.simps) (auto simp: Let_def)
    then show ?thesis using "1.IH"(1,3) 2 by (cases "nodes q ?k") auto
  next
    case 3
    let ?q = "mi_modify ?k (unprocessed_fun now) q"
    let ?r = "resubmit_from now timeout (Suc (index_of ?k (time_index ?q))) ?q"
    have eq: "resubmit_from now timeout i q = ?r"
      using 3 by (subst resubmit_from.simps) (simp add: Let_def)
    have ih: "nodes ?r k = nodes ?q k \<or> (\<exists>t. nodes ?q k = Some t \<and> resubmittable now timeout t \<and>
        nodes ?r k = Some (unprocessed_fun now t))"
      using "1.IH"(2) [OF _ _ 3(2,3)] 3(1) by simp
    then show ?thesis
      unfolding eq using 3 by (cases "k = ?k") (auto simp: nodes_mi_modify resubmittable_def)
  qed
qed

lemma resubmit_task:
  "nodes (resubmit_older_than now timeout q) k = nodes q k \<or>
   (\<exists>t. nodes q k = Some t \<and> resubmittable now timeout t \<and>
        nodes (resubmit_older_than now timeout q) k = Some (unprocessed_fun now t))"
  unfolding resubmit_older_than_def by (rule resubmit_from_task)

text \<open>The tasks the loop of \<^const>\<open>resubmit_older_than\<close> acts on.\<close>

definition zombie :: "int \<Rightarrow> int \<Rightarrow> task_queue \<Rightarrow> task_key \<Rightarrow> bool" where
  "zombie now timeout q k \<longleftrightarrow> (\<exists>t. nodes q k = Some t \<and> resubmittable now timeout t)"

lemma resubmit_step_skip:
  "i < length (time_index q) \<Longrightarrow> \<not> zombie now timeout q (time_index q ! i) \<Longrightarrow>
     resubmit_from now timeout i q = resubmit_from now timeout (Suc i) q"
  by (subst resubmit_from.simps) (auto simp: zombie_def Let_def split: option.splits)

lemma resubmit_step_zombie:
  "i < length (time_index q) \<Longrightarrow> time_index q ! i = k \<Longrightarrow> zombie now timeout q k \<Longrightarrow>
     resubmit_from now timeout i q =
       resubmit_from now timeout (Suc (index_of k (time_index (mi_modify k (unprocessed_fun now) q))))
         (mi_modify k (unprocessed_fun now) q)"
  by (subst resubmit_from.simps) (auto simp: zombie_def Let_def split: option.splits)

lemma resubmit_rest_clean:
  assumes "\<And>p. i \<le> p \<Longrightarrow> p < length (time_index q) \<Longrightarrow> \<not> zombie now timeout q (time_index q ! p)"
  shows "resubmit_from now timeout i q = q"
  using assms
proof (induction "length (time_index q) - i" arbitrary: i)
  case 0
  then show ?case by (subst resubmit_from.simps) simp
next
  case (Suc n)
  then have "resubmit_from now timeout (Suc i) q = q" by (intro Suc.hyps(1)) auto
  then show ?case using Suc.prems [of i] Suc.hyps(2) by (simp add: resubmit_step_skip)
qed

lemma resubmit_reach_zombie:
  assumes "time_index q = us @ k # vs" "\<forall>u \<in> set us. \<not> zombie now timeout q u" "i \<le> length us"
  shows "resubmit_from now timeout i q = resubmit_from now timeout (length us) q"
  using assms(3)
proof (induction "length us - i" arbitrary: i)
  case (Suc n)
  then have i: "i < length us" by simp
  have "time_index q ! i = us ! i" using assms(1) i by (simp add: nth_append)
  then have "\<not> zombie now timeout q (time_index q ! i)" using assms(2) i by simp
  then have "resubmit_from now timeout i q = resubmit_from now timeout (Suc i) q"
    using assms(1) i by (intro resubmit_step_skip) auto
  then show ?case using Suc i by simp
qed simp

text \<open>
  With a clock that does not lie before any timestamp, the resubmitted task becomes the last one in
  timestamp order, up to tasks stamped in the same second: nothing behind it is a zombie.
\<close>

definition clock_ok :: "int \<Rightarrow> task_queue \<Rightarrow> bool" where
  "clock_ok now q \<longleftrightarrow> int32 now \<and> (\<forall>k t. nodes q k = Some t \<longrightarrow> int32 (timestamp t) \<and> timestamp t \<le> now)"

lemma no_zombie_behind:
  assumes wf: "wf_index q" and clock: "clock_ok now q" and pos: "0 < timeout" and z: "zombie now timeout q k"
    and q': "q' = mi_modify k (unprocessed_fun now) q"
    and p: "Suc (index_of k (time_index q')) \<le> p" "p < length (time_index q')"
  shows "\<not> zombie now timeout q' (time_index q' ! p)"
proof
  assume zp: "zombie now timeout q' (time_index q' ! p)"
  let ?j = "time_index q' ! p"
  have wf': "wf_index q'" unfolding q' by (rule mi_modify_index [OF wf]) simp
  obtain t where t: "nodes q k = Some t" using z by (auto simp: zombie_def)
  then have kq: "nodes q' k = Some (unprocessed_fun now t)" by (simp add: q' nodes_mi_modify)
  then have "k \<in> set (time_index q')" using wf' by (auto simp: wf_index_def)
  then have "time_index q' ! index_of k (time_index q') = k" "index_of k (time_index q') < length (time_index q')" by auto
  then have "\<not> time_lt (nodes q') ?j k"
    using wf' p unfolding wf_index_def sorted_wrt_iff_nth_less by (metis Suc_le_lessD)
  then have le: "now \<le> time_of (nodes q') ?j"
    using kq clock by (simp add: time_lt_def time_of_def clock_ok_def)
  obtain u where u: "nodes q' ?j = Some u" "resubmittable now timeout u" using zp by (auto simp: zombie_def)
  then have "?j \<noteq> k" using kq by (auto simp: resubmittable_def)
  then have "nodes q ?j = Some u" using u(1) by (simp add: q' nodes_mi_modify)
  then have "int32 (timestamp u)" "timestamp u \<le> now" using clock by (auto simp: clock_ok_def)
  then show False using u le pos by (simp add: time_of_def resubmittable_def)
qed

lemma resubmit_one:
  assumes wf: "wf_index q" and clock: "clock_ok now q" and pos: "0 < timeout"
  shows "resubmit_older_than now timeout q =
    (case find (zombie now timeout q) (time_index q) of
       None \<Rightarrow> q | Some k \<Rightarrow> mi_modify k (unprocessed_fun now) q)"
proof (cases "find (zombie now timeout q) (time_index q)")
  case None
  then have "resubmit_from now timeout 0 q = q"
    by (intro resubmit_rest_clean) (auto simp: find_None_iff)
  then show ?thesis using None by (simp add: resubmit_older_than_def)
next
  case (Some k)
  then obtain us vs where s: "time_index q = us @ k # vs" "\<forall>u \<in> set us. \<not> zombie now timeout q u" "zombie now timeout q k"
    by (rule find_Some_split)
  let ?q = "mi_modify k (unprocessed_fun now) q"
  have "resubmit_from now timeout 0 q = resubmit_from now timeout (length us) q"
    by (rule resubmit_reach_zombie [OF s(1,2)]) simp
  also have "\<dots> = resubmit_from now timeout (Suc (index_of k (time_index ?q))) ?q"
    by (rule resubmit_step_zombie) (use s in auto)
  also have "\<dots> = ?q"
    by (rule resubmit_rest_clean) (rule no_zombie_behind [OF wf clock pos s(3) refl])
  finally show ?thesis using Some by (simp add: resubmit_older_than_def)
qed

subsection \<open>The interface the broker relies on\<close>

text \<open>Who waits for the metatile with a given key, in the order of their requests.\<close>

definition waiting :: "(task_key \<Rightarrow> task option) \<Rightarrow> task_key \<Rightarrow> (tile_protocol \<times> string) list" where
  "waiting m k = (case m k of Some t \<Rightarrow> subscribers t | None \<Rightarrow> [])"

locale render_queue =
  fixes tasks_of :: "'q \<Rightarrow> task_key \<Rightarrow> task option"
    and invar :: "'q \<Rightarrow> bool"
    and q_empty :: "'q"
    and q_push :: "int \<Rightarrow> tile_protocol \<Rightarrow> string \<Rightarrow> int \<Rightarrow> 'q \<Rightarrow> 'q"
    and q_erase :: "tile_protocol \<Rightarrow> 'q \<Rightarrow> 'q"
    and q_mark :: "tile_protocol \<Rightarrow> 'q \<Rightarrow> 'q"
    and q_resubmit :: "int \<Rightarrow> int \<Rightarrow> 'q \<Rightarrow> 'q"
    and q_front :: "'q \<Rightarrow> task option"
  assumes empty_tasks: "tasks_of q_empty k = None"
    and push_tasks: "tasks_of (q_push now t a p q) = (tasks_of q)(task_key (meta_of t) \<mapsto>
      add_subscriber t a p (case tasks_of q (task_key (meta_of t)) of Some u \<Rightarrow> u | None \<Rightarrow> mk_task now (meta_of t) p))"
    and erase_tasks: "tasks_of (q_erase t q) = (tasks_of q)(task_key t := None)"
    and mark_tasks: "tasks_of (q_mark t q) =
      (tasks_of q)(task_key t := map_option processed_fun (tasks_of q (task_key t)))"
    and resubmit_tasks: "tasks_of (q_resubmit now timeout q) k = tasks_of q k \<or>
      (\<exists>t. tasks_of q k = Some t \<and> resubmittable now timeout t \<and>
           tasks_of (q_resubmit now timeout q) k = Some (unprocessed_fun now t))"
    and front_task: "invar q \<Longrightarrow> q_front q = Some v \<Longrightarrow> tasks_of q (task_key v) = Some v \<and> \<not> processed v"
    and front_best: "invar q \<Longrightarrow> q_front q = Some v \<Longrightarrow> tasks_of q k = Some u \<Longrightarrow> \<not> processed u \<Longrightarrow>
      priority u \<le> priority v"
    and front_none: "invar q \<Longrightarrow> q_front q = None \<Longrightarrow> tasks_of q k = Some u \<Longrightarrow> processed u"
    and invar_empty: "invar q_empty"
    and invar_push: "invar q \<Longrightarrow> invar (q_push now t a p q)"
    and invar_erase: "invar q \<Longrightarrow> invar (q_erase t q)"
    and invar_mark: "invar q \<Longrightarrow> invar (q_mark t q)"
    and invar_resubmit: "invar q \<Longrightarrow> invar (q_resubmit now timeout q)"
begin

lemma waiting_push:
  "waiting (tasks_of (q_push now t a p q)) k =
     waiting (tasks_of q) k @ (if k = task_key (meta_of t) then [(t, a)] else [])"
  by (simp add: waiting_def push_tasks split: option.splits)

lemma waiting_erase: "waiting (tasks_of (q_erase t q)) k = (if k = task_key t then [] else waiting (tasks_of q) k)"
  by (simp add: waiting_def erase_tasks)

lemma waiting_mark: "waiting (tasks_of (q_mark t q)) k = waiting (tasks_of q) k"
  by (auto simp: waiting_def mark_tasks split: option.splits)

lemma waiting_resubmit: "waiting (tasks_of (q_resubmit now timeout q)) k = waiting (tasks_of q) k"
  using resubmit_tasks [of now timeout q k] by (auto simp: waiting_def)

lemma waiting_empty: "waiting (tasks_of q_empty) k = []"
  by (simp add: waiting_def empty_tasks)

text \<open>A task handed out and marked is no longer offered before it is resubmitted or erased.\<close>

lemma marked_not_front:
  assumes "invar q" "q_front q = Some t" "task_key u = task_key t"
  shows "q_front (q_mark u q) \<noteq> Some v \<or> task_key v \<noteq> task_key t"
  using front_task [OF invar_mark [OF assms(1), of u], of v] front_task [OF assms(1,2)] assms(3)
  by (auto simp: mark_tasks)

text \<open>After a push some task of at least the pushed priority is on offer, unless its own task is out.\<close>

lemma front_after_push:
  assumes "invar q" "\<And>u. tasks_of q (task_key (meta_of t)) = Some u \<Longrightarrow> \<not> processed u"
  shows "\<exists>v. q_front (q_push now t a p q) = Some v \<and> p \<le> priority v"
proof -
  let ?q = "q_push now t a p q" and ?k = "task_key (meta_of t)"
  have inv: "invar ?q" by (rule invar_push [OF assms(1)])
  obtain u where u: "tasks_of ?q ?k = Some u" "\<not> processed u" "p \<le> priority u"
    using assms(2) by (auto simp: push_tasks split: option.splits)
  then obtain v where "q_front ?q = Some v" using front_none [OF inv] by (cases "q_front ?q") auto
  then show ?thesis using front_best [OF inv _ u(1,2)] u(3) by force
qed

end

interpretation tq: render_queue nodes wf_queue empty_queue "\<lambda>now t a p q. snd (push now t a p q)"
  "\<lambda>t q. snd (erase t q)" set_processed resubmit_older_than front
proof (unfold_locales, goal_cases)
  case 1
  show ?case by (simp add: empty_queue_def)
next
  case 2
  show ?case by (rule nodes_push)
next
  case 3
  show ?case by (rule nodes_erase)
next
  case 4
  show ?case by (rule nodes_set_processed)
next
  case (5 now timeout q k)
  show ?case by (rule resubmit_task)
next
  case (6 q v)
  then show ?case using front_Some [of q v] by (simp add: wf_queue_def)
next
  case (7 q v k u)
  then show ?case using front_Some(3) [of q v k u] by (simp add: wf_queue_def)
next
  case (8 q k u)
  then show ?case using front_None [of q] by (simp add: wf_queue_def)
qed (simp_all add: wf_push wf_erase wf_set_processed wf_resubmit)

subsection \<open>Properties\<close>

definition ex_tile :: "int \<Rightarrow> int \<Rightarrow> protoFmt \<Rightarrow> tile_protocol" where
  "ex_tile x y f = default_tile\<lparr>status := cmdRender, tp_x := x, tp_y := y, tp_z := 10, style := ''osm'', format := f\<rparr>"

definition ex_queue :: task_queue where
  "ex_queue = set_processed (meta_of (ex_tile 16 24 fmtPNG)) (snd (push 50 (ex_tile 17 25 fmtJPEG) ''h2'' 100
     (snd (push 40 (ex_tile 1 2 fmtPNG) ''h1'' 0 empty_queue))))"

lemma wf_ex_queue: "wf_queue ex_queue"
  unfolding ex_queue_def by (intro wf_set_processed wf_push wf_queue_empty)

text \<open>
  C10. Every operation of the task queue keeps its invariant: the priority order and the timestamp order
  stay sorted permutations of the same tasks, keys stay unique, and every task keeps the render
  command, at least one subscriber, only subscribers of its own metatile, and a format mask that
  contains every format asked for.
\<close>

theorem task_queue_invariant:
  assumes "wf_queue q"
  shows "wf_queue (snd (push now tile addr prio q)) \<and> wf_queue (snd (erase tile' q)) \<and> wf_queue (pop q) \<and>
    wf_queue (set_processed tile' q) \<and> wf_queue (resubmit_older_than now timeout q) \<and> wf_queue (clear q)"
  using assms by (simp add: wf_push wf_erase wf_pop wf_set_processed wf_resubmit clear_def)

theorem task_queue_invariant_witness:
  "wf_queue (resubmit_older_than 400 300 ex_queue) \<and> wf_queue (pop ex_queue)"
  using task_queue_invariant [OF wf_ex_queue, of 400 "ex_tile 0 0 fmtPNG" "[]" 0 "ex_tile 0 0 fmtPNG" 300] by simp

text \<open>
  C14. \<^const>\<open>front\<close> hands out an unprocessed task of the queue that no other unprocessed task beats in priority,
  and it hands out nothing only when every task is being processed.
\<close>

theorem front_is_best:
  assumes "wf_queue q"
  shows "case front q of
      Some t \<Rightarrow> get t q = Some t \<and> \<not> processed t \<and>
        (\<forall>k u. nodes q k = Some u \<and> \<not> processed u \<longrightarrow> priority u \<le> priority t)
    | None \<Rightarrow> count_unprocessed q = 0 \<and> (\<forall>k u. nodes q k = Some u \<longrightarrow> processed u)"
proof (cases "front q")
  case None
  then have all: "\<forall>k u. nodes q k = Some u \<longrightarrow> processed u" using tq.front_none [OF assms] by blast
  then have "{k. \<exists>t. nodes q k = Some t \<and> \<not> processed t} = {}" by auto
  then have "count_unprocessed q = 0"
    using assms count_unprocessed_card [of q] by (simp only: wf_queue_def card.empty)
  then show ?thesis using None all by simp
next
  case (Some t)
  then show ?thesis using tq.front_task [OF assms Some] tq.front_best [OF assms Some] by (auto simp: get_def)
qed

theorem front_is_best_witness:
  "case front ex_queue of
      Some t \<Rightarrow> get t ex_queue = Some t \<and> \<not> processed t \<and>
        (\<forall>k u. nodes ex_queue k = Some u \<and> \<not> processed u \<longrightarrow> priority u \<le> priority t)
    | None \<Rightarrow> count_unprocessed ex_queue = 0 \<and> (\<forall>k u. nodes ex_queue k = Some u \<longrightarrow> processed u)"
  by (rule front_is_best [OF wf_ex_queue])

text \<open>
  C15. Pushing a request merges it with the task of its metatile: after the push that task has the new
  subscriber last, the union of the formats and the larger of the two priorities, its place in the
  processing is unchanged, no other task is touched, and the result says whether the task is new.
\<close>

theorem push_merges:
  "(fst (push now tile addr prio q) \<longleftrightarrow> nodes q (task_key (meta_of tile)) = None) \<and>
   (\<forall>j. j \<noteq> task_key (meta_of tile) \<longrightarrow> nodes (snd (push now tile addr prio q)) j = nodes q j) \<and>
   (\<exists>t. nodes (snd (push now tile addr prio q)) (task_key (meta_of tile)) = Some t \<and>
      subscribers t = waiting (nodes q) (task_key (meta_of tile)) @ [(tile, addr)] \<and>
      (case nodes q (task_key (meta_of tile)) of
         Some u \<Rightarrow> format t = format u OR format tile \<and> priority t = max (priority u) prio \<and>
           processed t = processed u \<and> timestamp t = timestamp u
       | None \<Rightarrow> format t = format tile \<and> priority t = prio \<and> \<not> processed t \<and> timestamp t = now))"
  by (auto simp: fst_push nodes_push waiting_def split: option.splits)

theorem push_merges_witness:
  "nodes (snd (push 60 (ex_tile 18 27 fmtGIF) ''h3'' 150 ex_queue)) (task_key (ex_tile 0 0 fmtPNG)) =
     nodes ex_queue (task_key (ex_tile 0 0 fmtPNG))"
proof -
  have "task_key (ex_tile 0 0 fmtPNG) \<noteq> task_key (meta_of (ex_tile 18 27 fmtGIF))"
    by (simp add: task_key_def ex_tile_def meta_of_def METATILE_def)
  then show ?thesis using push_merges [of 60 "ex_tile 18 27 fmtGIF" "''h3''" 150 ex_queue] by simp
qed

text \<open>
  One call of \<^const>\<open>resubmit_older_than\<close> revives at most one task. With a clock not before any timestamp
  and a positive timeout, it makes the oldest timed-out task available again and leaves every other
  task as it was, although the comment promises to reset all of them: giving the first one a new
  timestamp moves it to the end of the very index the loop walks.
\<close>

theorem resubmit_revives_one:
  assumes "wf_queue q" "clock_ok now q" "0 < timeout"
  shows "resubmit_older_than now timeout q =
      (case find (zombie now timeout q) (time_index q) of
         None \<Rightarrow> q | Some k \<Rightarrow> mi_modify k (unprocessed_fun now) q) \<and>
    (\<forall>j. zombie now timeout q j \<and> find (zombie now timeout q) (time_index q) \<noteq> Some j \<longrightarrow>
      zombie now timeout (resubmit_older_than now timeout q) j)"
proof -
  have wf: "wf_index q" using assms(1) by (simp add: wf_queue_def)
  note eq = resubmit_one [OF wf assms(2,3)]
  show ?thesis unfolding eq by (auto simp: zombie_def nodes_mi_modify split: option.splits)
qed

definition ex_zombies :: task_queue where
  "ex_zombies = set_processed (meta_of (ex_tile 1 2 fmtPNG)) ex_queue"

lemma nodes_ex_zombies:
  "nodes ex_zombies (task_key (ex_tile 0 0 fmtPNG)) =
     Some (processed_fun (add_subscriber (ex_tile 1 2 fmtPNG) ''h1'' 0 (mk_task 40 (meta_of (ex_tile 1 2 fmtPNG)) 0)))"
  "nodes ex_zombies (task_key (ex_tile 16 24 fmtPNG)) =
     Some (processed_fun (add_subscriber (ex_tile 17 25 fmtJPEG) ''h2'' 100 (mk_task 50 (meta_of (ex_tile 17 25 fmtJPEG)) 100)))"
  by (simp_all add: ex_zombies_def ex_queue_def nodes_set_processed nodes_push empty_queue_def
      task_key_def ex_tile_def meta_of_def METATILE_def)

lemma ex_zombies_order: "time_index ex_zombies = [task_key (ex_tile 0 0 fmtPNG), task_key (ex_tile 16 24 fmtPNG)]"
  by code_simp

text \<open>Two tasks are out since times 40 and 50; at time 400 the younger one stays a zombie.\<close>

theorem resubmit_revives_one_witness:
  "zombie 400 300 (resubmit_older_than 400 300 ex_zombies) (task_key (ex_tile 16 24 fmtPNG))"
proof -
  let ?k = "task_key (ex_tile 16 24 fmtPNG)"
  have "wf_queue ex_zombies" unfolding ex_zombies_def by (intro wf_set_processed wf_ex_queue)
  moreover have "clock_ok 400 ex_zombies"
    unfolding clock_ok_def ex_zombies_def ex_queue_def
    by (auto simp: int32_def nodes_set_processed nodes_push empty_queue_def split: if_splits option.splits)
  moreover have z: "zombie 400 300 ex_zombies ?k" "zombie 400 300 ex_zombies (task_key (ex_tile 0 0 fmtPNG))"
    by (simp_all add: zombie_def nodes_ex_zombies resubmittable_def)
  moreover have "find (zombie 400 300 ex_zombies) (time_index ex_zombies) \<noteq> Some ?k"
    using z(2) by (simp add: ex_zombies_order task_key_def ex_tile_def)
  ultimately show ?thesis using resubmit_revives_one [of ex_zombies 400 300] by (metis zero_less_numeral)
qed

end
