(* ===== verification/Decimal.thy ===== *)
theory Decimal
  imports Prelude
begin

text \<open>
  Decimal numbers in paths, messages and HTTP headers: how the streams and formats of the C++ library print an
  integer, and how the number parsers of Boost.Spirit (\<^verbatim>\<open>int_\<close> and \<^verbatim>\<open>uint_parser\<close>) read one.
\<close>

subsection \<open>Printing\<close>

fun dec_nat :: "nat \<Rightarrow> string" where
  "dec_nat n = (if n < 10 then [char_of (48 + n)] else dec_nat (n div 10) @ [char_of (48 + n mod 10)])"

declare dec_nat.simps [simp del]

definition dec_int :: "int \<Rightarrow> string" where
  "dec_int n = (if n < 0 then CHR ''-'' # dec_nat (nat (- n)) else dec_nat (nat n))"

subsection \<open>Reading them back\<close>

definition undec :: "string \<Rightarrow> nat" where
  "undec s = foldl (\<lambda>a c. 10 * a + (of_char c - 48)) 0 s"

lemma of_char_digit: "d < 10 \<Longrightarrow> (of_char (char_of (48 + d) :: char) :: nat) = 48 + d"
  by (simp add: take_bit_eq_mod)

lemma undec_dec_nat: "undec (dec_nat n) = n"
proof (induction n rule: dec_nat.induct)
  case (1 n)
  have snoc: "undec (s @ [char_of (48 + d)]) = 10 * undec s + d" if "d < 10" for s and d :: nat
    using of_char_digit [OF that] by (simp add: undec_def)
  show ?case
  proof (cases "n < 10")
    case True
    then show ?thesis using snoc [of n "[]"] by (subst dec_nat.simps) (simp add: undec_def)
  next
    case False
    then show ?thesis using 1 snoc [of "n mod 10"] by (subst dec_nat.simps) simp
  qed
qed

lemma digits_dec_nat: "c \<in> set (dec_nat n) \<Longrightarrow> \<exists>d < 10. c = char_of (48 + d :: nat)"
proof (induction n rule: dec_nat.induct)
  case (1 n)
  have "c \<in> set (dec_nat (n div 10)) \<and> \<not> n < 10 \<or> c = char_of (48 + n mod 10)"
    using 1(2) by (subst (asm) dec_nat.simps) (auto split: if_splits)
  then show ?case using 1(1) by (metis mod_less_divisor zero_less_numeral)
qed

lemma digit_not_special: "d < 10 \<Longrightarrow> char_of (48 + d :: nat) \<noteq> CHR ''/'' \<and> char_of (48 + d :: nat) \<noteq> CHR ''-'' \<and> char_of (48 + d :: nat) \<noteq> CHR ''.''"
  using of_char_digit [of d] by (auto dest!: arg_cong [where f = "of_char :: char \<Rightarrow> nat"])

lemma dec_int_plain: "CHR ''/'' \<notin> set (dec_int n)"
proof -
  have "CHR ''/'' \<notin> set (dec_nat m)" for m using digits_dec_nat [of "CHR ''/''" m] digit_not_special by metis
  then show ?thesis by (simp add: dec_int_def)
qed

lemma dec_nat_not_minus: "dec_nat n \<noteq> CHR ''-'' # s"
  using digits_dec_nat [of "CHR ''-''" n] digit_not_special by (metis list.set_intros(1))

lemma dec_nat_inj: "dec_nat m = dec_nat n \<longleftrightarrow> m = n"
  by (metis undec_dec_nat)

lemma dec_int_inj: "dec_int m = dec_int n \<longleftrightarrow> m = n"
  using dec_nat_not_minus [of "nat m"] dec_nat_not_minus [of "nat n"]
  by (cases "m < 0"; cases "n < 0") (auto simp: dec_int_def dec_nat_inj eq_nat_nat_iff dest: sym)

subsection \<open>Number parsers\<close>

definition is_digit :: "char \<Rightarrow> bool" where
  "is_digit c \<longleftrightarrow> 48 \<le> (of_char c :: nat) \<and> (of_char c :: nat) \<le> 57"

text \<open>\<^verbatim>\<open>int_\<close>: an optional sign and as many digits as there are; it fails when the value is not an \<^verbatim>\<open>int\<close>.\<close>

definition qi_int :: "string \<Rightarrow> (int \<times> string) option" where
  "qi_int s =
     (let (neg, u) = (case s of c # r \<Rightarrow> if c = CHR ''-'' then (True, r) else if c = CHR ''+'' then (False, r) else (False, s)
                      | [] \<Rightarrow> (False, s));
          ds = takeWhile is_digit u;
          v = (if neg then - int (undec ds) else int (undec ds))
      in if ds = [] \<or> \<not> int32 v then None else Some (v, dropWhile is_digit u))"

text \<open>\<^verbatim>\<open>lexical_cast<int>\<close> : the whole text is a number.\<close>

definition lexical_cast_int :: "string \<Rightarrow> cpp_error + int" where
  "lexical_cast_int s = (case qi_int s of Some (n, []) \<Rightarrow> Inr n | _ \<Rightarrow> Inl Bad_Lexical_Cast)"

text \<open>\<^verbatim>\<open>uint_parser<unsigned, 10, lo, hi>\<close>: at least \<open>lo\<close> and at most \<open>hi\<close> digits.\<close>

definition qi_uint :: "nat \<Rightarrow> nat \<Rightarrow> string \<Rightarrow> (int \<times> string) option" where
  "qi_uint lo hi s =
     (let ds = take hi (takeWhile is_digit s)
      in if length ds < lo then None else Some (int (undec ds), drop (length ds) s))"

lemma is_digit_dec_nat: "\<forall>c \<in> set (dec_nat n). is_digit c"
proof
  fix c assume "c \<in> set (dec_nat n)"
  then obtain d where "d < 10" "c = char_of (48 + d :: nat)" using digits_dec_nat by blast
  then show "is_digit c" using of_char_digit [of d] by (simp add: is_digit_def)
qed

lemma dec_int_chars: "c \<in> set (dec_int n) \<Longrightarrow> is_digit c \<or> c = CHR ''-''"
  by (auto simp: dec_int_def dest: is_digit_dec_nat [THEN bspec] split: if_splits)

lemma dec_nat_Nil [simp]: "dec_nat n \<noteq> []"
  by (subst dec_nat.simps) simp

definition no_digit :: "string \<Rightarrow> bool" where
  "no_digit s \<longleftrightarrow> (case s of [] \<Rightarrow> True | c # _ \<Rightarrow> \<not> is_digit c)"

lemma no_digit_simps [simp]: "no_digit []" "no_digit (c # s) \<longleftrightarrow> \<not> is_digit c"
  by (simp_all add: no_digit_def)

lemma take_dec_nat:
  "no_digit s \<Longrightarrow> takeWhile is_digit (dec_nat n @ s) = dec_nat n \<and> dropWhile is_digit (dec_nat n @ s) = s"
  using is_digit_dec_nat [of n] by (cases s) auto

lemma qi_int_dec:
  assumes "int32 n" "no_digit s"
  shows "qi_int (dec_int n @ s) = Some (n, s)"
proof (cases "n < 0")
  case True
  then show ?thesis using assms take_dec_nat [of s "nat (- n)"] by (simp add: qi_int_def dec_int_def undec_dec_nat)
next
  case False
  obtain c r where c: "dec_nat (nat n) = c # r" by (cases "dec_nat (nat n)") auto
  then have "is_digit c" using is_digit_dec_nat [of "nat n"] by simp
  then have "c \<noteq> CHR ''-''" "c \<noteq> CHR ''+''" by (auto simp: is_digit_def)
  moreover have "undec (c # r) = nat n" using undec_dec_nat [of "nat n"] c by simp
  ultimately show ?thesis
    using False assms take_dec_nat [of s "nat n"] c by (auto simp: qi_int_def dec_int_def Let_def)
qed

end
