(* ===== verification/Meta_Tile.thy ===== *)
theory Meta_Tile
  imports Tile_Types Decimal
begin

text \<open>
  Metatiles (\<^verbatim>\<open>storage/meta_tile.hpp\<close>, \<^verbatim>\<open>storage/meta_tile.cpp\<close>): the arithmetic between tiles and
  metatiles, the path of a metatile file, the binary layout of the header, the writer
  \<^verbatim>\<open>write_headers\<close> and the readers \<^verbatim>\<open>read_headers\<close>, \<^verbatim>\<open>metatile_reader\<close> and \<^verbatim>\<open>read_from_meta\<close>, and
  \<^verbatim>\<open>metaTile\<close> with its \<^verbatim>\<open>save\<close>. A \<^verbatim>\<open>meta_layout\<close> is read and written through its memory image: 4-byte
  little-endian signed integers without padding, \<open>536\<close> bytes in all.
\<close>

subsection \<open>Tiles and metatiles\<close>

definition xyz_to_meta_offset :: "int \<Rightarrow> int \<Rightarrow> int \<Rightarrow> int" where
  "xyz_to_meta_offset x y z = (y AND (METATILE - 1)) * METATILE + (x AND (METATILE - 1))"

definition xy_to_meta_xy :: "int \<Rightarrow> int \<Rightarrow> int \<times> int" where
  "xy_to_meta_xy x y = (x AND NOT (METATILE - 1), y AND NOT (METATILE - 1))"

text \<open>The loop of \<^verbatim>\<open>xyz_to_meta\<close> that fills \<^verbatim>\<open>hash[0] .. hash[4]\<close>, four bits of each coordinate at a time.\<close>

fun meta_hash :: "nat \<Rightarrow> int \<Rightarrow> int \<Rightarrow> int list" where
  "meta_hash 0 x y = []"
| "meta_hash (Suc n) x y =
     (push_bit 4 (x AND 15) OR (y AND 15)) # meta_hash n (drop_bit 4 x) (drop_bit 4 y)"

definition meta_path :: "string \<Rightarrow> string \<Rightarrow> int \<Rightarrow> int list \<Rightarrow> string" where
  "meta_path tile_dir sty z hash =
     tile_dir @ ''/'' @ sty @ ''/'' @ dec_int z @ ''/'' @ dec_int (hash ! 4) @ ''/'' @
     dec_int (hash ! 3) @ ''/'' @ dec_int (hash ! 2) @ ''/'' @ dec_int (hash ! 1) @ ''/'' @
     dec_int (hash ! 0) @ ''.meta''"

definition xyz_to_meta :: "string \<Rightarrow> int \<Rightarrow> int \<Rightarrow> int \<Rightarrow> string \<Rightarrow> string \<times> int" where
  "xyz_to_meta tile_dir x y z sty =
     (let offset = (y AND (METATILE - 1)) * METATILE + (x AND (METATILE - 1));
          hash = meta_hash 5 (x AND NOT (METATILE - 1)) (y AND NOT (METATILE - 1))
      in (meta_path tile_dir sty z hash, offset))"

text \<open>Shifting by a negative count or into the sign bit is undefined.\<close>

definition get_meta_dimensions :: "int \<Rightarrow> int \<Rightarrow> cpp_error + int" where
  "get_meta_dimensions zoom limit =
     (if zoom < 0 \<or> 31 \<le> zoom then Inl Undefined_Behaviour
      else Inr (min (push_bit (nat zoom) 1) limit))"

definition get_tile_count_in_meta :: "int \<Rightarrow> int \<Rightarrow> cpp_error + int" where
  "get_tile_count_in_meta zoom limit =
     (case get_meta_dimensions zoom limit of Inl e \<Rightarrow> Inl e | Inr dim \<Rightarrow> Inr (dim * dim))"

subsection \<open>The header and its memory image\<close>

record meta_layout =
  magic :: string
  meta_count :: int
  ml_x :: int
  ml_y :: int
  ml_z :: int
  ml_fmt :: int
  ml_index :: "(int \<times> int) list"

definition magic_ok :: "meta_layout \<Rightarrow> bool" where
  "magic_ok h \<longleftrightarrow> magic h = ''META''"

definition header_size :: nat where
  "header_size = 536"

definition int_bytes :: "int \<Rightarrow> string" where
  "int_bytes n = [char_of n, char_of (n div 256), char_of (n div 65536), char_of (n div 16777216)]"

fun bytes_int :: "string \<Rightarrow> int" where
  "bytes_int [a, b, c, d] =
     trunc32 (of_char a + 256 * of_char b + 65536 * of_char c + 16777216 * of_char d)"
| "bytes_int _ = 0"

definition int_at :: "string \<Rightarrow> nat \<Rightarrow> int" where
  "int_at bs k = bytes_int (take 4 (drop k bs))"

definition entry_bytes :: "(int \<times> int) \<Rightarrow> string" where
  "entry_bytes e = int_bytes (fst e) @ int_bytes (snd e)"

definition encode_layout :: "meta_layout \<Rightarrow> string" where
  "encode_layout h = magic h @ int_bytes (meta_count h) @ int_bytes (ml_x h) @ int_bytes (ml_y h) @
     int_bytes (ml_z h) @ int_bytes (ml_fmt h) @ concat (map entry_bytes (ml_index h))"

definition decode_layout :: "string \<Rightarrow> meta_layout" where
  "decode_layout bs = \<lparr>magic = take 4 bs, meta_count = int_at bs 4, ml_x = int_at bs 8,
     ml_y = int_at bs 12, ml_z = int_at bs 16, ml_fmt = int_at bs 20,
     ml_index = map (\<lambda>i. (int_at bs (24 + 8 * i), int_at bs (28 + 8 * i))) [0..<64]\<rparr>"

definition wf_layout :: "meta_layout \<Rightarrow> bool" where
  "wf_layout h \<longleftrightarrow> length (magic h) = 4 \<and> length (ml_index h) = 64 \<and>
     int32 (meta_count h) \<and> int32 (ml_x h) \<and> int32 (ml_y h) \<and> int32 (ml_z h) \<and> int32 (ml_fmt h) \<and>
     (\<forall>e \<in> set (ml_index h). int32 (fst e) \<and> int32 (snd e))"

subsection \<open>Writing the headers\<close>

text \<open>The inner loop of \<^verbatim>\<open>write_headers\<close>: one entry per size, and the offset the next tile gets.\<close>

fun layout_entries :: "int \<Rightarrow> int list \<Rightarrow> (int \<times> int) list \<times> int" where
  "layout_entries offset [] = ([], offset)"
| "layout_entries offset (sz # sizes) =
     (let (es, last) = layout_entries (offset + sz) sizes in ((offset, sz) # es, last))"

fun write_header_loop :: "int \<Rightarrow> int \<Rightarrow> int \<Rightarrow> protoFmt list \<Rightarrow> int list \<Rightarrow> int \<Rightarrow> string" where
  "write_header_loop x y z [] sizes offset = []"
| "write_header_loop x y z (f # fs) sizes offset =
     (let (es, offset') = layout_entries offset (take 64 sizes);
          header = \<lparr>magic = ''META'', meta_count = METATILE * METATILE, ml_x = x, ml_y = y, ml_z = z,
                    ml_fmt = f, ml_index = es\<rparr>
      in encode_layout header @ write_header_loop x y z fs (drop 64 sizes) offset')"

definition write_headers ::
  "int \<Rightarrow> int \<Rightarrow> int \<Rightarrow> protoFmt list \<Rightarrow> int list \<Rightarrow> cpp_error + string" where
  "write_headers x y z formats sizes =
     (if length sizes \<noteq> length formats * 64
      then Inl (Runtime_Error (''Received '' @ dec_nat (length sizes) @
             '' tile sizes for metatile headers, '' @ dec_nat (length formats * 64) @ '' required''))
      else Inr (write_header_loop x y z formats sizes (int (length formats * header_size))))"

subsection \<open>Reading\<close>

text \<open>\<^verbatim>\<open>read_headers\<close>: consecutive header-sized blocks while they look like headers.\<close>

function read_headers_from :: "string \<Rightarrow> int \<Rightarrow> nat \<Rightarrow> meta_layout list" where
  "read_headers_from buf formatMask offset =
     (if length buf < offset + header_size then []
      else let header = decode_layout (drop offset buf) in
        if ml_fmt header AND formatMask \<noteq> 0 \<and> magic_ok header
        then header # read_headers_from buf formatMask (offset + header_size)
        else [])"
  by pat_completeness auto
termination
  by (relation "measure (\<lambda>(buf, m, offset). length buf - offset)") (auto simp: header_size_def)

declare read_headers_from.simps [simp del]

definition read_headers :: "string \<Rightarrow> int \<Rightarrow> meta_layout list" where
  "read_headers buf formatMask = read_headers_from buf formatMask 0"

text \<open>
  \<^verbatim>\<open>metatile_reader\<close>: the constructor searches the headers for the wanted format. \<open>None\<close> as header
  is the indeterminate content the member has before anything is copied into it.
\<close>

record metatile_reader =
  reader_header :: "meta_layout option"
  reader_data :: string
  initialized :: bool

function reader_search :: "string \<Rightarrow> int \<Rightarrow> nat \<Rightarrow> meta_layout option \<Rightarrow> meta_layout option \<times> bool" where
  "reader_search data fmt offset hdr =
     (if length data < (offset + 1) * header_size then (hdr, False)
      else let h = decode_layout (drop (offset * header_size) data) in
        if ml_fmt h = fmt then (Some h, magic_ok h)
        else if magic_ok h then reader_search data fmt (offset + 1) (Some h)
        else (Some h, False))"
  by pat_completeness auto
termination
  by (relation "measure (\<lambda>(data, fmt, offset, hdr). length data - offset)") (auto simp: header_size_def)

declare reader_search.simps [simp del]

definition mk_metatile_reader :: "string \<Rightarrow> int \<Rightarrow> metatile_reader" where
  "mk_metatile_reader data fmt =
     (let (hdr, init) = reader_search data fmt 0 None
      in \<lparr>reader_header = hdr, reader_data = data, initialized = init\<rparr>)"

text \<open>
  \<^verbatim>\<open>metatile_reader::get\<close> returns two pointers into the data, here their 64-bit distances from its
  start. The entry's signed fields become unsigned \<^verbatim>\<open>size_t\<close> values and their sum may wrap.
\<close>

definition reader_get :: "metatile_reader \<Rightarrow> int \<Rightarrow> int \<Rightarrow> 64 word \<times> 64 word" where
  "reader_get r x y =
     (let len = word_of_int (int (length (reader_data r))) :: 64 word in
      case (initialized r, reader_header r) of
        (True, Some h) \<Rightarrow>
          (let offset = nat ((y AND (METATILE - 1)) * METATILE + (x AND (METATILE - 1)));
               tile_offset = word_of_int (fst (ml_index h ! offset)) :: 64 word;
               tile_size = word_of_int (snd (ml_index h ! offset)) :: 64 word
           in if tile_offset + tile_size \<le> len then (tile_offset, tile_offset + tile_size)
              else (len, len))
      | _ \<Rightarrow> (len, len))"

text \<open>Copying a pointer range out of the data: reading outside of it is undefined.\<close>

definition read_range :: "string \<Rightarrow> 64 word \<times> 64 word \<Rightarrow> cpp_error + string" where
  "read_range data r =
     (if fst r \<le> snd r \<and> unat (snd r) \<le> length data
      then Inr (take (unat (snd r) - unat (fst r)) (drop (unat (fst r)) data))
      else Inl Undefined_Behaviour)"

definition reader_tile :: "string \<Rightarrow> int \<Rightarrow> int \<Rightarrow> int \<Rightarrow> cpp_error + string" where
  "reader_tile data fmt x y = read_range data (reader_get (mk_metatile_reader data fmt) x y)"

text \<open>
  \<^verbatim>\<open>read_from_meta\<close>: reading one tile of a metatile file with POSIX calls. A file is its bytes and the
  value \<^verbatim>\<open>read\<close> returns at a file position for a requested length (negative on error, possibly short).
\<close>

record meta_file =
  file_bytes :: string
  read_ret :: "nat \<Rightarrow> nat \<Rightarrow> int"

text \<open>The two read loops: \<open>None\<close> on error, otherwise the number of bytes obtained.\<close>

function read_loop :: "meta_file \<Rightarrow> nat \<Rightarrow> nat \<Rightarrow> nat \<Rightarrow> nat option" where
  "read_loop f base pos limit =
     (if pos < limit then
        (let got = read_ret f (base + pos) (limit - pos) in
         if got < 0 then None
         else if got > 0 then read_loop f base (pos + nat got) limit
         else Some pos)
      else Some pos)"
  by pat_completeness auto
termination
  by (relation "measure (\<lambda>(f, base, pos, limit). limit - pos)") auto

declare read_loop.simps [simp del]

function meta_search :: "string \<Rightarrow> nat \<Rightarrow> int \<Rightarrow> nat \<Rightarrow> int + meta_layout" where
  "meta_search header pos fmt n_header =
     (if pos < (n_header + 1) * header_size then Inl (- 3)
      else let m = decode_layout (drop (n_header * header_size) header) in
        if magic m \<noteq> ''META'' then Inl (- 4)
        else if ml_fmt m \<noteq> fmt then meta_search header pos fmt (n_header + 1)
        else Inr m)"
  by pat_completeness auto
termination
  by (relation "measure (\<lambda>(header, pos, fmt, n). pos - n)") (auto simp: header_size_def)

declare meta_search.simps [simp del]

text \<open>The result: the returned number, the bytes put into the caller's buffer, and whether the file
  descriptor is still open when the function has returned.\<close>

record read_result =
  ret :: int
  buf_bytes :: string
  fd_open :: bool

definition read_from_meta ::
  "(string \<Rightarrow> meta_file option) \<Rightarrow> string \<Rightarrow> int \<Rightarrow> int \<Rightarrow> int \<Rightarrow> string \<Rightarrow> nat \<Rightarrow> int \<Rightarrow> read_result" where
  "read_from_meta fs tile_dir x y z sty sz fmt =
     (let metatile = xyz_to_meta tile_dir x y z sty in
      case fs (fst metatile) of
        None \<Rightarrow> \<lparr>ret = - 1, buf_bytes = '''', fd_open = False\<rparr>
      | Some f \<Rightarrow>
        (case read_loop f 0 0 4096 of
           None \<Rightarrow> \<lparr>ret = - 2, buf_bytes = '''', fd_open = False\<rparr>
         | Some pos \<Rightarrow>
           (case meta_search (take pos (file_bytes f)) pos fmt 0 of
              Inl err \<Rightarrow> \<lparr>ret = err, buf_bytes = '''', fd_open = True\<rparr>
            | Inr m \<Rightarrow>
              if meta_count m \<noteq> METATILE * METATILE then \<lparr>ret = - 5, buf_bytes = '''', fd_open = True\<rparr>
              else
                (let file_offset = fst (ml_index m ! nat (snd metatile));
                     tile_size = unat (word_of_int (snd (ml_index m ! nat (snd metatile))) :: 64 word)
                 in if file_offset < 0 then \<lparr>ret = - 6, buf_bytes = '''', fd_open = True\<rparr>
                    else
                      (case read_loop f (nat file_offset) 0 (min tile_size sz) of
                         None \<Rightarrow> \<lparr>ret = - 7, buf_bytes = '''', fd_open = False\<rparr>
                       | Some n \<Rightarrow> \<lparr>ret = int n, buf_bytes = take n (drop (nat file_offset) (file_bytes f)),
                                   fd_open = False\<rparr>)))))"

subsection \<open>The metatile object\<close>

record metaTile =
  mt_x :: int
  mt_y :: int
  mt_z :: int
  mt_style :: string
  mt_tile :: "string list list"

definition metaTile_clear :: "metaTile \<Rightarrow> metaTile" where
  "metaTile_clear m = m\<lparr>mt_tile := replicate 8 (replicate 8 '''')\<rparr>"

definition mk_metaTile :: "int \<Rightarrow> int \<Rightarrow> int \<Rightarrow> string \<Rightarrow> metaTile" where
  "mk_metaTile x y z sty =
     metaTile_clear \<lparr>mt_x = x, mt_y = y, mt_z = z, mt_style = sty, mt_tile = []\<rparr>"

definition metaTile_set :: "metaTile \<Rightarrow> int \<Rightarrow> int \<Rightarrow> string \<Rightarrow> cpp_error + metaTile" where
  "metaTile_set m x y data =
     (if 0 \<le> x \<and> x < METATILE \<and> 0 \<le> y \<and> y < METATILE
      then Inr (m\<lparr>mt_tile := (mt_tile m)[nat x := (mt_tile m ! nat x)[nat y := data]]\<rparr>)
      else Inl Undefined_Behaviour)"

definition metaTile_get :: "metaTile \<Rightarrow> int \<Rightarrow> int \<Rightarrow> cpp_error + string" where
  "metaTile_get m x y =
     (if 0 \<le> x \<and> x < METATILE \<and> 0 \<le> y \<and> y < METATILE
      then Inr (mt_tile m ! nat x ! nat y)
      else Inl Undefined_Behaviour)"

text \<open>
  \<^verbatim>\<open>metaTile::save\<close>: the loop over \<open>ox\<close>, \<open>oy\<close> that fills the table of offsets, and the bytes written to
  the temporary file, which is then renamed to the metatile's path. The header is written with the
  zeroed index and format it got from \<^verbatim>\<open>memset\<close>; the table follows it.
\<close>

fun save_offsets :: "metaTile \<Rightarrow> (nat \<times> nat) list \<Rightarrow> int \<Rightarrow> (int \<times> int) list \<Rightarrow> (int \<times> int) list" where
  "save_offsets m [] offset offsets = offsets"
| "save_offsets m ((ox, oy) # cells) offset offsets =
     (let mt = nat (xyz_to_meta_offset (mt_x m + int ox) (mt_y m + int oy) (mt_z m));
          sz = int (length (mt_tile m ! ox ! oy))
      in save_offsets m cells (offset + sz) (offsets[mt := (offset, sz)]))"

definition save_header :: "metaTile \<Rightarrow> meta_layout" where
  "save_header m = \<lparr>magic = ''META'', meta_count = METATILE * METATILE, ml_x = mt_x m, ml_y = mt_y m,
     ml_z = mt_z m, ml_fmt = 0, ml_index = replicate 64 (0, 0)\<rparr>"

definition metaTile_save :: "metaTile \<Rightarrow> string \<Rightarrow> cpp_error + (string \<times> string)" where
  "metaTile_save m tile_dir =
     (case get_meta_dimensions (mt_z m) METATILE of
        Inl e \<Rightarrow> Inl e
      | Inr limit \<Rightarrow>
        (let cells = List.product [0..<nat limit] [0..<nat limit];
             offsets = save_offsets m cells (int header_size) (replicate 64 (0, 0))
         in Inr (fst (xyz_to_meta tile_dir (mt_x m) (mt_y m) (mt_z m) (mt_style m)),
                 encode_layout (save_header m) @ concat (map entry_bytes offsets) @
                 concat (map (\<lambda>(ox, oy). mt_tile m ! ox ! oy) cells))))"

subsection \<open>Lemmas: memory image\<close>

lemma length_int_bytes [simp]: "length (int_bytes n) = 4"
  by (simp add: int_bytes_def)

lemma length_entry_bytes [simp]: "length (entry_bytes e) = 8"
  by (simp add: entry_bytes_def)

lemma length_concat_entries [simp]: "length (concat (map entry_bytes es)) = 8 * length es"
  by (induction es) auto

lemma length_encode_layout: "wf_layout h \<Longrightarrow> length (encode_layout h) = header_size"
  by (simp add: wf_layout_def encode_layout_def header_size_def)

lemma trunc32_mod: "trunc32 (n mod 4294967296) = trunc32 n"
proof -
  have "(word_of_int (n mod 4294967296) :: 32 word) = word_of_int n"
    by (simp add: word_of_int_eq_iff take_bit_eq_mod)
  then show ?thesis by (simp add: trunc32_def)
qed

lemma mod_256_chunks:
  "(n :: int) mod 256 + 256 * (n div 256 mod 256) + 65536 * (n div 65536 mod 256) +
     16777216 * (n div 16777216 mod 256) = n mod 4294967296"
  using zmod_zmult2_eq [of 256 n 256] zmod_zmult2_eq [of 256 n 65536] zmod_zmult2_eq [of 256 n 16777216]
    zmod_zmult2_eq [of 65536 n 256] zmod_zmult2_eq [of 16777216 n 256]
  by simp

lemma bytes_int_int_bytes [simp]: "int32 n \<Longrightarrow> bytes_int (int_bytes n) = n"
  by (simp add: int_bytes_def mod_256_chunks trunc32_mod)

lemma int_at_append [simp]:
  "length us = k \<Longrightarrow> int32 n \<Longrightarrow> int_at (us @ int_bytes n @ vs) k = n"
  by (simp add: int_at_def)

text \<open>Reading an entry at its place in the table of entries.\<close>

lemma int_at_shift: "length us = d \<Longrightarrow> int_at (us @ vs) (d + k) = int_at vs k"
  by (simp add: int_at_def)

lemma int_at_entries:
  assumes "i < length es" "int32 (fst (es ! i))" "int32 (snd (es ! i))"
  shows "int_at (concat (map entry_bytes es) @ vs) (8 * i) = fst (es ! i)"
    and "int_at (concat (map entry_bytes es) @ vs) (4 + 8 * i) = snd (es ! i)"
proof -
  let ?e = "es ! i"
  have "concat (map entry_bytes es) =
      concat (map entry_bytes (take i es)) @ entry_bytes ?e @ concat (map entry_bytes (drop (Suc i) es))"
    by (subst id_take_nth_drop [OF assms(1)]) simp
  moreover have len: "length (concat (map entry_bytes (take i es))) = 8 * i"
    using assms(1) by simp
  ultimately have eq: "concat (map entry_bytes es) @ vs = concat (map entry_bytes (take i es)) @
      int_bytes (fst ?e) @ int_bytes (snd ?e) @ concat (map entry_bytes (drop (Suc i) es)) @ vs"
    by (simp add: entry_bytes_def)
  show "int_at (concat (map entry_bytes es) @ vs) (8 * i) = fst ?e"
    unfolding eq using len assms(2) by (rule int_at_append)
  have "int_at ((concat (map entry_bytes (take i es)) @ int_bytes (fst ?e)) @ int_bytes (snd ?e) @
      concat (map entry_bytes (drop (Suc i) es)) @ vs) (4 + 8 * i) = snd ?e"
    using len assms(3) by (intro int_at_append) auto
  then show "int_at (concat (map entry_bytes es) @ vs) (4 + 8 * i) = snd ?e"
    unfolding eq by simp
qed

lemma int_at_field:
  assumes "bs = us @ int_bytes n @ vs" "length us = k" "int32 n"
  shows "int_at bs k = n"
  using assms by simp

lemma decode_encode_index:
  assumes "wf_layout h" "i < 64"
  shows "(int_at (encode_layout h @ rest) (24 + 8 * i), int_at (encode_layout h @ rest) (28 + 8 * i)) =
    ml_index h ! i"
proof -
  let ?hd = "magic h @ int_bytes (meta_count h) @ int_bytes (ml_x h) @ int_bytes (ml_y h) @
     int_bytes (ml_z h) @ int_bytes (ml_fmt h)"
  let ?tl = "concat (map entry_bytes (ml_index h)) @ rest"
  have eq: "encode_layout h @ rest = ?hd @ ?tl" by (simp add: encode_layout_def)
  have len: "length ?hd = 24" using assms by (simp add: wf_layout_def)
  have rng: "i < length (ml_index h)" "int32 (fst (ml_index h ! i))" "int32 (snd (ml_index h ! i))"
    using assms by (auto simp: wf_layout_def)
  have "int_at (?hd @ ?tl) (24 + 8 * i) = int_at ?tl (8 * i)" using len by (rule int_at_shift)
  moreover have "int_at (?hd @ ?tl) (24 + (4 + 8 * i)) = int_at ?tl (4 + 8 * i)" using len by (rule int_at_shift)
  ultimately show ?thesis
    unfolding eq using int_at_entries [OF rng, of rest] by simp
qed

lemma decode_encode_layout:
  assumes wf: "wf_layout h"
  shows "decode_layout (encode_layout h @ rest) = h"
proof -
  let ?bs = "encode_layout h @ rest"
  let ?ix = "concat (map entry_bytes (ml_index h))"
  note [simp] = encode_layout_def
  have m4: "length (magic h) = 4" using wf by (simp add: wf_layout_def)
  have "int_at ?bs 4 = meta_count h"
    by (rule int_at_field [of _ "magic h"]) (use wf m4 in \<open>auto simp: wf_layout_def\<close>)
  moreover have "int_at ?bs 8 = ml_x h"
    by (rule int_at_field [of _ "magic h @ int_bytes (meta_count h)"]) (use wf m4 in \<open>auto simp: wf_layout_def\<close>)
  moreover have "int_at ?bs 12 = ml_y h"
    by (rule int_at_field [of _ "magic h @ int_bytes (meta_count h) @ int_bytes (ml_x h)"])
       (use wf m4 in \<open>auto simp: wf_layout_def\<close>)
  moreover have "int_at ?bs 16 = ml_z h"
    by (rule int_at_field [of _ "magic h @ int_bytes (meta_count h) @ int_bytes (ml_x h) @ int_bytes (ml_y h)"])
       (use wf m4 in \<open>auto simp: wf_layout_def\<close>)
  moreover have "int_at ?bs 20 = ml_fmt h"
    by (rule int_at_field [of _ "magic h @ int_bytes (meta_count h) @ int_bytes (ml_x h) @ int_bytes (ml_y h) @ int_bytes (ml_z h)"])
       (use wf m4 in \<open>auto simp: wf_layout_def\<close>)
  moreover have "map (\<lambda>i. (int_at ?bs (24 + 8 * i), int_at ?bs (28 + 8 * i))) [0..<64] = ml_index h"
    using wf by (intro nth_equalityI) (simp_all add: decode_encode_index [simplified] wf_layout_def)
  ultimately show ?thesis using m4 by (simp add: decode_layout_def)
qed

subsection \<open>Lemmas: what the writer lays out\<close>

lemma layout_entries_end: "snd (layout_entries off ss) = off + sum_list ss"
  by (induction ss arbitrary: off) (auto simp: case_prod_unfold Let_def)

lemma layout_entries_length [simp]: "length (fst (layout_entries off ss)) = length ss"
  by (induction ss arbitrary: off) (auto simp: case_prod_unfold Let_def)

lemma layout_entries_nth:
  "i < length ss \<Longrightarrow> fst (layout_entries off ss) ! i = (off + sum_list (take i ss), ss ! i)"
proof (induction ss arbitrary: off i)
  case Nil
  then show ?case by simp
next
  case (Cons a ss)
  then show ?case by (cases i) (simp_all add: case_prod_unfold Let_def)
qed

text \<open>The headers that \<^const>\<open>write_header_loop\<close> emits, before they are turned into bytes.\<close>

fun layout_list :: "int \<Rightarrow> int \<Rightarrow> int \<Rightarrow> protoFmt list \<Rightarrow> int list \<Rightarrow> int \<Rightarrow> meta_layout list" where
  "layout_list x y z [] sizes offset = []"
| "layout_list x y z (f # fs) sizes offset =
     \<lparr>magic = ''META'', meta_count = METATILE * METATILE, ml_x = x, ml_y = y, ml_z = z, ml_fmt = f,
      ml_index = fst (layout_entries offset (take 64 sizes))\<rparr> #
     layout_list x y z fs (drop 64 sizes) (offset + sum_list (take 64 sizes))"

lemma write_header_loop_list:
  "write_header_loop x y z fs sizes off = concat (map encode_layout (layout_list x y z fs sizes off))"
  by (induction fs arbitrary: sizes off) (simp_all add: case_prod_unfold Let_def layout_entries_end)

lemma length_layout_list [simp]: "length (layout_list x y z fs sizes off) = length fs"
  by (induction fs arbitrary: sizes off) simp_all

lemma layout_list_nth:
  "i < length fs \<Longrightarrow> layout_list x y z fs sizes off ! i =
     \<lparr>magic = ''META'', meta_count = 64, ml_x = x, ml_y = y, ml_z = z, ml_fmt = fs ! i,
      ml_index = fst (layout_entries (off + sum_list (take (64 * i) sizes)) (take 64 (drop (64 * i) sizes)))\<rparr>"
proof (induction fs arbitrary: sizes off i)
  case Nil
  then show ?case by simp
next
  case (Cons f fs)
  show ?case
  proof (cases i)
    case 0
    then show ?thesis by (simp add: METATILE_def)
  next
    case (Suc j)
    have "take (64 + 64 * j) sizes = take 64 sizes @ take (64 * j) (drop 64 sizes)" by (rule take_add)
    then show ?thesis using Suc Cons.prems Cons.IH [of j] by (simp add: ac_simps)
  qed
qed

lemma layout_list_entry:
  assumes "i < length fs" "length sizes = length fs * 64" "j < 64"
  shows "ml_index (layout_list x y z fs sizes off ! i) ! j =
    (off + sum_list (take (64 * i + j) sizes), sizes ! (64 * i + j))"
proof -
  have ge: "64 * i + 64 \<le> length sizes" using assms(1,2) by simp
  then have "j < length (take 64 (drop (64 * i) sizes))" using assms(3) by simp
  moreover have "take (64 * i + j) sizes = take (64 * i) sizes @ take j (take 64 (drop (64 * i) sizes))"
    using assms(3) by (simp add: take_add min_def)
  ultimately show ?thesis
    using assms(3) ge by (simp add: layout_list_nth [OF assms(1)] layout_entries_nth)
qed

lemma sum_list_take_le: "\<forall>s \<in> set ss. 0 \<le> s \<Longrightarrow> sum_list (take k ss) \<le> sum_list (ss :: int list)"
proof -
  assume nn: "\<forall>s \<in> set ss. 0 \<le> s"
  have "sum_list (take k ss) + sum_list (drop k ss) = sum_list ss"
    by (metis append_take_drop_id sum_list_append)
  moreover have "0 \<le> sum_list (drop k ss)"
    using nn by (intro sum_list_nonneg) (meson in_set_dropD)
  ultimately show ?thesis by linarith
qed

text \<open>Under the size limits of the format every header the writer emits survives its memory image.\<close>

lemma layout_list_wf:
  assumes "length sizes = length fs * 64" "\<forall>s \<in> set sizes. 0 \<le> s" "0 \<le> off"
    and "off + sum_list sizes < 2 ^ 31" "int32 x" "int32 y" "int32 z" "\<forall>f \<in> set fs. int32 f"
    and "h \<in> set (layout_list x y z fs sizes off)"
  shows "wf_layout h" and "magic_ok h"
proof -
  obtain i where i: "i < length fs" "h = layout_list x y z fs sizes off ! i"
    using assms(9) by (metis in_set_conv_nth length_layout_list)
  have ge: "64 * i + 64 \<le> length sizes" using i(1) assms(1) by simp
  have len: "length (ml_index h) = 64" using i ge by (simp add: layout_list_nth)
  have "int32 (fst e) \<and> int32 (snd e)" if e: "e \<in> set (ml_index h)" for e
  proof -
    obtain j where j: "j < 64" "e = ml_index h ! j" using e len by (metis in_set_conv_nth)
    let ?k = "64 * i + j"
    have k: "?k < length sizes" using ge j(1) by simp
    have e_eq: "e = (off + sum_list (take ?k sizes), sizes ! ?k)"
      using layout_list_entry [OF i(1) assms(1) j(1)] i(2) j(2) by simp
    have "0 \<le> sum_list (take ?k sizes)"
      using assms(2) by (intro sum_list_nonneg) (meson in_set_takeD)
    moreover have "sum_list (take ?k sizes) \<le> sum_list sizes" by (rule sum_list_take_le [OF assms(2)])
    moreover have "sum_list (take (Suc ?k) sizes) \<le> sum_list sizes" by (rule sum_list_take_le [OF assms(2)])
    moreover have "sum_list (take (Suc ?k) sizes) = sum_list (take ?k sizes) + sizes ! ?k"
      using k by (simp add: take_Suc_conv_app_nth)
    moreover have "0 \<le> sizes ! ?k" using assms(2) k by simp
    ultimately show ?thesis using assms(3,4) by (simp add: e_eq int32_def)
  qed
  then show "wf_layout h"
    using assms(5-8) i len by (simp add: wf_layout_def layout_list_nth int32_def)
  show "magic_ok h" using i by (simp add: magic_ok_def layout_list_nth)
qed

subsection \<open>Lemmas: what the reader finds\<close>

lemma length_concat_layouts:
  "\<forall>h \<in> set hs. wf_layout h \<Longrightarrow> length (concat (map encode_layout hs)) = length hs * header_size"
  by (induction hs) (simp_all add: length_encode_layout)

lemma drop_concat_layouts:
  assumes "\<forall>h \<in> set hs. wf_layout h" "k < length hs"
  shows "drop (k * header_size) (concat (map encode_layout hs) @ rest) =
    encode_layout (hs ! k) @ concat (map encode_layout (drop (Suc k) hs)) @ rest"
proof -
  have "concat (map encode_layout hs) =
      concat (map encode_layout (take k hs)) @ encode_layout (hs ! k) @ concat (map encode_layout (drop (Suc k) hs))"
    by (subst id_take_nth_drop [OF assms(2)]) simp
  moreover have "length (concat (map encode_layout (take k hs))) = k * header_size"
    using assms by (subst length_concat_layouts) (auto dest: in_set_takeD)
  ultimately show ?thesis by simp
qed

lemma layouts_long_enough:
  assumes "\<forall>h \<in> set hs. wf_layout h" "k < length hs"
  shows "(k + 1) * header_size \<le> length (concat (map encode_layout hs) @ rest)"
proof -
  have "(k + 1) * header_size \<le> length hs * header_size" using assms(2) by (intro mult_le_mono1) simp
  then show ?thesis using length_concat_layouts [OF assms(1)] by simp
qed

lemma reader_search_found:
  assumes "\<forall>h \<in> set hs. wf_layout h" "\<forall>h \<in> set hs. magic_ok h"
    and "i < length hs" "ml_fmt (hs ! i) = fmt" "\<forall>j < i. ml_fmt (hs ! j) \<noteq> fmt" "k \<le> i"
  shows "reader_search (concat (map encode_layout hs) @ rest) fmt k hdr = (Some (hs ! i), True)"
  using assms(6)
proof (induction "i - k" arbitrary: k hdr)
  case 0
  then have "k = i" by simp
  then show ?case
    using assms layouts_long_enough [OF assms(1,3), of rest]
    by (subst reader_search.simps)
       (simp add: drop_concat_layouts [simplified] decode_encode_layout del: append_assoc length_append)
next
  case (Suc n)
  then have k: "k < i" "k < length hs" using assms(3) by auto
  have "reader_search (concat (map encode_layout hs) @ rest) fmt (k + 1) (Some (hs ! k)) = (Some (hs ! i), True)"
    using Suc.hyps(1) [of "k + 1"] Suc.hyps(2) k by simp
  then show ?case
    using assms k layouts_long_enough [OF assms(1) k(2), of rest]
    by (subst reader_search.simps)
       (simp add: drop_concat_layouts [simplified] decode_encode_layout del: append_assoc length_append)
qed

lemma take_drop_concat:
  assumes "k < length ts"
  shows "take (length (ts ! k)) (drop (sum_list (map length (take k ts))) (concat ts)) = ts ! k"
proof -
  have "concat ts = concat (take k ts) @ ts ! k @ concat (drop (Suc k) ts)"
    by (subst id_take_nth_drop [OF assms]) simp
  moreover have "length (concat (take k ts)) = sum_list (map length (take k ts))"
    by (simp add: length_concat)
  ultimately show ?thesis by simp
qed

end
