(* ===== verification/Broker.thy ===== *)
theory Broker
  imports Task_Queue_Props Meta_Tile
begin

text \<open>
  The broker process (\<^verbatim>\<open>tile_broker_impl.cpp\<close>): it queues the requests of the handlers, gives jobs to the
  workers that ask, sends a finished metatile's tiles to everybody who waits for them, and answers
  the monitor socket. The sockets are represented by the messages that arrive, as arguments, and the
  messages that are sent, as results. Message parsing and the sockets themselves are 0MQ's.
\<close>

subsection \<open>State and messages\<close>

record broker =
  br_queue :: task_queue
  frontend_identity :: string
  backend_identity :: string
  zombie_time :: int

datatype out_msg =
    Job "string list" tile_protocol
  | No_Jobs "string list"
  | Tile_To string tile_protocol
  | Queue_Count string "64 word"
  | Jobs_Available string "32 word" "64 word"
  | Monitor_Reply string

text \<open>A worker's message: the routing addresses, the command and, behind \<^verbatim>\<open>RESULT\<close>, the metatile.\<close>

record worker_msg =
  worker_addresses :: "string list"
  command :: string
  meta :: tile_protocol

record client_msg =
  client_addresses :: "string list"
  request :: tile_protocol

subsection \<open>Sending finished tiles\<close>

fun notify_subscribers ::
  "tile_protocol \<Rightarrow> (tile_protocol \<times> string) list \<Rightarrow> cpp_error + out_msg list" where
  "notify_subscribers w [] = Inr []"
| "notify_subscribers w ((sub, addr) # rest) =
     (if status sub \<noteq> cmdDirty \<and> status sub \<noteq> cmdRenderBulk then
        (let t = sub\<lparr>status := status w, last_modified := last_modified w\<rparr> in
         case (if status w \<noteq> cmdNotDone
               then (case reader_tile (tile_data w) (format sub) (tp_x t) (tp_y t) of
                       Inl e \<Rightarrow> Inl e | Inr d \<Rightarrow> Inr (t\<lparr>tile_data := d\<rparr>))
               else Inr t) of
           Inl e \<Rightarrow> Inl e
         | Inr t' \<Rightarrow>
           (case notify_subscribers w rest of
              Inl e \<Rightarrow> Inl e | Inr msgs \<Rightarrow> Inr (Tile_To addr t' # msgs)))
      else notify_subscribers w rest)"

definition send_tile_to_listeners ::
  "task_queue \<Rightarrow> tile_protocol \<Rightarrow> cpp_error + (out_msg list \<times> task_queue)" where
  "send_tile_to_listeners q tile_from_worker =
     (case get tile_from_worker q of
        Some t \<Rightarrow>
          (case notify_subscribers tile_from_worker (subscribers t) of
             Inl e \<Rightarrow> Inl e
           | Inr msgs \<Rightarrow> Inr (msgs, snd (erase tile_from_worker q)))
      | None \<Rightarrow> Inr ([], q))"

subsection \<open>Announcing work\<close>

definition publish_availability :: "broker \<Rightarrow> out_msg list" where
  "publish_availability br =
     (case front (br_queue br) of
        Some t \<Rightarrow> [Jobs_Available (backend_identity br) (word_of_int (priority t))
                   (of_nat (count_unprocessed (br_queue br)))]
      | None \<Rightarrow> [])"

subsection \<open>The three sockets\<close>

definition handle_backend :: "worker_msg \<Rightarrow> broker \<Rightarrow> cpp_error + (out_msg list \<times> broker)" where
  "handle_backend m br =
     (if command m = ''RESULT'' then
        (case send_tile_to_listeners (br_queue br) (meta m) of
           Inl e \<Rightarrow> Inl e
         | Inr (msgs, q) \<Rightarrow> Inr (msgs, br\<lparr>br_queue := q\<rparr>))
      else if command m = ''GET_JOB'' then
        (case front (br_queue br) of
           Some t \<Rightarrow>
             (let proto = tile_protocol.truncate t
              in Inr ([Job (worker_addresses m) proto], br\<lparr>br_queue := set_processed proto (br_queue br)\<rparr>))
         | None \<Rightarrow> Inr ([No_Jobs (worker_addresses m)], br))
      else Inr ([], br))"

definition request_priority :: "protoCmd \<Rightarrow> int" where
  "request_priority c =
     (if c = cmdRenderBulk then 0 else if c = cmdDirty then 50 else if c = cmdRenderPrio then 150 else 100)"

text \<open>
  \<^verbatim>\<open>front_task\<close> is a reference into the container, taken before the push and read after it: its
  priority is the one the task has then.
\<close>

definition handle_frontend :: "int \<Rightarrow> client_msg \<Rightarrow> broker \<Rightarrow> out_msg list \<times> broker" where
  "handle_frontend now m br =
     (let tile = request m;
          prio = request_priority (status tile);
          front_task = front (br_queue br);
          q = snd (push now tile (hd (client_addresses m)) prio (br_queue br));
          br' = br\<lparr>br_queue := q\<rparr>
      in (if (case front_task of None \<Rightarrow> True | Some t \<Rightarrow> prio_of (nodes q) (task_key t) < prio)
          then publish_availability br' else [], br'))"

text \<open>\<open>True\<close> in the last place: leave the main loop.\<close>

definition handle_monitor :: "int \<Rightarrow> string \<Rightarrow> broker \<Rightarrow> out_msg list \<times> broker \<times> bool" where
  "handle_monitor now str br =
     (if str = ''CLEAR TASK QUEUE'' then
        ([Monitor_Reply str], br\<lparr>br_queue := clear (br_queue br)\<rparr>, False)
      else if str = ''RESUBMIT ZOMBIE TASKS'' then
        ([Monitor_Reply str], br\<lparr>br_queue := resubmit_older_than now (zombie_time br) (br_queue br)\<rparr>, False)
      else if str = ''STATS'' then
        (let prio = (case front (br_queue br) of Some t \<Rightarrow> priority t | None \<Rightarrow> - 1)
         in ([Monitor_Reply (''num_tasks='' @ dec_nat (queue_size (br_queue br)) @
                '' num_unprocessed='' @ dec_nat (count_unprocessed (br_queue br)) @
                '' highest_priority='' @ dec_int prio)], br, False))
      else if str = ''HEARTBEAT'' then
        ([Queue_Count (frontend_identity br) (of_nat (count_unprocessed (br_queue br)))] @
         publish_availability br @ [Monitor_Reply str], br, False)
      else if str = ''SHUTDOWN'' then ([Monitor_Reply str], br, True)
      else ([Monitor_Reply ''UNKNOWN''], br, False))"

subsection \<open>The main loop\<close>

text \<open>One iteration: the sockets that have a message are served in the order backend, frontend, monitor.\<close>

record poll_result =
  from_worker :: "worker_msg option"
  from_client :: "client_msg option"
  from_monitor :: "string option"

definition broker_iteration ::
  "int \<Rightarrow> poll_result \<Rightarrow> broker \<Rightarrow> cpp_error + (out_msg list \<times> broker \<times> bool)" where
  "broker_iteration now items br =
     (case (case from_worker items of None \<Rightarrow> Inr ([], br) | Some m \<Rightarrow> handle_backend m br) of
        Inl e \<Rightarrow> Inl e
      | Inr (out1, br1) \<Rightarrow>
        (let (out2, br2) = (case from_client items of None \<Rightarrow> ([], br1) | Some m \<Rightarrow> handle_frontend now m br1);
             (out3, br3, stop) = (case from_monitor items of None \<Rightarrow> ([], br2, False) | Some s \<Rightarrow> handle_monitor now s br2)
         in Inr (out1 @ out2 @ out3, br3, stop)))"

text \<open>The loop over a sequence of polls with their times; the flag tells whether it was left.\<close>

fun broker_loop :: "(int \<times> poll_result) list \<Rightarrow> broker \<Rightarrow> cpp_error + (out_msg list \<times> broker \<times> bool)" where
  "broker_loop [] br = Inr ([], br, False)"
| "broker_loop ((now, items) # polls) br =
     (case broker_iteration now items br of
        Inl e \<Rightarrow> Inl e
      | Inr (out, br', stop) \<Rightarrow>
        if stop then Inr (out, br', True)
        else (case broker_loop polls br' of
                Inl e \<Rightarrow> Inl e | Inr (out', br'', stop') \<Rightarrow> Inr (out @ out', br'', stop')))"

subsection \<open>The monitor thread\<close>

record monitor_state =
  next_heartbeat :: nat
  next_resubmit :: nat

definition monitor_start :: "nat \<Rightarrow> monitor_state" where
  "monitor_start resubmit_interval = \<lparr>next_heartbeat = 0, next_resubmit = resubmit_interval\<rparr>"

text \<open>One pass of the loop: the commands it sends, the seconds it sleeps, and the counters.\<close>

definition monitor_pass :: "nat \<Rightarrow> nat \<Rightarrow> monitor_state \<Rightarrow> string list \<times> nat \<times> monitor_state" where
  "monitor_pass heartbeat_interval resubmit_interval s =
     (let (c1, nh) = (if next_heartbeat s = 0 then ([''HEARTBEAT''], heartbeat_interval) else ([], next_heartbeat s));
          (c2, nr) = (if next_resubmit s = 0 then ([''RESUBMIT ZOMBIE TASKS''], resubmit_interval) else ([], next_resubmit s));
          sleep_interval = min nh nr
      in (c1 @ c2, sleep_interval, \<lparr>next_heartbeat = nh - sleep_interval, next_resubmit = nr - sleep_interval\<rparr>))"

fun monitor_run :: "nat \<Rightarrow> nat \<Rightarrow> nat \<Rightarrow> nat \<Rightarrow> monitor_state \<Rightarrow> (nat \<times> string) list \<times> nat \<times> monitor_state" where
  "monitor_run hi ri 0 t s = ([], t, s)"
| "monitor_run hi ri (Suc n) t s =
     (let (cmds, d, s') = monitor_pass hi ri s; (rest, t', s'') = monitor_run hi ri n (t + d) s'
      in (map (Pair t) cmds @ rest, t', s''))"

end
