(* ===== verification/Meta_Tile_Props.thy ===== *)
theory Meta_Tile_Props
  imports Meta_Tile
begin

text \<open>
  What the metatile code guarantees: tiles written after the headers of \<^const>\<open>write_headers\<close> are what
  \<^const>\<open>mk_metatile_reader\<close> and \<^const>\<open>read_from_meta\<close> give back; the reader stays inside its data as long
  as the entries are not negative, and leaves it otherwise; the file of \<^const>\<open>metaTile_save\<close> cannot be
  read back.
\<close>

subsection \<open>Pointer ranges\<close>

lemma unat_word_of_nat64: "n < 2 ^ 64 \<Longrightarrow> unat (word_of_int (int n) :: 64 word) = n"
  by (simp add: unat_of_nat take_bit_nat_eq_self)

lemma word_le_len: "n < 2 ^ 64 \<Longrightarrow> k < 2 ^ 64 \<Longrightarrow>
    (word_of_int (int k) :: 64 word) \<le> word_of_int (int n) \<longleftrightarrow> k \<le> n"
  by (simp add: word_le_nat_alt unat_word_of_nat64 del: of_int_of_nat_eq)

lemma meta_offset_range: "nat (xyz_to_meta_offset x y z) < 64"
proof -
  have "(y AND 7) = y mod 8" "(x AND 7) = x mod 8" by (rule and_7_eq_mod)+
  moreover have "y mod 8 \<le> 7" "x mod 8 \<le> 7" by simp_all
  ultimately show ?thesis by (simp add: xyz_to_meta_offset_def METATILE_def)
qed

text \<open>What \<^const>\<open>reader_get\<close> delivers for an entry that lies inside the data.\<close>

lemma reader_get_entry:
  assumes "reader_header r = Some h" "initialized r" "length (reader_data r) < 2 ^ 63"
    and "ml_index h ! nat (xyz_to_meta_offset x y z) = (int a, int b)"
    and "a + b \<le> length (reader_data r)"
  shows "read_range (reader_data r) (reader_get r x y) = Inr (take b (drop a (reader_data r)))"
proof -
  let ?n = "length (reader_data r)"
  have "(word_of_int (int a) :: 64 word) + word_of_int (int b) = word_of_int (int (a + b))" by simp
  moreover have "(word_of_int (int (a + b)) :: 64 word) \<le> word_of_int (int ?n)"
    using assms(3,5) by (subst word_le_len) auto
  ultimately have get: "reader_get r x y = (word_of_int (int a), word_of_int (int (a + b)))"
    using assms(1,2,4) by (simp add: reader_get_def xyz_to_meta_offset_def Let_def del: of_int_of_nat_eq)
  have "(word_of_int (int a) :: 64 word) \<le> word_of_int (int (a + b))"
    using assms(3,5) by (subst word_le_len) auto
  moreover have "unat (word_of_int (int (a + b)) :: 64 word) = a + b"
      "unat (word_of_int (int a) :: 64 word) = a"
    using assms(3,5) by (subst unat_word_of_nat64; simp)+
  ultimately show ?thesis
    unfolding get using assms(5) by (simp add: read_range_def del: of_int_of_nat_eq)
qed

lemma reader_get_uninitialised:
  assumes "\<not> initialized r" "length (reader_data r) < 2 ^ 63"
  shows "read_range (reader_data r) (reader_get r x y) = Inr ''''"
  using assms by (simp add: reader_get_def read_range_def Let_def unat_word_of_nat64 del: of_int_of_nat_eq)

subsection \<open>Round trip\<close>

lemma write_headers_ok:
  "write_headers x y z formats sizes = Inr hs \<longleftrightarrow>
     length sizes = length formats * 64 \<and>
     hs = concat (map encode_layout (layout_list x y z formats sizes (int (length formats * header_size))))"
  by (auto simp: write_headers_def write_header_loop_list)

lemma sum_list_sizes: "sum_list (map (\<lambda>t. int (length t)) ts) = int (length (concat ts))"
  by (induction ts) auto

text \<open>
  The headers of a file as the writer lays it out: well formed, and the entry of format \<open>i\<close> and
  position \<open>j\<close> addresses the tile with number \<open>64 * i + j\<close>.
\<close>

lemma written_layouts:
  assumes "write_headers x y z formats (map (\<lambda>t. int (length t)) tiles) = Inr headers"
    and "\<forall>f \<in> set formats. int32 f" "int32 x" "int32 y" "int32 z"
    and "length formats * header_size + length (concat tiles) < 2 ^ 31"
  obtains hs where "headers = concat (map encode_layout hs)" "length hs = length formats"
    "\<forall>h \<in> set hs. wf_layout h" "\<forall>h \<in> set hs. magic_ok h" "\<And>i. i < length formats \<Longrightarrow> ml_fmt (hs ! i) = formats ! i"
    "\<And>i. i < length formats \<Longrightarrow> meta_count (hs ! i) = 64"
    "\<And>i j. i < length formats \<Longrightarrow> j < 64 \<Longrightarrow> ml_index (hs ! i) ! j =
       (int (length headers + sum_list (map length (take (64 * i + j) tiles))), int (length (tiles ! (64 * i + j))))"
proof -
  let ?sizes = "map (\<lambda>t. int (length t)) tiles" and ?off = "int (length formats * header_size)"
  let ?hs = "layout_list x y z formats ?sizes ?off"
  have len: "length ?sizes = length formats * 64" and hs: "headers = concat (map encode_layout ?hs)"
    using assms(1) by (auto simp: write_headers_ok)
  have total: "?off + sum_list ?sizes < 2 ^ 31" using assms(6) by (simp add: sum_list_sizes flip: of_nat_mult of_nat_add)
  have wf: "\<forall>h \<in> set ?hs. wf_layout h" and ok: "\<forall>h \<in> set ?hs. magic_ok h"
    using layout_list_wf [OF len _ _ total assms(3-5) assms(2)] by auto
  have "length headers = length formats * header_size" using hs length_concat_layouts [OF wf] by simp
  moreover have "ml_index (?hs ! i) ! j =
      (?off + sum_list (take (64 * i + j) ?sizes), ?sizes ! (64 * i + j))" if "i < length formats" "j < 64" for i j
    using layout_list_entry [OF that(1) len that(2)] .
  moreover have "sum_list (take k ?sizes) = int (sum_list (map length (take k tiles)))" for k
    by (induction tiles arbitrary: k) (auto simp: take_Cons split: nat.splits)
  moreover have "64 * i + j < length tiles" if "i < length formats" "j < 64" for i j
  proof -
    have "64 * i + 64 \<le> length tiles" using that(1) len by simp
    then show ?thesis using that(2) by simp
  qed
  ultimately show ?thesis
    using that [of ?hs] hs wf ok by (simp add: layout_list_nth)
qed

lemma tile_in_concat:
  assumes "k < length tiles"
  shows "sum_list (map length (take k tiles)) + length (tiles ! k) \<le> length (concat tiles)"
proof -
  have "concat tiles = concat (take k tiles) @ tiles ! k @ concat (drop (Suc k) tiles)"
    by (subst id_take_nth_drop [OF assms]) simp
  then have "length (concat tiles) =
      length (concat (take k tiles)) + (length (tiles ! k) + length (concat (drop (Suc k) tiles)))"
    by (metis length_append)
  then show ?thesis by (simp add: length_concat)
qed

lemma reader_tile_written_rest:
  assumes w: "write_headers x y z formats (map (\<lambda>t. int (length t)) tiles) = Inr headers"
    and d: "distinct formats" and f32: "\<forall>f \<in> set formats. int32 f"
    and c32: "int32 x" "int32 y" "int32 z"
    and small: "length formats * header_size + length (concat tiles) + length rest < 2 ^ 31"
    and i: "i < length formats"
  shows "reader_tile (headers @ concat tiles @ rest) (formats ! i) tx ty =
    Inr (tiles ! (64 * i + nat (xyz_to_meta_offset tx ty z)))"
proof -
  let ?data = "headers @ concat tiles @ rest" and ?j = "nat (xyz_to_meta_offset tx ty z)"
  obtain hs where hs: "headers = concat (map encode_layout hs)" "length hs = length formats"
    "\<forall>h \<in> set hs. wf_layout h" "\<forall>h \<in> set hs. magic_ok h"
    and fmt: "\<And>i. i < length formats \<Longrightarrow> ml_fmt (hs ! i) = formats ! i"
    and entry: "\<And>i j. i < length formats \<Longrightarrow> j < 64 \<Longrightarrow> ml_index (hs ! i) ! j =
       (int (length headers + sum_list (map length (take (64 * i + j) tiles))), int (length (tiles ! (64 * i + j))))"
    by (rule written_layouts [OF w f32 c32]) (use small in simp, rule that)
  have "\<forall>k < i. ml_fmt (hs ! k) \<noteq> formats ! i" using d fmt i by (auto simp: nth_eq_iff_index_eq)
  then have r: "mk_metatile_reader ?data (formats ! i) =
      \<lparr>reader_header = Some (hs ! i), reader_data = ?data, initialized = True\<rparr>"
    using reader_search_found [OF hs(3,4), of i "formats ! i" 0 "concat tiles @ rest"] i fmt hs(1,2)
    by (simp add: mk_metatile_reader_def)
  have len_h: "length headers = length formats * header_size" using length_concat_layouts [OF hs(3)] hs(1,2) by simp
  have "64 * i + 64 \<le> length tiles" using w i by (simp add: write_headers_ok)
  then have k: "64 * i + ?j < length tiles" using meta_offset_range [of tx ty z] by simp
  let ?a = "sum_list (map length (take (64 * i + ?j) tiles))"
  have eq: "take (length (tiles ! (64 * i + ?j))) (drop (length headers + ?a) ?data) = tiles ! (64 * i + ?j)"
    using take_drop_concat [OF k] tile_in_concat [OF k] by simp
  note bound = tile_in_concat [OF k]
  have "read_range ?data (reader_get (mk_metatile_reader ?data (formats ! i)) tx ty) =
      Inr (take (length (tiles ! (64 * i + ?j))) (drop (length headers + ?a) ?data))"
    using reader_get_entry [of "mk_metatile_reader ?data (formats ! i)" "hs ! i" tx ty z
        "length headers + ?a" "length (tiles ! (64 * i + ?j))"]
      entry [OF i meta_offset_range [of tx ty z]] bound small len_h unfolding r by simp
  then show ?thesis unfolding reader_tile_def eq .
qed

lemmas reader_tile_written = reader_tile_written_rest [where rest = "[]", simplified append_Nil2 list.size(3) add_0_right]

text \<open>
  C11. A metatile built by \<^const>\<open>write_headers\<close> followed by the tiles in order is read back tile by
  tile: for every written format and every coordinate the reader returns exactly the bytes of the
  tile that was written at that coordinate's place, provided the whole file is below 2 GiB.
\<close>

theorem metatile_roundtrip:
  assumes w: "write_headers x y z formats (map (\<lambda>t. int (length t)) tiles) = Inr headers"
    and d: "distinct formats" and f32: "\<forall>f \<in> set formats. int32 f"
    and c32: "int32 x" "int32 y" "int32 z"
    and small: "length formats * header_size + length (concat tiles) < 2 ^ 31"
    and i: "i < length formats"
  shows "reader_tile (headers @ concat tiles) (formats ! i) tx ty =
    Inr (tiles ! (64 * i + nat (xyz_to_meta_offset tx ty z)))"
  by (rule reader_tile_written [OF w d f32 c32 small i])

text \<open>The round trip on a two-format metatile whose 128 tiles are distinct one- or two-byte strings.\<close>

theorem metatile_roundtrip_witness:
  "reader_tile
     (concat (map encode_layout (layout_list 8 16 4 [fmtPNG, fmtJSON]
        (map (\<lambda>t. int (length t)) (replicate 64 ''p'' @ replicate 64 ''js'')) (int (2 * header_size))))
      @ concat (replicate 64 ''p'' @ replicate 64 ''js'')) ([fmtPNG, fmtJSON] ! 1) 9 18 = Inr ''js''"
proof -
  let ?tiles = "replicate 64 ''p'' @ replicate 64 ''js''"
  let ?h = "concat (map encode_layout (layout_list 8 16 4 [fmtPNG, fmtJSON]
        (map (\<lambda>t. int (length t)) ?tiles) (int (2 * header_size))))"
  have "write_headers 8 16 4 [fmtPNG, fmtJSON] (map (\<lambda>t. int (length t)) ?tiles) = Inr ?h"
    by (subst write_headers_ok) simp
  moreover have "distinct [fmtPNG, fmtJSON]" "\<forall>f \<in> set [fmtPNG, fmtJSON]. int32 f"
    by (simp_all add: fmt_defs int32_def)
  moreover have "int32 8" "int32 16" "int32 4" by (simp_all add: int32_def)
  moreover have "length [fmtPNG, fmtJSON] * header_size + length (concat ?tiles) < 2 ^ 31"
    by (simp add: header_size_def length_concat sum_list_replicate)
  ultimately have "reader_tile (?h @ concat ?tiles) ([fmtPNG, fmtJSON] ! 1) 9 18 =
      Inr (?tiles ! (64 * 1 + nat (xyz_to_meta_offset 9 18 4)))"
    by (rule metatile_roundtrip) simp
  moreover have "64 * 1 + nat (xyz_to_meta_offset 9 18 4) = 81"
    by (simp add: xyz_to_meta_offset_def METATILE_def and_7_eq_mod)
  ultimately show ?thesis by (simp add: nth_append)
qed

subsection \<open>Staying inside the data\<close>

text \<open>
  The reader never leaves the metatile it was given, whatever the bytes are, when the table entry it
  uses is not negative.
\<close>

theorem reader_in_bounds:
  assumes "length data < 2 ^ 63"
    and "\<And>h. reader_header (mk_metatile_reader data fmt) = Some h \<Longrightarrow>
      0 \<le> fst (ml_index h ! nat (xyz_to_meta_offset x y z)) \<and> fst (ml_index h ! nat (xyz_to_meta_offset x y z)) < 2 ^ 31 \<and>
      0 \<le> snd (ml_index h ! nat (xyz_to_meta_offset x y z)) \<and> snd (ml_index h ! nat (xyz_to_meta_offset x y z)) < 2 ^ 31"
  shows "\<exists>tile. reader_tile data fmt x y = Inr tile \<and> length tile \<le> length data"
proof -
  let ?r = "mk_metatile_reader data fmt" and ?j = "nat (xyz_to_meta_offset x y z)"
  have rd: "reader_data ?r = data" by (simp add: mk_metatile_reader_def case_prod_unfold Let_def)
  show ?thesis
  proof (cases "initialized ?r \<and> reader_header ?r \<noteq> None")
    case False
    then have "reader_get ?r x y = (word_of_int (int (length data)), word_of_int (int (length data)))"
      by (auto simp: reader_get_def Let_def rd split: bool.splits option.splits)
    then show ?thesis
      using assms(1) by (simp add: reader_tile_def read_range_def unat_word_of_nat64 del: of_int_of_nat_eq)
  next
    case True
    then obtain h where h: "reader_header ?r = Some h" "initialized ?r" by auto
    obtain a b where ab: "ml_index h ! ?j = (int a, int b)" "a < 2 ^ 31" "b < 2 ^ 31"
      using assms(2) [OF h(1)] by (metis nat_less_numeral_power_cancel_iff prod.collapse nat_0_le zless_nat_eq_int_zless)
    show ?thesis
    proof (cases "a + b \<le> length data")
      case True
      have "reader_tile data fmt x y = Inr (take b (drop a data))"
        using reader_get_entry [OF h, of x y z a b] ab True assms(1) by (simp add: reader_tile_def rd)
      then show ?thesis by simp
    next
      case False
      have "\<not> (word_of_int (int (a + b)) :: 64 word) \<le> word_of_int (int (length data))"
        using False ab assms(1) by (subst word_le_len) auto
      then have "reader_get ?r x y = (word_of_int (int (length data)), word_of_int (int (length data)))"
        using h ab by (simp add: reader_get_def Let_def rd xyz_to_meta_offset_def)
      then show ?thesis
        using assms(1) by (simp add: reader_tile_def read_range_def unat_word_of_nat64 del: of_int_of_nat_eq)
    qed
  qed
qed

text \<open>The empty string holds no header, so the reader delivers the empty tile.\<close>

theorem reader_in_bounds_witness:
  "\<exists>tile. reader_tile '''' fmtPNG 3 5 = Inr tile \<and> length tile \<le> length ('''' :: string)"
proof (rule reader_in_bounds [where z = 0])
  show "length ('''' :: string) < 2 ^ 63" by simp
  fix h :: meta_layout
  assume "reader_header (mk_metatile_reader '''' fmtPNG) = Some h"
  moreover have "reader_search '''' fmtPNG 0 None = (None, False)"
    by (subst reader_search.simps) (simp add: header_size_def)
  ultimately have False by (simp add: mk_metatile_reader_def)
  then show "0 \<le> fst (ml_index h ! nat (xyz_to_meta_offset 3 5 0)) \<and> fst (ml_index h ! nat (xyz_to_meta_offset 3 5 0)) < 2 ^ 31 \<and>
      0 \<le> snd (ml_index h ! nat (xyz_to_meta_offset 3 5 0)) \<and> snd (ml_index h ! nat (xyz_to_meta_offset 3 5 0)) < 2 ^ 31" ..
qed

text \<open>A header that is alone in its file is the one the reader finds.\<close>

lemma reader_single:
  assumes "wf_layout h" "magic_ok h"
  shows "mk_metatile_reader (encode_layout h @ rest) (ml_fmt h) =
    \<lparr>reader_header = Some h, reader_data = encode_layout h @ rest, initialized = True\<rparr>"
  using reader_search_found [of "[h]" 0 "ml_fmt h" 0 rest None] assms
  by (simp add: mk_metatile_reader_def)

definition hostile_layout :: "protoFmt \<Rightarrow> meta_layout" where
  "hostile_layout f = \<lparr>magic = ''META'', meta_count = 64, ml_x = 0, ml_y = 0, ml_z = 3, ml_fmt = f,
     ml_index = replicate 64 (- 1, 1)\<rparr>"

text \<open>
  The bound check of \<^verbatim>\<open>metatile_reader::get\<close> can be passed by a wrapped sum: with an entry of offset
  \<open>-1\<close> and size \<open>1\<close> the range starts one byte before the buffer and copying it is undefined behaviour.
\<close>

theorem reader_wraps_out_of_bounds:
  "reader_tile (encode_layout (hostile_layout fmtPNG)) fmtPNG x y = Inl Undefined_Behaviour"
proof -
  let ?h = "hostile_layout fmtPNG"
  have wf: "wf_layout ?h" "magic_ok ?h"
    by (simp_all add: hostile_layout_def wf_layout_def magic_ok_def int32_def fmt_defs)
  have r: "mk_metatile_reader (encode_layout ?h) fmtPNG =
      \<lparr>reader_header = Some ?h, reader_data = encode_layout ?h, initialized = True\<rparr>"
    using reader_single [OF wf, of "[]"] by (simp add: hostile_layout_def)
  have e: "ml_index ?h ! nat (xyz_to_meta_offset x y 3) = (- 1, 1)"
    using meta_offset_range [of x y 3] by (simp add: hostile_layout_def)
  have "reader_get (mk_metatile_reader (encode_layout ?h) fmtPNG) x y = (- 1, 0)"
    unfolding r using e by (simp add: reader_get_def Let_def xyz_to_meta_offset_def)
  then show ?thesis by (simp add: reader_tile_def read_range_def)
qed

subsection \<open>The file written by save\<close>

lemma save_offsets_other:
  assumes "\<forall>(ox, oy) \<in> set cells. nat (xyz_to_meta_offset (mt_x m + int ox) (mt_y m + int oy) (mt_z m)) \<noteq> k"
  shows "save_offsets m cells off offs ! k = offs ! k"
  using assms by (induction m cells off offs rule: save_offsets.induct) (auto simp: Let_def)

lemma save_offsets_length [simp]: "length (save_offsets m cells off offs) = length offs"
  by (induction m cells off offs rule: save_offsets.induct) (auto simp: Let_def)

lemma aligned_meta_offset:
  assumes "x mod 8 = 0" "y mod 8 = 0" "ox < 8" "oy < 8"
  shows "nat (xyz_to_meta_offset (x + int ox) (y + int oy) z) = 8 * oy + ox"
proof -
  have "(x + int ox) mod 8 = int ox" "(y + int oy) mod 8 = int oy"
    using assms by (simp_all add: mod_add_eq [symmetric, of x] mod_add_eq [symmetric, of y])
  then show ?thesis by (simp add: xyz_to_meta_offset_def METATILE_def and_7_eq_mod nat_add_distrib nat_mult_distrib)
qed

lemma save_first_entry:
  assumes "mt_x m mod 8 = 0" "mt_y m mod 8 = 0" "0 < lim" "lim \<le> 8"
  shows "save_offsets m (List.product [0..<lim] [0..<lim]) off (replicate 64 (0, 0)) ! 0 =
    (off, int (length (mt_tile m ! 0 ! 0)))"
proof -
  let ?rest = "map (Pair 0) [1..<lim] @ List.product [1..<lim] [0..<lim]"
  have split: "List.product [0..<lim] [0..<lim] = (0, 0) # ?rest"
    using assms(3) by (simp add: upt_conv_Cons)
  have idx: "nat (xyz_to_meta_offset (mt_x m + int ox) (mt_y m + int oy) (mt_z m)) = 8 * oy + ox"
    if "ox < lim" "oy < lim" for ox oy
    using aligned_meta_offset [OF assms(1,2)] that assms(4) by simp
  have "nat (xyz_to_meta_offset (mt_x m + int ox) (mt_y m + int oy) (mt_z m)) \<noteq> 0"
    if "(ox, oy) \<in> set ?rest" for ox oy
  proof -
    have "ox < lim" "oy < lim" "ox \<noteq> 0 \<or> oy \<noteq> 0" using that assms(3) by auto
    then show ?thesis using idx [of ox oy] by auto
  qed
  then have "\<forall>(ox, oy) \<in> set ?rest. nat (xyz_to_meta_offset (mt_x m + int ox) (mt_y m + int oy) (mt_z m)) \<noteq> 0"
    by blast
  then show ?thesis
    using idx [of 0 0] assms(3) by (simp add: split Let_def save_offsets_other del: product.simps)
qed

lemma save_header_props: "int32 (mt_x m) \<Longrightarrow> int32 (mt_y m) \<Longrightarrow> int32 (mt_z m) \<Longrightarrow>
    wf_layout (save_header m) \<and> magic_ok (save_header m)"
  by (simp add: save_header_def wf_layout_def magic_ok_def int32_def METATILE_def)

text \<open>
  What \<^verbatim>\<open>metaTile::save\<close> writes cannot be read back: the header goes out with a zero format and a zero
  index, and the offset table follows it where a second header would stand. For every format and
  every tile the reader delivers the empty string, whatever the metatile holds.
\<close>

theorem metaTile_save_unreadable:
  assumes s: "metaTile_save m tile_dir = Inr (path, bytes)"
    and al: "mt_x m mod 8 = 0" "mt_y m mod 8 = 0"
    and c32: "int32 (mt_x m)" "int32 (mt_y m)" "int32 (mt_z m)"
    and small: "length bytes < 2 ^ 63"
  shows "reader_tile bytes fmt x y = Inr ''''"
proof -
  let ?h = "save_header m"
  obtain lim where lim: "0 < lim" "lim \<le> 8"
    and bytes: "bytes = encode_layout ?h @
      concat (map entry_bytes (save_offsets m (List.product [0..<lim] [0..<lim]) (int header_size) (replicate 64 (0, 0)))) @
      concat (map (\<lambda>(ox, oy). mt_tile m ! ox ! oy) (List.product [0..<lim] [0..<lim]))"
    using s that [of "nat (min (push_bit (nat (mt_z m)) 1) METATILE)"]
    by (auto simp: metaTile_save_def get_meta_dimensions_def Let_def METATILE_def push_bit_eq_mult split: if_splits)
  let ?offs = "save_offsets m (List.product [0..<lim] [0..<lim]) (int header_size) (replicate 64 (0, 0))"
  have wf: "wf_layout ?h" "magic_ok ?h" using save_header_props [OF c32] by auto
  show ?thesis
  proof (cases "fmt = 0")
    case True
    obtain rest where rest: "bytes = encode_layout ?h @ rest" using bytes by blast
    have "mk_metatile_reader bytes fmt = \<lparr>reader_header = Some ?h, reader_data = bytes, initialized = True\<rparr>"
      using reader_single [OF wf, of rest] True unfolding rest by (simp add: save_header_def)
    moreover have "ml_index ?h ! nat (xyz_to_meta_offset x y 0) = (int 0, int 0)"
      using meta_offset_range [of x y 0] by (simp add: save_header_def)
    ultimately show ?thesis
      using reader_get_entry [of "mk_metatile_reader bytes fmt" ?h x y 0 0 0] small by (simp add: reader_tile_def)
  next
    case False
    have nz: "?offs \<noteq> []" by (metis length_replicate save_offsets_length list.size(3) zero_neq_numeral)
    have "concat (map entry_bytes ?offs) = entry_bytes (?offs ! 0) @ concat (map entry_bytes (tl ?offs))"
      using nz by (cases ?offs) auto
    then have second: "take 4 (drop header_size bytes) = int_bytes (int header_size)"
      using save_first_entry [OF al lim, of "int header_size"] length_encode_layout [OF wf(1)]
      by (simp add: bytes entry_bytes_def)
    have nomagic: "\<not> magic_ok (decode_layout (drop header_size bytes))"
      unfolding magic_ok_def decode_layout_def using second
      by (simp add: int_bytes_def header_size_def char_of_def)
    have first: "decode_layout bytes = ?h" unfolding bytes by (rule decode_encode_layout [OF wf(1)])
    have "snd (reader_search bytes fmt 1 (Some ?h)) = False"
      by (subst reader_search.simps) (simp add: nomagic Let_def)
    moreover have "header_size \<le> length bytes" using length_encode_layout [OF wf(1)] by (simp add: bytes)
    ultimately have "\<not> initialized (mk_metatile_reader bytes fmt)"
      using first False wf(2) by (simp add: mk_metatile_reader_def case_prod_unfold Let_def
          reader_search.simps [of bytes fmt 0] save_header_def)
    then show ?thesis
      using reader_get_uninitialised [of "mk_metatile_reader bytes fmt" x y] small
      by (simp add: reader_tile_def mk_metatile_reader_def case_prod_unfold Let_def)
  qed
qed

text \<open>A metatile of zoom 0 that holds one non-empty tile is written, and reads back empty.\<close>

theorem metaTile_save_unreadable_witness:
  "\<exists>path bytes. metaTile_save ((mk_metaTile 0 0 0 ''osm'')\<lparr>mt_tile := replicate 8 (replicate 8 ''x'')\<rparr>) ''/t''
     = Inr (path, bytes) \<and> reader_tile bytes fmtPNG 0 0 = Inr ''''"
proof -
  let ?m = "(mk_metaTile 0 0 0 ''osm'')\<lparr>mt_tile := replicate 8 (replicate 8 ''x'')\<rparr>"
  have m: "mt_x ?m = 0" "mt_y ?m = 0" "mt_z ?m = 0"
    by (simp_all add: mk_metaTile_def metaTile_clear_def)
  obtain path bytes where s: "metaTile_save ?m ''/t'' = Inr (path, bytes)"
    by (simp add: metaTile_save_def get_meta_dimensions_def mk_metaTile_def metaTile_clear_def Let_def)
  have len: "length bytes < 2 ^ 63"
    using s length_encode_layout [of "save_header ?m"] save_header_props [of ?m]
    by (auto simp: metaTile_save_def get_meta_dimensions_def mk_metaTile_def metaTile_clear_def Let_def
        METATILE_def header_size_def int32_def)
  have "reader_tile bytes fmtPNG 0 0 = Inr ''''"
    by (rule metaTile_save_unreadable [OF s]) (use m len in \<open>simp_all add: int32_def\<close>)
  then show ?thesis using s by blast
qed

subsection \<open>Reading one tile from a file\<close>

text \<open>What POSIX promises of \<^verbatim>\<open>read\<close> on a regular file without errors: some bytes before the end, none at it.\<close>

definition posix_read :: "meta_file \<Rightarrow> bool" where
  "posix_read f \<longleftrightarrow> (\<forall>p n. 0 < n \<longrightarrow>
     (if p < length (file_bytes f)
      then 0 < read_ret f p n \<and> read_ret f p n \<le> int (min n (length (file_bytes f) - p))
      else read_ret f p n = 0))"

lemma read_loop_complete:
  assumes "posix_read f" "pos \<le> min limit (length (file_bytes f) - base)" "base \<le> length (file_bytes f)"
  shows "read_loop f base pos limit = Some (min limit (length (file_bytes f) - base))"
  using assms
proof (induction f base pos limit rule: read_loop.induct)
  case (1 f base pos limit)
  let ?len = "length (file_bytes f)" and ?got = "read_ret f (base + pos) (limit - pos)"
  show ?case
  proof (cases "pos < limit")
    case False
    then show ?thesis using "1.prems"(2) by (subst read_loop.simps) auto
  next
    case lt: True
    show ?thesis
    proof (cases "base + pos < ?len")
      case True
      then have got: "0 < ?got" "?got \<le> int (min (limit - pos) (?len - (base + pos)))"
        using "1.prems"(1) lt by (auto simp: posix_read_def split: if_splits)
      then have "read_loop f base (pos + nat ?got) limit = Some (min limit (?len - base))"
        using "1.prems" lt by (intro "1.IH") (auto simp: nat_le_iff)
      then show ?thesis using lt got(1) by (subst read_loop.simps) simp
    next
      case False
      then have "?got = 0" using "1.prems"(1) lt by (simp add: posix_read_def)
      then show ?thesis using lt False "1.prems"(2,3) by (subst read_loop.simps) auto
    qed
  qed
qed

lemma meta_block:
  assumes "\<forall>h \<in> set hs. wf_layout h" "k < length hs" "(k + 1) * header_size \<le> pos"
  shows "decode_layout (drop (k * header_size) (take pos (concat (map encode_layout hs) @ rest))) = hs ! k"
proof -
  let ?more = "concat (map encode_layout (drop (Suc k) hs)) @ rest"
  have len: "length (encode_layout (hs ! k)) = header_size"
    using assms(1,2) by (simp add: length_encode_layout)
  have "drop (k * header_size) (take pos (concat (map encode_layout hs) @ rest)) =
      take (pos - k * header_size) (encode_layout (hs ! k) @ ?more)"
    using drop_concat_layouts [OF assms(1,2), of rest] by (simp only: drop_take)
  also have "\<dots> = encode_layout (hs ! k) @ take (pos - k * header_size - header_size) ?more"
    using assms(3) len by (simp add: add.commute)
  finally show ?thesis using assms(1,2) by (simp add: decode_encode_layout)
qed

lemma meta_search_found:
  assumes "\<forall>h \<in> set hs. wf_layout h" "\<forall>h \<in> set hs. magic_ok h"
    and "i < length hs" "ml_fmt (hs ! i) = fmt" "\<forall>j < i. ml_fmt (hs ! j) \<noteq> fmt" "k \<le> i"
    and "(i + 1) * header_size \<le> pos"
  shows "meta_search (take pos (concat (map encode_layout hs) @ rest)) pos fmt k = Inr (hs ! i)"
  using assms(6)
proof (induction "i - k" arbitrary: k)
  case 0
  then show ?case using assms(7)
    by (subst meta_search.simps) (use assms meta_block [OF assms(1) assms(3) assms(7), of rest] in \<open>simp add: magic_ok_def Let_def\<close>)
next
  case (Suc n)
  then have k: "k < i" "k < length hs" using assms(3) by auto
  have "(k + 1) * header_size \<le> (i + 1) * header_size" using k by (intro mult_le_mono1) simp
  then have pos: "(k + 1) * header_size \<le> pos" using assms(7) by linarith
  have "meta_search (take pos (concat (map encode_layout hs) @ rest)) pos fmt (k + 1) = Inr (hs ! i)"
    using Suc.hyps(1) [of "k + 1"] Suc.hyps(2) k by simp
  then show ?case
    by (subst meta_search.simps) (use assms k pos meta_block [OF assms(1) k(2) pos, of rest] in \<open>simp add: magic_ok_def Let_def\<close>)
qed

lemma read_from_meta_written:
  assumes w: "write_headers x y z formats (map (\<lambda>t. int (length t)) tiles) = Inr headers"
    and d: "distinct formats" and f32: "\<forall>f \<in> set formats. int32 f"
    and c32: "int32 x" "int32 y" "int32 z"
    and small: "length formats * header_size + length (concat tiles) < 2 ^ 31"
    and i: "i < length formats" "i < 7"
    and fl: "fs (fst (xyz_to_meta dir tx ty tz sty)) = Some f" "file_bytes f = headers @ concat tiles" "posix_read f"
    and t: "t = tiles ! (64 * i + nat (xyz_to_meta_offset tx ty tz))" "length t \<le> sz"
  shows "read_from_meta fs dir tx ty tz sty sz (formats ! i) = \<lparr>ret = int (length t), buf_bytes = t, fd_open = False\<rparr>"
proof -
  let ?j = "nat (xyz_to_meta_offset tx ty tz)" and ?len = "length (file_bytes f)"
  obtain hs where hs: "headers = concat (map encode_layout hs)" "length hs = length formats"
    "\<forall>h \<in> set hs. wf_layout h" "\<forall>h \<in> set hs. magic_ok h"
    and fmt: "\<And>i. i < length formats \<Longrightarrow> ml_fmt (hs ! i) = formats ! i"
    and cnt: "\<And>i. i < length formats \<Longrightarrow> meta_count (hs ! i) = 64"
    and entry: "\<And>i j. i < length formats \<Longrightarrow> j < 64 \<Longrightarrow> ml_index (hs ! i) ! j =
       (int (length headers + sum_list (map length (take (64 * i + j) tiles))), int (length (tiles ! (64 * i + j))))"
    by (rule written_layouts [OF w f32 c32 small]) (rule that)
  let ?a = "length headers + sum_list (map length (take (64 * i + ?j) tiles))"
  have "\<forall>k < i. ml_fmt (hs ! k) \<noteq> formats ! i" using d fmt i by (auto simp: nth_eq_iff_index_eq)
  moreover have lenh: "length headers = length formats * header_size" using length_concat_layouts [OF hs(3)] hs(1,2) by simp
  have "(i + 1) * header_size \<le> length formats * header_size" using i by (intro mult_le_mono1) simp
  then have room: "(i + 1) * header_size \<le> min 4096 ?len"
    using i(2) lenh fl(2) by (simp add: header_size_def)
  ultimately have found: "meta_search (take (min 4096 ?len) (file_bytes f)) (min 4096 ?len) (formats ! i) 0 = Inr (hs ! i)"
    using meta_search_found [OF hs(3,4), of i "formats ! i" 0 "min 4096 ?len" "concat tiles"] i fmt hs(1,2) fl(2) by simp
  have "64 * i + 64 \<le> length tiles" using w i by (simp add: write_headers_ok)
  then have k: "64 * i + ?j < length tiles" using meta_offset_range [of tx ty tz] by simp
  have bound: "?a + length t \<le> ?len" using tile_in_concat [OF k] t(1) fl(2) by simp
  have "read_loop f ?a 0 (min (length t) sz) = Some (length t)"
  proof -
    have "length t \<le> ?len - ?a" using bound by linarith
    then show ?thesis using read_loop_complete [OF fl(3), of 0 "length t" ?a] bound t(2) by simp
  qed
  moreover have "take (length t) (drop ?a (file_bytes f)) = t"
    using take_drop_concat [OF k] t(1) fl(2) by simp
  moreover have "unat (word_of_int (int (length t)) :: 64 word) = length t"
    using bound small fl(2) lenh by (intro unat_word_of_nat64) simp
  moreover have "snd (xyz_to_meta dir tx ty tz sty) = xyz_to_meta_offset tx ty tz"
    by (simp add: xyz_to_meta_def xyz_to_meta_offset_def Let_def)
  moreover have "read_loop f 0 0 4096 = Some (min 4096 ?len)" using read_loop_complete [OF fl(3), of 0 4096 0] by simp
  ultimately show ?thesis
    using fl(1) found cnt [OF i(1)] entry [OF i(1) meta_offset_range [of tx ty tz]] t(1)
    by (simp add: read_from_meta_def Let_def METATILE_def del: of_int_of_nat_eq of_nat_add)
qed

text \<open>
  C28. Reading a tile straight from the file agrees with the in-memory reader: on a file laid out by
  \<^const>\<open>write_headers\<close> with at most seven formats (the header buffer of 4096 bytes holds no more), the
  call returns the length of the tile at the requested coordinates, its bytes are in the buffer, and
  the descriptor is closed. Short reads are allowed.
\<close>

theorem read_from_meta_tile:
  assumes w: "write_headers x y z formats (map (\<lambda>t. int (length t)) tiles) = Inr headers"
    and d: "distinct formats" and f32: "\<forall>f \<in> set formats. int32 f"
    and c32: "int32 x" "int32 y" "int32 z"
    and small: "length formats * header_size + length (concat tiles) < 2 ^ 31"
    and i: "i < length formats" "i < 7"
    and fl: "fs (fst (xyz_to_meta dir tx ty tz sty)) = Some f" "file_bytes f = headers @ concat tiles" "posix_read f"
    and t: "t = tiles ! (64 * i + nat (xyz_to_meta_offset tx ty tz))" "length t \<le> sz"
  shows "read_from_meta fs dir tx ty tz sty sz (formats ! i) = \<lparr>ret = int (length t), buf_bytes = t, fd_open = False\<rparr>"
  using assms by (rule read_from_meta_written)

text \<open>A file with one format and 64 one-byte tiles, read completely by every call.\<close>

definition example_headers :: string where
  "example_headers = concat (map encode_layout (layout_list 0 0 3 [fmtPNG]
     (map (\<lambda>t. int (length t)) (replicate 64 ''p'')) (int header_size)))"

definition example_file :: meta_file where
  "example_file = \<lparr>file_bytes = example_headers @ concat (replicate 64 ''p''),
     read_ret = (\<lambda>p n. int (min n (length (example_headers @ concat (replicate 64 ''p'')) - p)))\<rparr>"

theorem read_from_meta_tile_witness:
  "read_from_meta (\<lambda>p. Some example_file) ''/t'' 1 2 3 ''osm'' 100 ([fmtPNG] ! 0) =
     \<lparr>ret = int (length ''p''), buf_bytes = ''p'', fd_open = False\<rparr>"
proof -
  have w: "write_headers 0 0 3 [fmtPNG] (map (\<lambda>t. int (length t)) (replicate 64 ''p'')) = Inr example_headers"
    by (subst write_headers_ok) (simp add: example_headers_def)
  have posix: "posix_read example_file"
    unfolding posix_read_def example_file_def by auto
  have bytes: "file_bytes example_file = example_headers @ concat (replicate 64 ''p'')"
    by (simp only: example_file_def meta_file.simps)
  have off: "nat (xyz_to_meta_offset 1 2 3) = 17"
    by (simp add: xyz_to_meta_offset_def METATILE_def and_7_eq_mod)
  show ?thesis
    by (rule read_from_meta_tile [OF w, where f = example_file])
       (simp_all add: posix off bytes int32_def fmt_defs header_size_def length_concat sum_list_replicate)
qed

lemma meta_search_error: "meta_search header pos fmt n = Inl e \<Longrightarrow> e = - 3 \<or> e = - 4"
proof (induction header pos fmt n rule: meta_search.induct)
  case (1 header pos fmt n)
  then show ?case by (subst (asm) (2) meta_search.simps) (auto simp: Let_def split: if_splits)
qed

text \<open>
  The descriptor opened by \<^verbatim>\<open>read_from_meta\<close> is still open on return exactly for the results \<open>-3\<close>,
  \<open>-4\<close>, \<open>-5\<close> and \<open>-6\<close>: every rejected metatile file leaks one descriptor, every other outcome closes it.
\<close>

theorem read_from_meta_leaks:
  "fd_open (read_from_meta fs dir x y z sty sz fmt) \<longleftrightarrow>
     ret (read_from_meta fs dir x y z sty sz fmt) \<in> {- 3, - 4, - 5, - 6}"
  by (auto simp: read_from_meta_def Let_def dest: meta_search_error split: option.splits sum.splits if_splits)

end
