(* ===== verification/Broker_Props.thy ===== *)
theory Broker_Props
  imports Broker Meta_Tile_Props
begin

text \<open>
  Correctness of the broker: the queue invariant in every reachable state, who gets what when a
  metatile is finished, that no request is lost or answered twice over any run, that a job is not
  given out twice, when work is announced, and the schedule of the monitor thread.
\<close>

subsection \<open>Reachable states\<close>

inductive broker_step :: "broker \<Rightarrow> broker \<Rightarrow> bool" where
  backend: "handle_backend m br = Inr (out, br') \<Longrightarrow> broker_step br br'"
| frontend: "handle_frontend now c br = (out, br') \<Longrightarrow> broker_step br br'"
| monitor: "handle_monitor now s br = (out, br', stop) \<Longrightarrow> broker_step br br'"

inductive broker_reachable :: "broker \<Rightarrow> bool" where
  start: "br_queue br = empty_queue \<Longrightarrow> broker_reachable br"
| step: "broker_reachable br \<Longrightarrow> broker_step br br' \<Longrightarrow> broker_reachable br'"

lemma queue_send_tile:
  "send_tile_to_listeners q w = Inr (msgs, q') \<Longrightarrow> q' = q \<or> q' = snd (erase w q)"
  by (auto simp: send_tile_to_listeners_def split: option.splits sum.splits)

lemma queue_backend:
  "handle_backend m br = Inr (out, br') \<Longrightarrow>
     br_queue br' = br_queue br \<or> br_queue br' = snd (erase (meta m) (br_queue br)) \<or>
     (\<exists>t. br_queue br' = set_processed (t :: tile_protocol) (br_queue br))"
  by (auto simp: handle_backend_def Let_def dest: queue_send_tile split: if_splits sum.splits option.splits)

lemma queue_frontend:
  "br_queue (snd (handle_frontend now c br)) =
     snd (push now (request c) (hd (client_addresses c)) (request_priority (status (request c))) (br_queue br))"
  by (simp add: handle_frontend_def Let_def)

lemma queue_monitor:
  "handle_monitor now s br = (out, br', stop) \<Longrightarrow>
     br_queue br' = br_queue br \<or> (s = ''CLEAR TASK QUEUE'' \<and> br_queue br' = empty_queue) \<or>
     br_queue br' = resubmit_older_than now (zombie_time br) (br_queue br)"
  by (auto simp: handle_monitor_def Let_def clear_def split: if_splits)

lemma broker_step_wf: "broker_step br br' \<Longrightarrow> wf_queue (br_queue br) \<Longrightarrow> wf_queue (br_queue br')"
proof (induction rule: broker_step.induct)
  case (backend m br out br')
  then show ?case using queue_backend [OF backend(1)] by (auto simp: wf_erase wf_set_processed)
next
  case (frontend now c br out br')
  then have "br' = snd (handle_frontend now c br)" by simp
  then show ?case using frontend(2) by (simp only: queue_frontend wf_push)
next
  case (monitor now s br out br' stop)
  then show ?case using queue_monitor [OF monitor(1)] by (auto simp: wf_resubmit)
qed

text \<open>In every state the broker can reach, its task queue satisfies the queue's invariant.\<close>

theorem broker_reachable_wf:
  assumes "broker_reachable br"
  shows "wf_queue (br_queue br)"
  using assms by (induction rule: broker_reachable.induct) (simp_all add: broker_step_wf)

definition ex_broker :: broker where
  "ex_broker = \<lparr>br_queue = empty_queue, frontend_identity = ''f'', backend_identity = ''b'', zombie_time = 300\<rparr>"

definition ex_request :: "int \<Rightarrow> int \<Rightarrow> string \<Rightarrow> client_msg" where
  "ex_request x y addr = \<lparr>client_addresses = [addr], request = ex_tile x y fmtPNG\<rparr>"

theorem broker_reachable_wf_witness:
  "wf_queue (br_queue (snd (handle_frontend 10 (ex_request 1 2 ''h'') ex_broker)))"
proof (rule broker_reachable_wf, rule broker_reachable.step)
  show "broker_reachable ex_broker" by (rule broker_reachable.start) (simp add: ex_broker_def)
  show "broker_step ex_broker (snd (handle_frontend 10 (ex_request 1 2 ''h'') ex_broker))"
    by (rule broker_step.frontend [of 10 "ex_request 1 2 ''h''" _ "fst (handle_frontend 10 (ex_request 1 2 ''h'') ex_broker)"]) simp
qed

subsection \<open>Delivery of a finished metatile\<close>

text \<open>The subscribers that get an answer: not those of dirty and of bulk requests.\<close>

definition answered :: "(tile_protocol \<times> string) list \<Rightarrow> (tile_protocol \<times> string) list" where
  "answered subs = filter (\<lambda>s. status (fst s) \<noteq> cmdDirty \<and> status (fst s) \<noteq> cmdRenderBulk) subs"

definition answer_for :: "tile_protocol \<Rightarrow> tile_protocol \<Rightarrow> tile_protocol \<Rightarrow> bool" where
  "answer_for w sub t \<longleftrightarrow>
     (\<exists>d. t = sub\<lparr>status := status w, last_modified := last_modified w, tile_data := d\<rparr> \<and>
       (if status w = cmdNotDone then d = tile_data sub
        else reader_tile (tile_data w) (format sub) (tp_x sub) (tp_y sub) = Inr d))"

lemma notify_answers:
  assumes "notify_subscribers w subs = Inr msgs"
  shows "list_all2 (\<lambda>s m. \<exists>t. m = Tile_To (snd s) t \<and> answer_for w (fst s) t) (answered subs) msgs"
  using assms
proof (induction subs arbitrary: msgs)
  case Nil
  then show ?case by (simp add: answered_def)
next
  case (Cons s rest)
  obtain sub addr where s: "s = (sub, addr)" by force
  show ?case
  proof (cases "status sub \<noteq> cmdDirty \<and> status sub \<noteq> cmdRenderBulk")
    case False
    then show ?thesis using Cons.prems Cons.IH by (auto simp: s answered_def)
  next
    case True
    then obtain t' msgs' where "notify_subscribers w rest = Inr msgs'" "msgs = Tile_To addr t' # msgs'"
        "answer_for w sub t'"
      using Cons.prems by (auto simp: s Let_def answer_for_def split: if_splits sum.splits)
    then show ?thesis using True Cons.IH by (simp add: s answered_def)
  qed
qed

lemma send_tile_delivers:
  assumes "send_tile_to_listeners q w = Inr (msgs, q')"
  shows "list_all2 (\<lambda>s m. \<exists>t. m = Tile_To (snd s) t \<and> answer_for w (fst s) t)
      (answered (waiting (nodes q) (task_key w))) msgs \<and>
    nodes q' = (nodes q)(task_key w := None)"
proof (cases "nodes q (task_key w)")
  case None
  then show ?thesis using assms by (auto simp: send_tile_to_listeners_def get_def waiting_def answered_def fun_upd_idem)
next
  case (Some t)
  then have "notify_subscribers w (subscribers t) = Inr msgs" "q' = snd (erase w q)"
    using assms by (auto simp: send_tile_to_listeners_def get_def split: sum.splits)
  then show ?thesis using Some notify_answers by (simp add: waiting_def nodes_erase)
qed

text \<open>
  C13. When a worker returns a metatile that is in the queue, every waiting subscriber of that metatile gets
  exactly one message, in the order of the requests and at the address it subscribed with, except
  that dirty and bulk requests get none. The message is the subscriber's own request, with its own
  coordinates, format and client id, carrying the worker's status and time and, unless the worker
  failed, the subscriber's tile of the metatile. The task is then gone and no other task is touched.
\<close>

theorem result_delivered:
  assumes "send_tile_to_listeners q w = Inr (msgs, q')"
  shows "list_all2 (\<lambda>s m. \<exists>t. m = Tile_To (snd s) t \<and> answer_for w (fst s) t)
      (answered (waiting (nodes q) (task_key w))) msgs \<and>
    nodes q' = (nodes q)(task_key w := None)"
  using assms by (rule send_tile_delivers)

definition ex_result :: tile_protocol where
  "ex_result = (ex_tile 0 0 fmtPNG)\<lparr>status := cmdNotDone, last_modified := 7\<rparr>"

theorem result_delivered_witness:
  "\<exists>msgs q'. send_tile_to_listeners ex_queue ex_result = Inr (msgs, q') \<and>
     list_all2 (\<lambda>s m. \<exists>t. m = Tile_To (snd s) t \<and> answer_for ex_result (fst s) t)
      (answered (waiting (nodes ex_queue) (task_key ex_result))) msgs \<and>
     nodes q' = (nodes ex_queue)(task_key ex_result := None)"
proof -
  have "\<exists>msgs. notify_subscribers ex_result subs = Inr msgs" for subs
    by (induction subs) (auto simp: ex_result_def Let_def)
  then have "\<exists>r. send_tile_to_listeners ex_queue ex_result = Inr r"
    unfolding send_tile_to_listeners_def by (auto split: option.splits sum.splits) (metis sum.distinct(1))
  then obtain msgs q' where "send_tile_to_listeners ex_queue ex_result = Inr (msgs, q')" by auto
  then show ?thesis using result_delivered by blast
qed

subsection \<open>No request is lost, none is answered twice\<close>

text \<open>What an answer keeps of its request.\<close>

definition same_request :: "tile_protocol \<Rightarrow> tile_protocol \<Rightarrow> bool" where
  "same_request sub t \<longleftrightarrow> (\<exists>st lm d. t = sub\<lparr>status := st, last_modified := lm, tile_data := d\<rparr>)"

fun tile_msg_for :: "task_key \<Rightarrow> out_msg \<Rightarrow> bool" where
  "tile_msg_for k (Tile_To addr t) \<longleftrightarrow> task_key (meta_of t) = k"
| "tile_msg_for k _ \<longleftrightarrow> False"

abbreviation answer_msg :: "(tile_protocol \<times> string) \<Rightarrow> out_msg \<Rightarrow> bool" where
  "answer_msg s m \<equiv> \<exists>t. m = Tile_To (snd s) t \<and> same_request (fst s) t"

text \<open>The requests for a metatile that arrive in one poll, and those a poll's result completes.\<close>

definition poll_requests :: "task_key \<Rightarrow> poll_result \<Rightarrow> (tile_protocol \<times> string) list" where
  "poll_requests k items = (case from_client items of
     Some c \<Rightarrow> if task_key (meta_of (request c)) = k then [(request c, hd (client_addresses c))] else []
   | None \<Rightarrow> [])"

definition poll_completes :: "task_key \<Rightarrow> poll_result \<Rightarrow> broker \<Rightarrow> (tile_protocol \<times> string) list" where
  "poll_completes k items br = (case from_worker items of
     Some m \<Rightarrow> if command m = ''RESULT'' \<and> task_key (meta m) = k then waiting (nodes (br_queue br)) k else []
   | None \<Rightarrow> [])"

lemma answer_same_request: "answer_for w sub t \<Longrightarrow> same_request sub t"
  by (auto simp: answer_for_def same_request_def)

lemma same_request_key: "same_request sub t \<Longrightarrow> task_key (meta_of t) = task_key (meta_of sub)"
  by (auto simp: same_request_def meta_of_def task_key_def)

lemma answered_Nil [simp]: "answered [] = []"
  by (simp add: answered_def)

lemma answered_append [simp]: "answered (xs @ ys) = answered xs @ answered ys"
  by (simp add: answered_def)

lemma wf_waiting_key:
  "wf_queue q \<Longrightarrow> s \<in> set (waiting (nodes q) k) \<Longrightarrow> task_key (meta_of (fst s)) = k"
  by (cases "nodes q k") (auto simp: wf_queue_def wf_task_def waiting_def)

lemma filter_answers:
  assumes "list_all2 answer_msg ss ms" "\<forall>s \<in> set ss. task_key (meta_of (fst s)) = j"
  shows "filter (tile_msg_for k) ms = (if k = j then ms else [])"
  using assms
proof (induction rule: list_all2_induct)
  case Nil
  then show ?case by simp
next
  case (Cons s ss m ms)
  then obtain t where "m = Tile_To (snd s) t" "same_request (fst s) t" by auto
  then have "tile_msg_for k m \<longleftrightarrow> k = j" using Cons.prems same_request_key [of "fst s" t] by auto
  then show ?case using Cons by auto
qed

lemma backend_conserves:
  assumes wf: "wf_queue (br_queue br)" and h: "handle_backend m br = Inr (out, br')"
  shows "waiting (nodes (br_queue br)) k =
      (if command m = ''RESULT'' \<and> task_key (meta m) = k then waiting (nodes (br_queue br)) k else []) @
      waiting (nodes (br_queue br')) k"
    and "list_all2 answer_msg
      (answered (if command m = ''RESULT'' \<and> task_key (meta m) = k then waiting (nodes (br_queue br)) k else []))
      (filter (tile_msg_for k) out)"
proof -
  let ?j = "task_key (meta m)" and ?q = "br_queue br"
  have "waiting (nodes ?q) k = (if command m = ''RESULT'' \<and> ?j = k then waiting (nodes ?q) k else []) @
      waiting (nodes (br_queue br')) k \<and>
    list_all2 answer_msg (answered (if command m = ''RESULT'' \<and> ?j = k then waiting (nodes ?q) k else []))
      (filter (tile_msg_for k) out)"
  proof (cases "command m = ''RESULT''")
    case True
    then obtain q where result: "send_tile_to_listeners ?q (meta m) = Inr (out, q)" "br_queue br' = q"
      using h by (auto simp: handle_backend_def split: sum.splits)
    have d: "list_all2 (\<lambda>s m'. \<exists>t. m' = Tile_To (snd s) t \<and> answer_for (meta m) (fst s) t)
        (answered (waiting (nodes ?q) ?j)) out" "nodes q = (nodes ?q)(?j := None)"
      using send_tile_delivers [OF result(1)] by auto
    have a: "list_all2 answer_msg (answered (waiting (nodes ?q) ?j)) out"
      using d(1) by (rule list_all2_mono) (auto dest: answer_same_request)
    have "filter (tile_msg_for k) out = (if k = ?j then out else [])"
      by (rule filter_answers [OF a]) (auto simp: answered_def dest: wf_waiting_key [OF wf])
    then show ?thesis using a d(2) result True by (auto simp: waiting_def)
  next
    case False
    then have "filter (tile_msg_for k) out = []" "waiting (nodes (br_queue br')) k = waiting (nodes ?q) k"
      using h by (auto simp: handle_backend_def Let_def tq.waiting_mark split: if_splits option.splits)
    then show ?thesis using False by simp
  qed
  then show "waiting (nodes ?q) k = (if command m = ''RESULT'' \<and> ?j = k then waiting (nodes ?q) k else []) @
      waiting (nodes (br_queue br')) k"
    and "list_all2 answer_msg (answered (if command m = ''RESULT'' \<and> ?j = k then waiting (nodes ?q) k else []))
      (filter (tile_msg_for k) out)" by auto
qed

lemma publish_no_tile: "filter (tile_msg_for k) (publish_availability br) = []"
  by (simp add: publish_availability_def split: option.splits)

lemma iteration_conserves:
  assumes wf: "wf_queue (br_queue br)" and it: "broker_iteration now items br = Inr (out, br', stop)"
    and nc: "from_monitor items \<noteq> Some ''CLEAR TASK QUEUE''"
  shows "waiting (nodes (br_queue br)) k @ poll_requests k items =
      poll_completes k items br @ waiting (nodes (br_queue br')) k"
    and "list_all2 answer_msg (answered (poll_completes k items br)) (filter (tile_msg_for k) out)"
    and "wf_queue (br_queue br')"
proof -
  obtain out1 br1 where b1: "(case from_worker items of None \<Rightarrow> Inr ([], br) | Some m \<Rightarrow> handle_backend m br) = Inr (out1, br1)"
    using it by (auto simp: broker_iteration_def split: sum.splits)
  obtain out2 br2 where b2: "(case from_client items of None \<Rightarrow> ([], br1) | Some m \<Rightarrow> handle_frontend now m br1) = (out2, br2)"
    by force
  obtain out3 br3 st where b3: "(case from_monitor items of None \<Rightarrow> ([], br2, False) | Some s \<Rightarrow> handle_monitor now s br2) = (out3, br3, st)"
    by (metis prod_cases3)
  have res: "out = out1 @ out2 @ out3" "br' = br3"
    using it b1 b2 b3 by (auto simp: broker_iteration_def)
  have s1: "waiting (nodes (br_queue br)) k = poll_completes k items br @ waiting (nodes (br_queue br1)) k"
    and a1: "list_all2 answer_msg (answered (poll_completes k items br)) (filter (tile_msg_for k) out1)"
    and w1: "wf_queue (br_queue br1)"
    using b1 backend_conserves [OF wf, of _ out1 br1 k] broker_step_wf [OF broker_step.backend, of _ br out1 br1] wf
    by (cases "from_worker items"; simp add: poll_completes_def)+
  have s2: "waiting (nodes (br_queue br2)) k = waiting (nodes (br_queue br1)) k @ poll_requests k items"
    and a2: "filter (tile_msg_for k) out2 = []" and w2: "wf_queue (br_queue br2)"
    using b2 w1 queue_frontend [of now _ br1] broker_step_wf [OF broker_step.frontend _]
    by (auto simp: poll_requests_def tq.waiting_push handle_frontend_def publish_no_tile Let_def wf_push split: option.splits)
  have "waiting (nodes (br_queue br3)) k = waiting (nodes (br_queue br2)) k \<and>
      filter (tile_msg_for k) out3 = [] \<and> wf_queue (br_queue br3)"
  proof (cases "from_monitor items")
    case None
    then show ?thesis using b3 w2 by auto
  next
    case (Some s)
    then have h: "handle_monitor now s br2 = (out3, br3, st)" using b3 by simp
    have "filter (tile_msg_for k) out3 = []"
      using h by (auto simp: handle_monitor_def Let_def publish_no_tile split: if_splits)
    moreover have "waiting (nodes (br_queue br3)) k = waiting (nodes (br_queue br2)) k"
      using queue_monitor [OF h] nc Some by (auto simp: tq.waiting_resubmit)
    ultimately show ?thesis using broker_step_wf [OF broker_step.monitor [OF h] w2] by simp
  qed
  then show "waiting (nodes (br_queue br)) k @ poll_requests k items =
      poll_completes k items br @ waiting (nodes (br_queue br')) k"
    "list_all2 answer_msg (answered (poll_completes k items br)) (filter (tile_msg_for k) out)"
    "wf_queue (br_queue br')"
    using s1 a1 s2 a2 by (simp_all add: res)
qed

text \<open>Over a whole run: the requests for a metatile in order of arrival, and those completed in order.\<close>

fun run_requests :: "task_key \<Rightarrow> (int \<times> poll_result) list \<Rightarrow> (tile_protocol \<times> string) list" where
  "run_requests k [] = []"
| "run_requests k ((now, items) # polls) = poll_requests k items @ run_requests k polls"

fun run_completes :: "task_key \<Rightarrow> (int \<times> poll_result) list \<Rightarrow> broker \<Rightarrow> (tile_protocol \<times> string) list" where
  "run_completes k [] br = []"
| "run_completes k ((now, items) # polls) br = poll_completes k items br @
     (case broker_iteration now items br of
        Inr (out, br', stop) \<Rightarrow> if stop then [] else run_completes k polls br'
      | Inl e \<Rightarrow> [])"

text \<open>
  C9. Over every run of the broker loop without a clear command, and for every metatile: the requests
  that waited at the start followed by those that arrived are, in this order, the completed ones
  followed by those still waiting. And the tile messages sent for the metatile are exactly one for
  each completed request that wants an answer, in order, to the address it came from, with the
  request's own coordinates, style, format and client id.
\<close>

theorem no_request_lost:
  assumes "broker_loop polls br = Inr (out, br', False)" "wf_queue (br_queue br)"
    and "\<forall>p \<in> set polls. from_monitor (snd p) \<noteq> Some ''CLEAR TASK QUEUE''"
  shows "waiting (nodes (br_queue br)) k @ run_requests k polls =
      run_completes k polls br @ waiting (nodes (br_queue br')) k \<and>
    list_all2 (\<lambda>s m. \<exists>t. m = Tile_To (snd s) t \<and> same_request (fst s) t)
      (answered (run_completes k polls br)) (filter (tile_msg_for k) out)"
  using assms
proof (induction polls arbitrary: br out)
  case Nil
  then show ?case by simp
next
  case (Cons p polls)
  obtain now items where p: "p = (now, items)" by force
  obtain out1 br1 where it: "broker_iteration now items br = Inr (out1, br1, False)"
    using Cons.prems(1) by (auto simp: p split: sum.splits if_splits)
  then obtain out2 where loop: "broker_loop polls br1 = Inr (out2, br', False)" and out: "out = out1 @ out2"
    using Cons.prems(1) by (auto simp: p split: sum.splits)
  have nc: "from_monitor items \<noteq> Some ''CLEAR TASK QUEUE''" using Cons.prems(3) by (simp add: p)
  note step = iteration_conserves [OF Cons.prems(2) it nc]
  have ih: "waiting (nodes (br_queue br1)) k @ run_requests k polls =
      run_completes k polls br1 @ waiting (nodes (br_queue br')) k"
    "list_all2 answer_msg (answered (run_completes k polls br1)) (filter (tile_msg_for k) out2)"
    using Cons.IH [OF loop step(3)] Cons.prems(3) by auto
  have "waiting (nodes (br_queue br)) k @ run_requests k (p # polls) =
      poll_completes k items br @ waiting (nodes (br_queue br1)) k @ run_requests k polls"
    using step(1) [of k] by (simp add: p)
  then show ?case
    using ih step(2) [of k] it by (simp add: p out list_all2_appendI)
qed

definition ex_poll :: poll_result where
  "ex_poll = \<lparr>from_worker = None, from_client = Some (ex_request 1 2 ''h''), from_monitor = Some ''HEARTBEAT''\<rparr>"

theorem no_request_lost_witness:
  "\<exists>out br'. broker_loop [(10, ex_poll), (11, ex_poll)] ex_broker = Inr (out, br', False) \<and>
     run_requests (task_key (ex_tile 0 0 fmtPNG)) [(10, ex_poll), (11, ex_poll)] = waiting (nodes (br_queue br')) (task_key (ex_tile 0 0 fmtPNG))"
proof -
  let ?polls = "[(10, ex_poll), (11, ex_poll)]" and ?k = "task_key (ex_tile 0 0 fmtPNG)"
  obtain out br' where r: "broker_loop ?polls ex_broker = Inr (out, br', False)"
    by (simp add: ex_poll_def broker_iteration_def handle_frontend_def handle_monitor_def Let_def)
  have "waiting (nodes (br_queue ex_broker)) ?k @ run_requests ?k ?polls =
      run_completes ?k ?polls ex_broker @ waiting (nodes (br_queue br')) ?k"
    using no_request_lost [OF r] by (simp add: ex_broker_def ex_poll_def)
  moreover have "run_completes ?k ?polls ex_broker = []"
    by (simp add: ex_poll_def broker_iteration_def poll_completes_def case_prod_unfold Let_def)
  ultimately show ?thesis using r by (auto simp: ex_broker_def tq.waiting_empty)
qed

subsection \<open>Handing out and announcing jobs\<close>

text \<open>
  A job handed to a worker is not handed out again by the next \<^verbatim>\<open>GET_JOB\<close>: two consecutive requests for
  work are answered with jobs for different metatiles, or the second finds nothing left.
\<close>

theorem job_not_handed_out_twice:
  assumes "wf_queue (br_queue br)" "command m = ''GET_JOB''" "command m' = ''GET_JOB''"
    and "handle_backend m br = Inr ([Job a t], br1)" "handle_backend m' br1 = Inr (out, br2)"
  shows "(\<exists>a' t'. out = [Job a' t'] \<and> task_key t' \<noteq> task_key t) \<or> (\<exists>a'. out = [No_Jobs a'])"
proof -
  obtain u where u: "front (br_queue br) = Some u" "t = tile_protocol.truncate u"
      "br_queue br1 = set_processed t (br_queue br)"
    using assms(2,4) by (auto simp: handle_backend_def Let_def split: option.splits)
  have key: "task_key t = task_key u" by (simp add: u(2) task_key_def tile_protocol.defs)
  show ?thesis
  proof (cases "front (br_queue br1)")
    case None
    then show ?thesis using assms(3,5) by (auto simp: handle_backend_def)
  next
    case (Some v)
    then have "task_key v \<noteq> task_key u"
      using tq.marked_not_front [OF assms(1) u(1) key, of v] u(3) by simp
    moreover have "task_key (tile_protocol.truncate v) = task_key v" by (simp add: task_key_def tile_protocol.defs)
    ultimately show ?thesis
      using Some assms(3,5) key by (auto simp: handle_backend_def Let_def)
  qed
qed

definition get_job :: "string \<Rightarrow> worker_msg" where
  "get_job w = \<lparr>worker_addresses = [w], command = ''GET_JOB'', meta = default_tile\<rparr>"

theorem job_not_handed_out_twice_witness:
  "\<exists>t br1 out br2. handle_backend (get_job ''w1'') (ex_broker\<lparr>br_queue := ex_queue\<rparr>) = Inr ([Job [''w1''] t], br1) \<and>
     handle_backend (get_job ''w2'') br1 = Inr (out, br2) \<and>
     ((\<exists>a' t'. out = [Job a' t'] \<and> task_key t' \<noteq> task_key t) \<or> (\<exists>a'. out = [No_Jobs a']))"
proof -
  let ?br = "ex_broker\<lparr>br_queue := ex_queue\<rparr>"
  have "front ex_queue \<noteq> None"
    using front_None [of ex_queue] wf_ex_queue
    by (auto simp: wf_queue_def ex_queue_def nodes_set_processed nodes_push empty_queue_def
        task_key_def ex_tile_def meta_of_def METATILE_def intro!: exI [of _ "Key 0 0 10 ''osm''"])
  then obtain t br1 where r1: "handle_backend (get_job ''w1'') ?br = Inr ([Job [''w1''] t], br1)"
    by (auto simp: handle_backend_def get_job_def Let_def)
  obtain out br2 where r2: "handle_backend (get_job ''w2'') br1 = Inr (out, br2)"
    by (cases "front (br_queue br1)") (auto simp: handle_backend_def get_job_def Let_def)
  have "wf_queue (br_queue ?br)" using wf_ex_queue by simp
  then show ?thesis
    using job_not_handed_out_twice [OF _ _ _ r1 r2] r1 r2 by (auto simp: get_job_def)
qed

text \<open>
  When a more urgent request merges with the task that is at the front, the workers are not told:
  the priority compared after the push is already the raised one, so nothing is published although
  the highest priority of the queue has changed.
\<close>

theorem merged_front_not_announced:
  assumes "wf_queue (br_queue br)" "front (br_queue br) = Some t"
    and "task_key (meta_of (request c)) = task_key t" "priority t < request_priority (status (request c))"
  shows "fst (handle_frontend now c br) = [] \<and>
    (\<exists>t'. front (br_queue (snd (handle_frontend now c br))) = Some t' \<and> priority t < priority t')"
proof -
  let ?p = "request_priority (status (request c))"
  let ?q = "snd (push now (request c) (hd (client_addresses c)) ?p (br_queue br))"
  have t: "nodes (br_queue br) (task_key t) = Some t" "\<not> processed t"
    using tq.front_task [OF assms(1,2)] by auto
  then have "prio_of (nodes ?q) (task_key t) = max (priority t) ?p"
    using assms(3) by (simp add: prio_of_def nodes_push)
  then have "fst (handle_frontend now c br) = []"
    using assms(2) by (simp add: handle_frontend_def Let_def)
  moreover obtain v where "front ?q = Some v" "?p \<le> priority v"
    using tq.front_after_push [OF assms(1), of "request c"] t assms(3) by force
  ultimately show ?thesis using assms(4) by (auto simp: queue_frontend)
qed

theorem merged_front_not_announced_witness:
  "\<exists>t. front (br_queue (snd (handle_frontend 10 (ex_request 1 2 ''h'') ex_broker))) = Some t \<and>
     fst (handle_frontend 11 (ex_request 3 4 ''g''\<lparr>request := (ex_tile 3 4 fmtPNG)\<lparr>status := cmdRenderPrio\<rparr>\<rparr>)
       (snd (handle_frontend 10 (ex_request 1 2 ''h'') ex_broker))) = []"
proof -
  let ?br = "snd (handle_frontend 10 (ex_request 1 2 ''h'') ex_broker)"
  let ?c = "ex_request 3 4 ''g''\<lparr>request := (ex_tile 3 4 fmtPNG)\<lparr>status := cmdRenderPrio\<rparr>\<rparr>"
  have wf: "wf_queue (br_queue ?br)" by (simp add: queue_frontend wf_push ex_broker_def)
  have n: "nodes (br_queue ?br) = [Key 0 0 10 ''osm'' \<mapsto>
      add_subscriber (ex_tile 1 2 fmtPNG) ''h'' 100 (mk_task 10 (meta_of (ex_tile 1 2 fmtPNG)) 100)]"
    unfolding queue_frontend nodes_push
    by (auto simp: ex_broker_def ex_request_def empty_queue_def task_key_def ex_tile_def meta_of_def METATILE_def
        request_priority_def default_tile_def)
  have "front (br_queue ?br) \<noteq> None" using front_None [of "br_queue ?br"] wf n by (auto simp: wf_queue_def)
  then obtain t where t: "front (br_queue ?br) = Some t" by auto
  then have tn: "nodes (br_queue ?br) (task_key t) = Some t" using tq.front_task [OF wf] by simp
  have k: "task_key t = Key 0 0 10 ''osm''" and p: "priority t = 100"
    using tn unfolding n by (auto simp: add_subscriber_def set_priority_def task_add_subscriber_def mk_task_def Let_def tile_protocol.defs task.defs split: if_splits)
  have c: "task_key (meta_of (request ?c)) = Key 0 0 10 ''osm''"
    by (simp add: task_key_def meta_of_def ex_tile_def METATILE_def default_tile_def)
  have r: "request_priority (status (request ?c)) = 150" by (simp add: request_priority_def)
  have "fst (handle_frontend 11 ?c ?br) = [] \<and>
      (\<exists>t'. front (br_queue (snd (handle_frontend 11 ?c ?br))) = Some t' \<and> priority t < priority t')"
    by (rule merged_front_not_announced [OF wf t]) (simp_all only: c k p r)
  then show ?thesis using t by blast
qed

subsection \<open>The monitor thread\<close>

text \<open>The times from \<open>lo\<close> up to \<open>hi\<close> at which a timer of a given interval fires, the first time at \<open>base\<close>.\<close>

definition due :: "nat \<Rightarrow> nat \<Rightarrow> nat \<Rightarrow> nat \<Rightarrow> nat list" where
  "due iv base lo hi = filter (\<lambda>T. base \<le> T \<and> iv dvd (T - base)) [lo..<hi]"

lemma due_split: "lo \<le> m \<Longrightarrow> m \<le> hi \<Longrightarrow> due iv base lo hi = due iv base lo m @ due iv base m hi"
  using upt_add_eq_append [of lo m "hi - m"] by (simp add: due_def)

lemma due_before: "m \<le> base \<Longrightarrow> due iv base lo m = []"
  by (auto simp: due_def filter_empty_conv)

lemma due_first: "lo < m \<Longrightarrow> m \<le> lo + iv \<Longrightarrow> due iv lo lo m = [lo]"
proof -
  assume m: "lo < m" "m \<le> lo + iv"
  then have "due iv lo lo m = lo # filter (\<lambda>T. lo \<le> T \<and> iv dvd (T - lo)) [Suc lo..<m]"
    by (simp add: due_def upt_conv_Cons)
  also have "filter (\<lambda>T. lo \<le> T \<and> iv dvd (T - lo)) [Suc lo..<m] = []"
  proof -
    have "\<not> iv dvd (T - lo)" if "Suc lo \<le> T" "T < m" for T
      using that m dvd_imp_le [of iv "T - lo"] by auto
    then show ?thesis by (auto simp: filter_empty_conv)
  qed
  finally show ?thesis .
qed

lemma due_again:
  assumes "base < m" "m \<le> base + iv"
  shows "due iv base m hi = due iv (base + iv) m hi"
proof -
  have "(base \<le> T \<and> iv dvd (T - base)) = (base + iv \<le> T \<and> iv dvd (T - (base + iv)))" if "m \<le> T" for T
  proof (cases "base + iv \<le> T")
    case True
    then obtain r where "T = base + iv + r" using le_Suc_ex by blast
    then show ?thesis by simp
  next
    case False
    then show ?thesis using that assms dvd_imp_le [of iv "T - base"] by auto
  qed
  then show ?thesis unfolding due_def by (intro filter_cong) simp_all
qed

text \<open>One timer over one pass: it fires at once when its counter is zero, and the counter is moved on.\<close>

lemma due_pass:
  assumes "0 < iv" "0 < d" "t + d \<le> e" "d \<le> (if c = 0 then iv else c)"
  shows "due iv (t + c) t e =
    (if c = 0 then [t] else []) @ due iv (t + d + ((if c = 0 then iv else c) - d)) (t + d) e"
  using assms due_split [of t "t + d" e iv "t + c"] due_before [of "t + d" "t + c" iv t]
    due_first [of t "t + d" iv] due_again [of t "t + d" iv e]
  by (cases "c = 0") auto

lemma monitor_run_time:
  "0 < hi \<Longrightarrow> 0 < ri \<Longrightarrow> monitor_run hi ri n t s = (out, t', s') \<Longrightarrow> t + n \<le> t'"
proof (induction n arbitrary: t s out s')
  case (Suc n)
  obtain cmds d s1 where p: "monitor_pass hi ri s = (cmds, d, s1)" by (metis prod_cases3)
  obtain rest t1 s2 where r: "monitor_run hi ri n (t + d) s1 = (rest, t1, s2)" by (metis prod_cases3)
  have "0 < d" and "t1 = t'" using p r Suc.prems by (auto simp: monitor_pass_def Let_def split: if_splits)
  then show ?case using Suc.IH [OF Suc.prems(1,2)] r by fastforce
qed simp

lemma monitor_run_due:
  assumes "0 < hi" "0 < ri" "monitor_run hi ri n t s = (out, t', s')"
  shows "map fst (filter (\<lambda>m. snd m = ''HEARTBEAT'') out) = due hi (t + next_heartbeat s) t t' \<and>
    map fst (filter (\<lambda>m. snd m = ''RESUBMIT ZOMBIE TASKS'') out) = due ri (t + next_resubmit s) t t'"
  using assms(3)
proof (induction n arbitrary: t s out s')
  case 0
  then show ?case by (simp add: due_def)
next
  case (Suc n)
  let ?nh = "if next_heartbeat s = 0 then hi else next_heartbeat s"
  let ?nr = "if next_resubmit s = 0 then ri else next_resubmit s"
  let ?d = "min ?nh ?nr"
  let ?s = "\<lparr>next_heartbeat = ?nh - ?d, next_resubmit = ?nr - ?d\<rparr>"
  obtain rest t1 s2 where r: "monitor_run hi ri n (t + ?d) ?s = (rest, t1, s2)" by (metis prod_cases3)
  have out: "out = map (Pair t) ((if next_heartbeat s = 0 then [''HEARTBEAT''] else []) @
      (if next_resubmit s = 0 then [''RESUBMIT ZOMBIE TASKS''] else [])) @ rest" and t1: "t1 = t'"
    using Suc.prems r by (auto simp: monitor_pass_def Let_def split: if_splits)
  have d: "0 < ?d" "?d \<le> ?nh" "?d \<le> ?nr" using assms(1,2) by auto
  have e: "t + ?d \<le> t'" using monitor_run_time [OF assms(1,2) r] t1 by simp
  show ?case
    using Suc.IH [OF r [unfolded t1]] due_pass [OF assms(1) d(1) e d(2)] due_pass [OF assms(2) d(1) e d(3)]
    by (simp add: out)
qed

text \<open>
  The schedule of the monitor thread, for positive intervals: however many passes its loop makes,
  heartbeats are sent exactly at the multiples of the heartbeat interval, the start included, and resubmit
  commands exactly at the positive multiples of the resubmit interval; and every pass lets time advance.
\<close>

theorem monitor_schedule:
  assumes "0 < hi" "0 < ri" "monitor_run hi ri n 0 (monitor_start ri) = (out, t, s)"
  shows "map fst (filter (\<lambda>m. snd m = ''HEARTBEAT'') out) = filter (\<lambda>T. hi dvd T) [0..<t] \<and>
    map fst (filter (\<lambda>m. snd m = ''RESUBMIT ZOMBIE TASKS'') out) = filter (\<lambda>T. 0 < T \<and> ri dvd T) [0..<t] \<and>
    n \<le> t"
proof -
  have "(ri \<le> T \<and> ri dvd (T - ri)) = (0 < T \<and> ri dvd T)" for T
    using assms(2) by (auto simp: dvd_minus_self dest: dvd_imp_le)
  then show ?thesis
    using monitor_run_due [OF assms] monitor_run_time [OF assms] by (simp add: monitor_start_def due_def)
qed

theorem monitor_schedule_witness:
  "\<exists>out t s. monitor_run 10 60 8 0 (monitor_start 60) = (out, t, s) \<and>
     map fst (filter (\<lambda>m. snd m = ''RESUBMIT ZOMBIE TASKS'') out) = filter (\<lambda>T. 0 < T \<and> 60 dvd T) [0..<t] \<and> 8 \<le> t"
proof -
  obtain out t s where r: "monitor_run 10 60 8 0 (monitor_start 60) = (out, t, s)" by (metis prod_cases3)
  show ?thesis using monitor_schedule [OF _ _ r] r by auto
qed

end
