(* ===== verification/Consistent_Hash.thy ===== *)
theory Consistent_Hash
  imports Prelude
begin

text \<open>
  The hash ring that maps metatiles to brokers (\<^verbatim>\<open>dqueue/consistent_hash.hpp\<close>, \<^verbatim>\<open>.cpp\<close>), on a machine
  with 64-bit \<^verbatim>\<open>size_t\<close>. Boost's hash functions and its Mersenne twister are parameters: \<open>rng s i\<close> is the
  \<open>i\<close>-th number drawn after seeding with \<open>s\<close>. The generator is seeded anew by every operation that draws
  from it, so its state is not part of the ring's.
\<close>

subsection \<open>Drawing points\<close>

text \<open>
  \<^verbatim>\<open>get_value<uint64_t>\<close> draws two numbers in one expression. C++ leaves the order of the two calls to
  the compiler: \<open>left_first\<close> is its choice.
\<close>

definition get_value_64 :: "bool \<Rightarrow> (nat \<Rightarrow> 32 word) \<Rightarrow> nat \<Rightarrow> 64 word" where
  "get_value_64 left_first draws i =
     (let (a, b) = (if left_first then (draws i, draws (Suc i)) else (draws (Suc i), draws i))
      in ucast a OR push_bit 32 (ucast b))"

record ('k, 'v) hash_env =
  key_hash :: "'k \<Rightarrow> 64 word"
  val_hash :: "'v \<Rightarrow> 64 word"
  rng :: "64 word \<Rightarrow> nat \<Rightarrow> 32 word"
  left_first :: bool

definition ring_points :: "('k, 'v, 'z) hash_env_scheme \<Rightarrow> int \<Rightarrow> 'v \<Rightarrow> 64 word list" where
  "ring_points env repeats val =
     map (\<lambda>i. get_value_64 (left_first env) (rng env (val_hash env val)) (2 * i)) [0..<nat repeats]"

definition shuffle :: "64 word \<Rightarrow> 64 word" where
  "shuffle key0 =
     (let key = NOT key0 + push_bit 21 key0;
          key = key XOR (drop_bit 24 key OR push_bit 8 key);
          key = (key + push_bit 3 key) + push_bit 8 key;
          key = key XOR (drop_bit 14 key OR push_bit 18 key);
          key = (key + push_bit 2 key) + push_bit 4 key;
          key = key XOR (drop_bit 28 key OR push_bit 4 key)
      in key + push_bit 31 key)"

subsection \<open>The ordered map\<close>

text \<open>\<^verbatim>\<open>std::map\<close>, as the list of its entries in the order of their keys; an insert keeps an existing entry.\<close>

type_synonym 'v ring_t = "(64 word \<times> 'v) list"

fun ring_insert :: "64 word \<Rightarrow> 'v \<Rightarrow> 'v ring_t \<Rightarrow> 'v ring_t" where
  "ring_insert x v [] = [(x, v)]"
| "ring_insert x v ((y, w) # r) =
     (if x < y then (x, v) # (y, w) # r else if x = y then (y, w) # r else (y, w) # ring_insert x v r)"

definition ring_erase :: "64 word \<Rightarrow> 'v ring_t \<Rightarrow> 'v ring_t" where
  "ring_erase x r = filter (\<lambda>e. fst e \<noteq> x) r"

definition lower_bound :: "64 word \<Rightarrow> 'v ring_t \<Rightarrow> 'v ring_t" where
  "lower_bound h r = dropWhile (\<lambda>e. fst e < h) r"

subsection \<open>The consistent hash\<close>

record 'v consistent_hash =
  repeats :: int
  ring :: "'v ring_t"

definition mk_consistent_hash :: "int \<Rightarrow> 'v consistent_hash" where
  "mk_consistent_hash repeats0 = \<lparr>repeats = repeats0, ring = []\<rparr>"

definition ch_insert :: "('k, 'v, 'z) hash_env_scheme \<Rightarrow> 'v \<Rightarrow> 'v consistent_hash \<Rightarrow> 'v consistent_hash" where
  "ch_insert env val c =
     c\<lparr>ring := fold (\<lambda>x r. ring_insert x val r) (ring_points env (repeats c) val) (ring c)\<rparr>"

definition ch_erase :: "('k, 'v, 'z) hash_env_scheme \<Rightarrow> 'v \<Rightarrow> 'v consistent_hash \<Rightarrow> 'v consistent_hash" where
  "ch_erase env val c = c\<lparr>ring := fold ring_erase (ring_points env (repeats c) val) (ring c)\<rparr>"

definition ch_lookup :: "('k, 'v, 'z) hash_env_scheme \<Rightarrow> 'k \<Rightarrow> 'v consistent_hash \<Rightarrow> 'v option" where
  "ch_lookup env k c =
     (let h = shuffle (key_hash env k);
          itr = lower_bound h (ring c);
          itr = (if itr = [] then ring c else itr)
      in (case itr of [] \<Rightarrow> None | (p, v) # rest \<Rightarrow> Some v))"

subsection \<open>The ring as a map and as a circle\<close>

definition wf_ring :: "'v ring_t \<Rightarrow> bool" where
  "wf_ring r \<longleftrightarrow> sorted_wrt (<) (map fst r)"

lemma wf_ring_simps [simp]:
  "wf_ring []"
  "wf_ring (e # r) \<longleftrightarrow> (\<forall>q \<in> set r. fst e < fst q) \<and> wf_ring r"
  by (simp_all add: wf_ring_def)

lemma set_ring_insert: "fst ` set (ring_insert x v r) = insert x (fst ` set r)"
  by (induction x v r rule: ring_insert.induct) auto

lemma wf_ring_insert: "wf_ring r \<Longrightarrow> wf_ring (ring_insert x v r)"
proof (induction x v r rule: ring_insert.induct)
  case (2 x v y w r)
  have "y < fst q" if "y < x" "q \<in> set (ring_insert x v r)" for q
  proof -
    have "fst q \<in> insert x (fst ` set r)" using that(2) set_ring_insert [of x v r] by blast
    then show ?thesis using that(1) 2(2) by auto
  qed
  then show ?case using 2 by auto
qed simp

lemma map_of_ring_insert:
  "wf_ring r \<Longrightarrow> map_of (ring_insert x v r) = (if x \<in> fst ` set r then map_of r else (map_of r)(x \<mapsto> v))"
  by (induction x v r rule: ring_insert.induct) (auto simp: fun_eq_iff)

lemma wf_ring_erase: "wf_ring r \<Longrightarrow> wf_ring (ring_erase x r)"
  by (induction r) (auto simp: ring_erase_def)

lemma map_of_ring_erase: "map_of (ring_erase x r) = (map_of r)(x := None)"
  by (induction r) (auto simp: ring_erase_def fun_eq_iff)

text \<open>
  The specification of a lookup: the entry that comes next on the circle, which is the one whose
  distance from the key's hash, as a wrapping difference, is smallest.
\<close>

definition next_on_ring :: "64 word \<Rightarrow> (64 word \<rightharpoonup> 'v) \<Rightarrow> 64 word \<Rightarrow> bool" where
  "next_on_ring h m p \<longleftrightarrow> p \<in> dom m \<and> (\<forall>q \<in> dom m. p - h \<le> q - h)"

lemma next_on_ring_unique: "next_on_ring h m p \<Longrightarrow> next_on_ring h m q \<Longrightarrow> p = q"
  by (metis next_on_ring_def antisym_conv diff_add_cancel)

lemma next_above:
  fixes h p q :: "64 word"
  assumes "h \<le> p" "p \<le> q \<or> q < h"
  shows "p - h \<le> q - h"
  using assms by uint_arith

lemma next_wrapped:
  fixes h p q :: "64 word"
  assumes "p < h" "q < h" "p \<le> q"
  shows "p - h \<le> q - h"
  using assms by uint_arith

lemma wf_ring_sorted: "wf_ring r \<Longrightarrow> r = xs @ (p, v) # ys \<Longrightarrow> q \<in> set ys \<Longrightarrow> p < fst q"
  by (auto simp: wf_ring_def sorted_wrt_append)

lemma wf_ring_map_of: "wf_ring r \<Longrightarrow> (p, v) \<in> set r \<Longrightarrow> map_of r p = Some v"
  by (simp add: wf_ring_def strict_sorted_iff)

definition ring_lookup :: "64 word \<Rightarrow> 'v ring_t \<Rightarrow> 'v option" where
  "ring_lookup h r = (case (if lower_bound h r = [] then r else lower_bound h r) of [] \<Rightarrow> None | (p, v) # rest \<Rightarrow> Some v)"

lemma ch_lookup_ring: "ch_lookup env k c = ring_lookup (shuffle (key_hash env k)) (ring c)"
  by (simp add: ch_lookup_def ring_lookup_def Let_def)

lemma ring_lookup_next:
  assumes "wf_ring r" "r \<noteq> []"
  obtains p v where "next_on_ring h (map_of r) p" "map_of r p = Some v" "ring_lookup h r = Some v"
proof (cases "lower_bound h r")
  case Nil
  then obtain p v rest where r: "r = (p, v) # rest" using assms(2) by (cases r) auto
  have lt: "\<forall>e \<in> set r. fst e < h" using Nil by (auto simp: lower_bound_def)
  have "next_on_ring h (map_of r) p"
    using lt assms(1) by (auto simp: r next_on_ring_def dom_map_of_conv_image_fst less_imp_le intro!: next_wrapped split: if_splits)
  then show thesis using that Nil r by (simp add: ring_lookup_def)
next
  case (Cons e rest)
  obtain p v where e: "e = (p, v)" by force
  have r: "r = takeWhile (\<lambda>e. fst e < h) r @ (p, v) # rest" and "\<not> p < h"
    using Cons by (auto simp: lower_bound_def e dropWhile_eq_Cons_conv)
  then have hp: "h \<le> p" by simp
  have "q = p \<or> p < q \<or> q < h" if q: "q \<in> fst ` set r" for q
  proof -
    obtain f where f: "f \<in> set r" "fst f = q" using q by auto
    then have "f \<in> set (takeWhile (\<lambda>e. fst e < h) r) \<or> f = (p, v) \<or> f \<in> set rest"
      by (metis Un_iff r set_ConsD set_append)
    then show ?thesis using f(2) set_takeWhileD wf_ring_sorted [OF assms(1) r] by fastforce
  qed
  then have "next_on_ring h (map_of r) p"
    using hp r unfolding next_on_ring_def dom_map_of_conv_image_fst
    by (metis fst_conv imageI in_set_conv_decomp next_above order.strict_implies_order order_refl)
  moreover have "map_of r p = Some v" by (rule wf_ring_map_of [OF assms(1)]) (metis in_set_conv_decomp r)
  ultimately show thesis using that Cons e by (simp add: ring_lookup_def)
qed

lemma ring_lookup_iff:
  assumes "wf_ring r" "next_on_ring h (map_of r) p"
  shows "ring_lookup h r = map_of r p"
proof -
  have "r \<noteq> []" using assms(2) by (auto simp: next_on_ring_def)
  then show ?thesis using ring_lookup_next [OF assms(1), of h] next_on_ring_unique assms(2) by metis
qed

lemma ring_lookup_None: "ring_lookup h r = None \<longleftrightarrow> r = []"
  by (auto simp: ring_lookup_def lower_bound_def split: list.splits if_splits)

subsection \<open>The points of a value\<close>

lemma fold_ring_insert:
  assumes "wf_ring r"
  shows "wf_ring (fold (\<lambda>x r. ring_insert x v r) ps r) \<and>
    map_of (fold (\<lambda>x r. ring_insert x v r) ps r) =
      (\<lambda>p. if p \<in> set ps \<and> map_of r p = None then Some v else map_of r p)"
  using assms
proof (induction ps arbitrary: r)
  case (Cons x ps)
  have "x \<in> fst ` set r \<longleftrightarrow> map_of r x \<noteq> None" by (simp add: map_of_eq_None_iff)
  then show ?case using Cons wf_ring_insert [OF Cons.prems, of x v] by (auto simp: map_of_ring_insert fun_eq_iff)
qed simp

lemma fold_ring_erase:
  assumes "wf_ring r"
  shows "wf_ring (fold ring_erase ps r) \<and>
    map_of (fold ring_erase ps r) = (\<lambda>p. if p \<in> set ps then None else map_of r p)"
  using assms
proof (induction ps arbitrary: r)
  case (Cons x ps)
  then show ?case using wf_ring_erase [OF Cons.prems, of x] by (auto simp: map_of_ring_erase fun_eq_iff)
qed simp

abbreviation ring_map :: "'v consistent_hash \<Rightarrow> 64 word \<rightharpoonup> 'v" where
  "ring_map c \<equiv> map_of (ring c)"

lemma ring_ch_insert:
  "wf_ring (ring c) \<Longrightarrow> wf_ring (ring (ch_insert env v c)) \<and> repeats (ch_insert env v c) = repeats c \<and>
     ring_map (ch_insert env v c) =
       (\<lambda>p. if p \<in> set (ring_points env (repeats c) v) \<and> ring_map c p = None then Some v else ring_map c p)"
  by (simp add: ch_insert_def fold_ring_insert)

lemma ring_ch_erase:
  "wf_ring (ring c) \<Longrightarrow> wf_ring (ring (ch_erase env v c)) \<and> repeats (ch_erase env v c) = repeats c \<and>
     ring_map (ch_erase env v c) = (\<lambda>p. if p \<in> set (ring_points env (repeats c) v) then None else ring_map c p)"
  by (simp add: ch_erase_def fold_ring_erase)

lemma ring_lookup_map:
  assumes "wf_ring r" "wf_ring r'" "map_of r = map_of r'"
  shows "ring_lookup h r = ring_lookup h r'"
proof (cases "r = []")
  case True
  then have "r' = []" using assms(3) by (cases r') (auto simp: fun_eq_iff split: if_splits)
  then show ?thesis using True by simp
next
  case False
  then obtain p where "next_on_ring h (map_of r) p" using ring_lookup_next [OF assms(1)] by metis
  then show ?thesis using ring_lookup_iff assms by metis
qed

subsection \<open>The interface of the ring\<close>

text \<open>
  \<open>inv U\<close> is the invariant for rings whose values come from \<open>U\<close>, \<open>members\<close> the values on the ring. A client
  that adds and removes values sees keys move only to added values and away from removed ones.
\<close>

locale hash_ring =
  fixes look :: "'k \<Rightarrow> 'r \<Rightarrow> 'v option" and add del :: "'v \<Rightarrow> 'r \<Rightarrow> 'r"
    and inv :: "'v set \<Rightarrow> 'r \<Rightarrow> bool" and members :: "'r \<Rightarrow> 'v set"
  assumes inv_add: "inv U r \<Longrightarrow> v \<in> U \<Longrightarrow> inv U (add v r)"
    and inv_del: "inv U r \<Longrightarrow> v \<in> U \<Longrightarrow> inv U (del v r)"
    and members_add: "inv U r \<Longrightarrow> v \<in> U \<Longrightarrow> members (add v r) = insert v (members r)"
    and members_del: "inv U r \<Longrightarrow> v \<in> U \<Longrightarrow> members (del v r) = members r - {v}"
    and look_member: "inv U r \<Longrightarrow> look k r = Some v \<Longrightarrow> v \<in> members r"
    and look_total: "inv U r \<Longrightarrow> members r \<noteq> {} \<Longrightarrow> look k r \<noteq> None"
    and look_add: "inv U r \<Longrightarrow> v \<in> U \<Longrightarrow> look k (add v r) = look k r \<or> look k (add v r) = Some v"
    and look_del: "inv U r \<Longrightarrow> v \<in> U \<Longrightarrow> look k r \<noteq> Some v \<Longrightarrow> look k (del v r) = look k r"
    and members_univ: "inv U r \<Longrightarrow> members r \<subseteq> U"
    and finite_members: "inv U r \<Longrightarrow> finite (members r)"
    and look_members: "inv U r \<Longrightarrow> inv U r' \<Longrightarrow> members r = members r' \<Longrightarrow> look k r = look k r'"
begin

lemma fold_add:
  "inv U r \<Longrightarrow> set vs \<subseteq> U \<Longrightarrow> inv U (fold add vs r) \<and> members (fold add vs r) = set vs \<union> members r \<and>
     (look k (fold add vs r) = look k r \<or> look k (fold add vs r) \<in> Some ` set vs)"
proof (induction vs arbitrary: r)
  case (Cons v vs)
  then have v: "v \<in> U" "set vs \<subseteq> U" by auto
  show ?case
    using Cons.IH [OF inv_add [OF Cons.prems(1) v(1)] v(2)] members_add [OF Cons.prems(1) v(1)]
      look_add [OF Cons.prems(1) v(1), of k] by (simp; metis image_insert insertI1 insertI2)
qed simp

lemma fold_del:
  "inv U r \<Longrightarrow> set vs \<subseteq> U \<Longrightarrow> inv U (fold del vs r) \<and> members (fold del vs r) = members r - set vs \<and>
     (look k r \<notin> Some ` set vs \<longrightarrow> look k (fold del vs r) = look k r)"
proof (induction vs arbitrary: r)
  case (Cons v vs)
  then have v: "v \<in> U" "set vs \<subseteq> U" by auto
  show ?case
    using Cons.IH [OF inv_del [OF Cons.prems(1) v(1)] v(2)] members_del [OF Cons.prems(1) v(1)]
      look_del [OF Cons.prems(1) v(1), of k] by (simp add: Diff_insert2 [symmetric])
qed simp

lemma rebalance:
  assumes "inv U r" "inv U r'" "look k r = Some w" "w \<in> members r'"
  shows "look k r' = Some w \<or> (\<exists>v \<in> members r' - members r. look k r' = Some v)"
proof -
  obtain ds as where ds: "set ds = members r - members r'" and as: "set as = members r' - members r"
    using finite_list finite_members [OF assms(1)] finite_members [OF assms(2)] by (meson finite_Diff)
  have U: "set ds \<subseteq> U" "set as \<subseteq> U" using ds as members_univ assms(1,2) by blast+
  let ?r1 = "fold del ds r"
  have r1: "inv U ?r1" "members ?r1 = members r - set ds" "look k ?r1 = Some w"
    using fold_del [OF assms(1) U(1), of k] assms(3,4) ds by auto
  have r2: "inv U (fold add as ?r1)" "members (fold add as ?r1) = members r'"
      "look k (fold add as ?r1) = Some w \<or> look k (fold add as ?r1) \<in> Some ` set as"
    using fold_add [OF r1(1) U(2), of k] r1 as ds by auto
  then show ?thesis using look_members [OF r2(1) assms(2) r2(2), of k] as by auto
qed

end

definition ring_members :: "'v consistent_hash \<Rightarrow> 'v set" where
  "ring_members c = snd ` set (ring c)"

text \<open>
  The invariant: at least one point per value, the points of the values in \<open>U\<close> do not collide, and
  every value on the ring holds exactly its own points.
\<close>

definition ring_inv :: "('k, 'v, 'z) hash_env_scheme \<Rightarrow> int \<Rightarrow> 'v set \<Rightarrow> 'v consistent_hash \<Rightarrow> bool" where
  "ring_inv env n U c \<longleftrightarrow> repeats c = n \<and> 0 < n \<and> wf_ring (ring c) \<and> ring_members c \<subseteq> U \<and>
     (\<forall>v \<in> U. \<forall>w \<in> U. v \<noteq> w \<longrightarrow> set (ring_points env (repeats c) v) \<inter> set (ring_points env (repeats c) w) = {}) \<and>
     (\<forall>p v. ring_map c p = Some v \<longleftrightarrow> v \<in> ring_members c \<and> p \<in> set (ring_points env (repeats c) v))"

lemma ring_members_dom: "wf_ring (ring c) \<Longrightarrow> ring_members c = {v. \<exists>p. ring_map c p = Some v}"
  by (force simp: ring_members_def image_iff dest: map_of_SomeD wf_ring_map_of)

lemma ring_points_nonempty: "0 < n \<Longrightarrow> \<exists>p. p \<in> set (ring_points env n v)"
  by (auto simp: ring_points_def)

lemma ring_inv_I:
  assumes "ring_inv env n U c" "wf_ring (ring c')" "repeats c' = repeats c" "M \<subseteq> U"
    and "\<And>p v. ring_map c' p = Some v \<longleftrightarrow> v \<in> M \<and> p \<in> set (ring_points env (repeats c) v)"
  shows "ring_inv env n U c' \<and> ring_members c' = M"
proof -
  have "ring_members c' = M"
    using assms(1,5) ring_members_dom [OF assms(2)] ring_points_nonempty by (auto simp: ring_inv_def)
  moreover have "repeats c = n" using assms(1) by (simp add: ring_inv_def)
  ultimately show ?thesis using assms unfolding ring_inv_def by (intro conjI) (simp_all, blast)
qed

lemma ring_inv_wf: "ring_inv env n U c \<Longrightarrow> wf_ring (ring c)"
  by (simp add: ring_inv_def)

lemma ring_inv_insert:
  assumes "ring_inv env n U c" "v \<in> U"
  shows "ring_inv env n U (ch_insert env v c) \<and> ring_members (ch_insert env v c) = insert v (ring_members c)"
proof (rule ring_inv_I [OF assms(1)])
  note ins = ring_ch_insert [OF ring_inv_wf [OF assms(1)], of env v]
  show "wf_ring (ring (ch_insert env v c))" "repeats (ch_insert env v c) = repeats c" using ins by auto
  show "insert v (ring_members c) \<subseteq> U" using assms by (simp add: ring_inv_def)
  show "ring_map (ch_insert env v c) p = Some w \<longleftrightarrow>
      w \<in> insert v (ring_members c) \<and> p \<in> set (ring_points env (repeats c) w)" for p w
  proof (cases "ring_map c p")
    case None
    then have "p \<notin> set (ring_points env (repeats c) w)" if "w \<in> ring_members c"
      using that assms(1) unfolding ring_inv_def by (metis option.distinct(1))
    then show ?thesis using ins None by auto
  next
    case (Some u)
    then have "u \<in> ring_members c" "p \<in> set (ring_points env (repeats c) u)" using assms(1) by (auto simp: ring_inv_def)
    then have "u = w" if "w \<in> insert v (ring_members c)" "p \<in> set (ring_points env (repeats c) w)"
      using that assms unfolding ring_inv_def by blast
    moreover have "ring_map (ch_insert env v c) p = Some u" using ins Some by auto
    moreover have "u \<in> ring_members c" "p \<in> set (ring_points env (repeats c) u)"
      using Some assms(1) by (auto simp: ring_inv_def)
    ultimately show ?thesis by auto
  qed
qed

lemma ring_inv_erase:
  assumes "ring_inv env n U c" "v \<in> U"
  shows "ring_inv env n U (ch_erase env v c) \<and> ring_members (ch_erase env v c) = ring_members c - {v}"
proof (rule ring_inv_I [OF assms(1)])
  note del = ring_ch_erase [OF ring_inv_wf [OF assms(1)], of env v]
  show "wf_ring (ring (ch_erase env v c))" "repeats (ch_erase env v c) = repeats c" using del by auto
  show "ring_members c - {v} \<subseteq> U" using assms by (auto simp: ring_inv_def)
  show "ring_map (ch_erase env v c) p = Some w \<longleftrightarrow>
      w \<in> ring_members c - {v} \<and> p \<in> set (ring_points env (repeats c) w)" for p w
  proof -
    have "p \<notin> set (ring_points env (repeats c) v)" if "ring_map c p = Some w" "w \<noteq> v"
      using that assms unfolding ring_inv_def by blast
    moreover have "ring_map c p = Some w \<longleftrightarrow> w \<in> ring_members c \<and> p \<in> set (ring_points env (repeats c) w)"
      using assms(1) by (simp add: ring_inv_def)
    ultimately show ?thesis using del by auto
  qed
qed

text \<open>
  Without assuming that the points of different values differ: a ring whose entries are points of their values.
  A value keeps no entry after it is erased, though it may lose entries when another one is.
\<close>

definition ring_sound :: "('k, 'v, 'z) hash_env_scheme \<Rightarrow> int \<Rightarrow> 'v consistent_hash \<Rightarrow> bool" where
  "ring_sound env n c \<longleftrightarrow> repeats c = n \<and> wf_ring (ring c) \<and>
     (\<forall>p v. ring_map c p = Some v \<longrightarrow> p \<in> set (ring_points env n v))"

lemma ring_sound_insert:
  "ring_sound env n c \<Longrightarrow> ring_sound env n (ch_insert env v c) \<and> ring_members (ch_insert env v c) \<subseteq> insert v (ring_members c)"
  using ring_ch_insert [of c env v] ring_members_dom [of c] ring_members_dom [of "ch_insert env v c"]
  by (auto simp: ring_sound_def split: if_splits)

lemma ring_sound_erase:
  "ring_sound env n c \<Longrightarrow> ring_sound env n (ch_erase env v c) \<and> ring_members (ch_erase env v c) \<subseteq> ring_members c - {v}"
  using ring_ch_erase [of c env v] ring_members_dom [of c] ring_members_dom [of "ch_erase env v c"]
  by (auto simp: ring_sound_def split: if_splits)

lemma ring_sound_lookup: "ring_sound env n c \<Longrightarrow> ch_lookup env k c = Some v \<Longrightarrow> v \<in> ring_members c"
  using ring_lookup_next [of "ring c"] ring_members_dom [of c] ring_lookup_None [of _ "ring c"]
  by (metis (mono_tags, lifting) ch_lookup_ring mem_Collect_eq option.distinct(1) ring_sound_def)

lemma next_on_ring_insert:
  assumes "next_on_ring h m p" "next_on_ring h m' p'" "\<And>q. m q \<noteq> None \<Longrightarrow> m' q = m q"
    and "\<And>q. m q = None \<Longrightarrow> m' q = None \<or> m' q = Some v"
  shows "m' p' = m p \<or> m' p' = Some v"
proof (cases "m p'")
  case None
  then show ?thesis using assms(2) assms(4) [OF None] by (auto simp: next_on_ring_def)
next
  case (Some w)
  then have "next_on_ring h m p'" using assms(2,3) by (auto simp: next_on_ring_def dom_def)
  then show ?thesis using next_on_ring_unique [OF assms(1)] assms(3) Some by auto
qed

lemma lookup_ch_insert:
  assumes "wf_ring (ring c)"
  shows "ch_lookup env k (ch_insert env v c) = ch_lookup env k c \<or> ch_lookup env k (ch_insert env v c) = Some v"
proof -
  let ?h = "shuffle (key_hash env k)" and ?c = "ch_insert env v c"
  note ins = ring_ch_insert [OF assms, of env v]
  show ?thesis
  proof (cases "ring ?c = [] \<or> ring c = []")
    case True
    then consider "ring ?c = []" "ring c = []" | "ring c = []" "ring ?c \<noteq> []"
      using ins by (metis (no_types, lifting) map_of_eq_empty_iff)
    then show ?thesis
    proof cases
      case 2
      obtain p w where "ring_map ?c p = Some w" "ring_lookup ?h (ring ?c) = Some w"
        using ring_lookup_next [of "ring ?c" ?h] ins 2 by metis
      then show ?thesis using ins 2 by (auto simp: ch_lookup_ring split: if_splits)
    qed (simp add: ch_lookup_ring)
  next
    case False
    obtain p where p: "next_on_ring ?h (ring_map c) p" "ring_lookup ?h (ring c) = ring_map c p"
      using ring_lookup_next [OF assms, of ?h] False by metis
    obtain p' where p': "next_on_ring ?h (ring_map ?c) p'" "ring_lookup ?h (ring ?c) = ring_map ?c p'"
      using ring_lookup_next [of "ring ?c" ?h] ins False by metis
    show ?thesis using next_on_ring_insert [OF p(1) p'(1), of v] ins p(2) p'(2) by (auto simp: ch_lookup_ring)
  qed
qed

lemma lookup_ch_erase:
  assumes "ring_inv env n U c" "v \<in> U" "ch_lookup env k c \<noteq> Some v"
  shows "ch_lookup env k (ch_erase env v c) = ch_lookup env k c"
proof (cases "ring c = []")
  case True
  then have "ring (ch_erase env v c) = []"
    using ring_ch_erase [OF ring_inv_wf [OF assms(1)], of env v] by (simp add: fun_eq_iff flip: map_of_eq_empty_iff)
  then show ?thesis using True by (simp add: ch_lookup_ring)
next
  case False
  let ?h = "shuffle (key_hash env k)" and ?c = "ch_erase env v c"
  note del = ring_ch_erase [OF ring_inv_wf [OF assms(1)], of env v]
  obtain p w where p: "next_on_ring ?h (ring_map c) p" "ring_map c p = Some w" "ch_lookup env k c = Some w"
    using ring_lookup_next [OF ring_inv_wf [OF assms(1)] False, of ?h] by (metis ch_lookup_ring)
  then have w: "w \<noteq> v" using assms(3) by auto
  then have "p \<notin> set (ring_points env (repeats c) v)" using p(2) assms(1,2) unfolding ring_inv_def by blast
  then have "next_on_ring ?h (ring_map ?c) p" "ring_map ?c p = Some w"
    using p(1,2) del by (auto simp: next_on_ring_def dom_def)
  then show ?thesis using ring_lookup_iff del p(3) by (metis ch_lookup_ring)
qed

interpretation ch: hash_ring "ch_lookup env" "ch_insert env" "ch_erase env" "ring_inv env n" ring_members
  for n and env :: "('k, 'v, 'z) hash_env_scheme"
proof (unfold_locales, goal_cases)
  case (5 U r k v)
  then obtain p where "ring_map r p = Some v"
    using ring_lookup_next [OF ring_inv_wf [OF 5(1)]] ring_lookup_None
    by (metis ch_lookup_ring option.distinct(1))
  then show ?case using ring_members_dom [OF ring_inv_wf [OF 5(1)]] by auto
next
  case (6 U r k)
  then show ?case by (auto simp: ch_lookup_ring ring_lookup_None ring_members_def)
next
  case (7 U r v k)
  then show ?case using lookup_ch_insert [OF ring_inv_wf] by metis
next
  case (11 U r r' k)
  then have "ring_map r p = Some v \<longleftrightarrow> ring_map r' p = Some v" for p v by (simp add: ring_inv_def)
  then have "ring_map r = ring_map r'" by (metis not_Some_eq ext)
  then show ?case
    using ring_lookup_map [OF ring_inv_wf [OF 11(1)] ring_inv_wf [OF 11(2)]] by (simp add: ch_lookup_ring)
qed (simp_all add: ring_inv_insert ring_inv_erase lookup_ch_erase, simp_all add: ring_inv_def ring_members_def)

subsection \<open>Properties\<close>

text \<open>
  A lookup in a ring with ordered entries returns the value of the entry that comes next on the
  64-bit circle after the shuffled hash of the key, around zero when necessary; it finds nothing only
  on an empty ring.
\<close>

theorem lookup_next_on_ring:
  assumes "wf_ring (ring c)"
  shows "(ch_lookup env k c = None \<longleftrightarrow> ring c = []) \<and>
    (\<forall>p. next_on_ring (shuffle (key_hash env k)) (map_of (ring c)) p \<longrightarrow> ch_lookup env k c = map_of (ring c) p) \<and>
    (ring c \<noteq> [] \<longrightarrow> (\<exists>p. next_on_ring (shuffle (key_hash env k)) (map_of (ring c)) p))"
  using ring_lookup_iff [OF assms] ring_lookup_next [OF assms]
  by (simp add: ch_lookup_ring ring_lookup_None) metis

definition ex_hash_env :: "(nat, nat) hash_env" where
  "ex_hash_env = \<lparr>key_hash = of_nat, val_hash = of_nat, rng = (\<lambda>s i. ucast s + 16 * of_nat i), left_first = True\<rparr>"

definition ex_ring :: "nat consistent_hash" where
  "ex_ring = ch_insert ex_hash_env 7 (ch_insert ex_hash_env 6 (mk_consistent_hash 2))"

lemma ex_points: "ring_points ex_hash_env 2 v = [ucast (ucast (of_nat v :: 64 word) :: 32 word) OR push_bit 32 (ucast (ucast (of_nat v :: 64 word) + 16 :: 32 word)),
    ucast (ucast (of_nat v :: 64 word) + 32 :: 32 word) OR push_bit 32 (ucast (ucast (of_nat v :: 64 word) + 48 :: 32 word))]"
proof -
  have "[0..<nat 2] = [0, 1]" by (simp add: upt_rec)
  then show ?thesis by (simp add: ring_points_def ex_hash_env_def get_value_64_def)
qed

lemma ex_ring_inv: "ring_inv ex_hash_env 2 {6, 7, 8} ex_ring" "ring_members ex_ring = {6, 7}"
proof -
  have "ring_inv ex_hash_env 2 {6, 7, 8} (mk_consistent_hash 2)"
    by (simp add: ring_inv_def mk_consistent_hash_def ring_members_def ex_points)
  then have "ring_inv ex_hash_env 2 {6, 7, 8} (ch_insert ex_hash_env 6 (mk_consistent_hash 2)) \<and>
      ring_members (ch_insert ex_hash_env 6 (mk_consistent_hash 2)) = {6}"
    using ring_inv_insert [of ex_hash_env 2 "{6, 7, 8}" _ 6] by (simp add: mk_consistent_hash_def ring_members_def)
  then show "ring_inv ex_hash_env 2 {6, 7, 8} ex_ring" "ring_members ex_ring = {6, 7}"
    using ring_inv_insert [of ex_hash_env 2 "{6, 7, 8}" _ 7] unfolding ex_ring_def by auto
qed

theorem lookup_next_on_ring_witness:
  "wf_ring (ring ex_ring) \<and> (ch_lookup ex_hash_env 5 ex_ring = None \<longleftrightarrow> ring ex_ring = [])"
  using lookup_next_on_ring [OF ring_inv_wf [OF ex_ring_inv(1)], of ex_hash_env 5] ring_inv_wf [OF ex_ring_inv(1)] by auto

text \<open>
  Rebalancing: take two rings over values with pairwise different points. A key whose value is still
  on the second ring keeps it, unless it moves to a value that is on the second ring only. So a broker
  that comes or goes moves only the keys it gains or loses.
\<close>

theorem ring_rebalance:
  assumes "ring_inv env n U c" "ring_inv env n U c'" "ch_lookup env k c = Some w" "w \<in> ring_members c'"
  shows "ch_lookup env k c' = Some w \<or> (\<exists>v \<in> ring_members c' - ring_members c. ch_lookup env k c' = Some v)"
  using assms by (rule ch.rebalance)

theorem ring_rebalance_witness:
  "\<exists>w \<in> {6, 7}. ch_lookup ex_hash_env 5 ex_ring = Some w \<and>
     ch_lookup ex_hash_env 5 (ch_insert ex_hash_env 8 ex_ring) \<in> {Some w, Some 8}"
proof -
  obtain w where w: "ch_lookup ex_hash_env 5 ex_ring = Some w"
    using ch.look_total [OF ex_ring_inv(1), of 5] ex_ring_inv(2) by auto
  then have "w \<in> {6, 7}" using ch.look_member [OF ex_ring_inv(1)] ex_ring_inv(2) by auto
  moreover have "ring_inv ex_hash_env 2 {6, 7, 8} (ch_insert ex_hash_env 8 ex_ring) \<and>
      ring_members (ch_insert ex_hash_env 8 ex_ring) = {6, 7, 8}"
    using ring_inv_insert [OF ex_ring_inv(1), of 8] ex_ring_inv(2) by auto
  ultimately show ?thesis
    using ring_rebalance [OF ex_ring_inv(1) _ w, of "ch_insert ex_hash_env 8 ex_ring"] w ex_ring_inv(2) by auto
qed

text \<open>
  Agreement: two rings over values with pairwise different points that hold the same values send
  every key to the same value, whatever the sequences of insertions and erasures that built them.
\<close>

theorem ring_agreement:
  assumes "ring_inv env n U c" "ring_inv env n U c'" "ring_members c = ring_members c'"
  shows "ch_lookup env k c = ch_lookup env k c'"
  using assms by (rule ch.look_members)

theorem ring_agreement_witness:
  "ch_lookup ex_hash_env 5 (ch_erase ex_hash_env 8 (ch_insert ex_hash_env 8 ex_ring)) = ch_lookup ex_hash_env 5 ex_ring"
proof (rule ring_agreement [OF _ ex_ring_inv(1)])
  have "ring_inv ex_hash_env 2 {6, 7, 8} (ch_insert ex_hash_env 8 ex_ring)"
      "ring_members (ch_insert ex_hash_env 8 ex_ring) = {6, 7, 8}"
    using ring_inv_insert [OF ex_ring_inv(1), of 8] ex_ring_inv(2) by auto
  then show "ring_inv ex_hash_env 2 {6, 7, 8} (ch_erase ex_hash_env 8 (ch_insert ex_hash_env 8 ex_ring))"
      "ring_members (ch_erase ex_hash_env 8 (ch_insert ex_hash_env 8 ex_ring)) = ring_members ex_ring"
    using ring_inv_erase [of ex_hash_env 2 "{6, 7, 8}" "ch_insert ex_hash_env 8 ex_ring" 8] ex_ring_inv(2) by auto
qed

end
