(* ===== verification/Zmq_Handler.thy ===== *)
theory Zmq_Handler
  imports Meta_Tile Consistent_Hash "HOL-Library.AList"
begin

text \<open>
  The handler's side of the 0MQ backend (\<^verbatim>\<open>dqueue/zmq_backend.cpp\<close>): which brokers are alive, judged by
  their heartbeats, and to which of them a job goes. Every operation takes the clock's reading and
  whether the 0MQ library accepts a connection to an endpoint. It returns the state also when it throws.
\<close>

subsection \<open>Connections\<close>

record zmq_backend_common =
  req_connected :: "string list"
  sub_connected :: "string list"
  config_sub_eps :: "string list"

definition mk_common :: zmq_backend_common where
  "mk_common = \<lparr>req_connected = [], sub_connected = [], config_sub_eps = []\<rparr>"

fun connect_all :: "(string \<Rightarrow> bool) \<Rightarrow> string \<Rightarrow> string list \<Rightarrow> string list \<Rightarrow> string list \<times> (cpp_error + unit)" where
  "connect_all connect kind [] done = (done, Inr ())"
| "connect_all connect kind (ep # eps) done =
     (if connect ep then connect_all connect kind eps (done @ [ep])
      else (done, Inl (Broker_Error (''Cannot connect '' @ kind @ '' socket.''))))"

definition common_setup :: "(string \<Rightarrow> bool) \<Rightarrow> string list \<Rightarrow> string list \<Rightarrow> zmq_backend_common \<Rightarrow>
    zmq_backend_common \<times> (cpp_error + unit)" where
  "common_setup connect req_eps sub_eps c =
     (if length req_eps \<noteq> length sub_eps
      then (c, Inl (Runtime_Error (''Request endpoints size ('' @ dec_nat (length req_eps) @
             '') doesn't match subscription endpoints size ('' @ dec_nat (length sub_eps) @
             ''), which is so highly suspicious that it's an error.'')))
      else (case connect_all connect ''XREQ'' req_eps (req_connected c) of
              (rs, Inl e) \<Rightarrow> (c\<lparr>req_connected := rs\<rparr>, Inl e)
            | (rs, Inr _) \<Rightarrow>
              (case connect_all connect ''SUB'' sub_eps (sub_connected c) of
                 (ss, Inl e) \<Rightarrow> (c\<lparr>req_connected := rs, sub_connected := ss\<rparr>, Inl e)
               | (ss, Inr _) \<Rightarrow> (c\<lparr>req_connected := rs, sub_connected := ss, config_sub_eps := sub_eps\<rparr>, Inr ()))))"

text \<open>A new socket is connected first and replaces the old one only when that has succeeded.\<close>

definition resubscribe :: "(string \<Rightarrow> bool) \<Rightarrow> zmq_backend_common \<Rightarrow> zmq_backend_common \<times> (cpp_error + unit)" where
  "resubscribe connect c =
     (case connect_all connect ''SUB'' (config_sub_eps c) [] of
        (ss, Inl e) \<Rightarrow> (c, Inl e)
      | (ss, Inr _) \<Rightarrow> (c\<lparr>sub_connected := ss\<rparr>, Inr ()))"

subsection \<open>State\<close>

record heartbeat =
  hb_time :: int
  queue_size :: "64 word"
  is_live :: bool

text \<open>The default time is invalid in the code, and overwritten right after.\<close>

definition mk_heartbeat :: heartbeat where
  "mk_heartbeat = \<lparr>hb_time = 0, queue_size = 0, is_live = False\<rparr>"

record zmq_handler =
  common :: zmq_backend_common
  router :: "string consistent_hash"
  settle_time :: "int option"
  liveness_time :: int
  next_sub_reconnect :: int
  sub_reconnect_interval :: int
  heartbeats :: "(string \<times> heartbeat) list"

definition CONSISTENT_HASH_NUM_REPEATS :: int where
  "CONSISTENT_HASH_NUM_REPEATS = 100"

text \<open>The constructor, with the three durations of the configuration, the settle time being optional. The clock is
  read for the end of the settling and again for the first reconnection.\<close>

definition mk_zmq_handler :: "(string \<Rightarrow> bool) \<Rightarrow> int \<Rightarrow> int \<Rightarrow> int \<Rightarrow> int \<Rightarrow> int option \<Rightarrow> string list \<Rightarrow> string list \<Rightarrow>
    cpp_error + zmq_handler" where
  "mk_zmq_handler connect t1 t2 liveness resub settle in_req in_sub =
     (case common_setup connect in_req in_sub mk_common of
        (c, Inl e) \<Rightarrow> Inl e
      | (c, Inr _) \<Rightarrow> Inr \<lparr>common = c, router = mk_consistent_hash CONSISTENT_HASH_NUM_REPEATS,
          settle_time = map_option (\<lambda>d. t1 + d) settle, liveness_time = liveness,
          next_sub_reconnect = t2 + resub, sub_reconnect_interval = resub, heartbeats = []\<rparr>)"

subsection \<open>Live brokers\<close>

text \<open>The loop that moves the next reconnection into the future; it need not end.\<close>

partial_function (option) advance :: "int \<Rightarrow> int \<Rightarrow> int \<Rightarrow> int option" where
  "advance now iv next = (if now > next then advance now iv (next + iv) else Some next)"

definition refresh :: "(tile_protocol, string, 'z) hash_env_scheme \<Rightarrow> int \<Rightarrow> int \<Rightarrow> string \<times> heartbeat \<Rightarrow>
    string consistent_hash \<Rightarrow> (string \<times> heartbeat) \<times> string consistent_hash" where
  "refresh env now liveness e r =
     (let (b, hb) = e;
          alive = (now - hb_time hb < liveness);
          (hb1, r1) = (if alive \<and> \<not> is_live hb then (hb\<lparr>is_live := True\<rparr>, ch_insert env b r) else (hb, r));
          (hb2, r2) = (if \<not> alive \<and> is_live hb1 then (hb1\<lparr>is_live := False\<rparr>, ch_erase env b r1) else (hb1, r1))
      in ((b, hb2), r2))"

fun refresh_all :: "(tile_protocol, string, 'z) hash_env_scheme \<Rightarrow> int \<Rightarrow> int \<Rightarrow> (string \<times> heartbeat) list \<Rightarrow>
    string consistent_hash \<Rightarrow> (string \<times> heartbeat) list \<times> string consistent_hash" where
  "refresh_all env now liveness [] r = ([], r)"
| "refresh_all env now liveness (e # es) r =
     (let (e', r') = refresh env now liveness e r; (es', r'') = refresh_all env now liveness es r' in (e' # es', r''))"

definition refresh_brokers :: "(tile_protocol, string, 'z) hash_env_scheme \<Rightarrow> int \<Rightarrow> zmq_handler \<Rightarrow> zmq_handler" where
  "refresh_brokers env now h =
     (let (hbs, r) = refresh_all env now (liveness_time h) (heartbeats h) (router h)
      in h\<lparr>heartbeats := hbs, router := r\<rparr>)"

text \<open>\<open>None\<close> when the loop does not end.\<close>

definition update_live_brokers :: "(tile_protocol, string, 'z) hash_env_scheme \<Rightarrow> (string \<Rightarrow> bool) \<Rightarrow> int \<Rightarrow> zmq_handler \<Rightarrow>
    (zmq_handler \<times> (cpp_error + unit)) option" where
  "update_live_brokers env connect now h =
     (if now > next_sub_reconnect h then
        (case advance now (sub_reconnect_interval h) (next_sub_reconnect h) of
           None \<Rightarrow> None
         | Some next \<Rightarrow>
           (case resubscribe connect (common h) of
              (c, Inl e) \<Rightarrow> Some (h\<lparr>next_sub_reconnect := next, common := c\<rparr>, Inl e)
            | (c, Inr _) \<Rightarrow> Some (refresh_brokers env now (h\<lparr>next_sub_reconnect := next, common := c\<rparr>), Inr ())))
      else Some (refresh_brokers env now h, Inr ()))"

definition update_heartbeat :: "int \<Rightarrow> string \<Rightarrow> 64 word \<Rightarrow> zmq_handler \<Rightarrow> zmq_handler" where
  "update_heartbeat now broker_id qsize h =
     (let hb = (case map_of (heartbeats h) broker_id of Some hb \<Rightarrow> hb | None \<Rightarrow> mk_heartbeat)
      in h\<lparr>heartbeats := AList.update broker_id (hb\<lparr>hb_time := now, queue_size := qsize\<rparr>) (heartbeats h)\<rparr>)"

subsection \<open>Settling\<close>

definition settling :: "int \<Rightarrow> zmq_handler \<Rightarrow> bool" where
  "settling now h = (case settle_time h of Some t \<Rightarrow> t \<ge> now | None \<Rightarrow> False)"

text \<open>The clock is read for the check and, when the settling is over, again by the update.\<close>

definition settle_check :: "(tile_protocol, string, 'z) hash_env_scheme \<Rightarrow> (string \<Rightarrow> bool) \<Rightarrow> int \<Rightarrow> int \<Rightarrow> zmq_handler \<Rightarrow>
    (zmq_handler \<times> (cpp_error + bool)) option" where
  "settle_check env connect t1 t2 h =
     (case settle_time h of
        Some t \<Rightarrow>
          if t < t1 then
            (case update_live_brokers env connect t2 h of
               None \<Rightarrow> None
             | Some (h', Inl e) \<Rightarrow> Some (h', Inl e)
             | Some (h', Inr _) \<Rightarrow> Some (h'\<lparr>settle_time := None\<rparr>, Inr False))
          else Some (h, Inr True)
      | None \<Rightarrow> Some (h, Inr False))"

subsection \<open>The interface of the queue\<close>

text \<open>The result is the broker that is sent the job. The third reading of the clock is that of the last update.\<close>

definition send :: "(tile_protocol, string, 'z) hash_env_scheme \<Rightarrow> (string \<Rightarrow> bool) \<Rightarrow> int \<Rightarrow> int \<Rightarrow> int \<Rightarrow> tile_protocol \<Rightarrow> zmq_handler \<Rightarrow>
    (zmq_handler \<times> (cpp_error + (string \<times> tile_protocol))) option" where
  "send env connect t1 t2 t3 job h =
     (case settle_check env connect t1 t2 h of
        None \<Rightarrow> None
      | Some (h1, Inl e) \<Rightarrow> Some (h1, Inl e)
      | Some (h1, Inr True) \<Rightarrow> Some (h1, Inl (Broker_Error ''still settling.''))
      | Some (h1, Inr False) \<Rightarrow>
        (case update_live_brokers env connect t3 h1 of
           None \<Rightarrow> None
         | Some (h2, Inl e) \<Rightarrow> Some (h2, Inl e)
         | Some (h2, Inr _) \<Rightarrow>
           (case ch_lookup env job (router h2) of
              Some b \<Rightarrow> Some (h2, Inr (b, job))
            | None \<Rightarrow> Some (h2, Inl (Broker_Error ''no brokers available to send jobs to!'')))))"

text \<open>The jobs are appended to the caller's list; the flag says whether there are new ones.\<close>

definition handle_pollitems :: "int \<Rightarrow> tile_protocol option \<Rightarrow> (string \<times> 64 word) option \<Rightarrow> tile_protocol list \<Rightarrow>
    zmq_handler \<Rightarrow> bool \<times> tile_protocol list \<times> zmq_handler" where
  "handle_pollitems now req sub jobs h =
     (let h' = (case sub of Some (msg, qsize) \<Rightarrow> update_heartbeat now msg qsize h | None \<Rightarrow> h)
      in (case req of Some job \<Rightarrow> (True, jobs @ [job], h') | None \<Rightarrow> (False, jobs, h')))"

fun queue_totals :: "(string \<times> heartbeat) list \<Rightarrow> 64 word \<Rightarrow> 64 word \<Rightarrow> 64 word \<times> 64 word" where
  "queue_totals [] count qsize = (count, qsize)"
| "queue_totals ((b, hb) # hbs) count qsize =
     (if is_live hb then queue_totals hbs (count + 1) (qsize + queue_size hb) else queue_totals hbs count qsize)"

definition queue_length :: "int \<Rightarrow> zmq_handler \<Rightarrow> 64 word" where
  "queue_length now h =
     (if settling now h then - 1
      else (let (count, qsize) = queue_totals (heartbeats h) 0 0 in if count = 0 then 0 else qsize div count))"

subsection \<open>The reconnection loop\<close>

lemma advance_returns:
  assumes "0 < iv"
  shows "\<exists>n. advance now iv nx = Some n \<and> now \<le> n"
proof (induction "nat (now - nx)" arbitrary: nx rule: less_induct)
  case less
  show ?case
  proof (cases "nx < now")
    case True
    then show ?thesis using less [of "nx + iv"] assms by (subst advance.simps) simp
  qed (subst advance.simps, simp)
qed

lemma advance_hangs: "iv \<le> 0 \<Longrightarrow> nx < now \<Longrightarrow> advance now iv nx = None"
proof (rule ccontr)
  assume a: "iv \<le> 0" "nx < now" "advance now iv nx \<noteq> None"
  then obtain n where "advance now iv nx = Some n" by auto
  then have "\<not> (iv \<le> 0 \<and> nx < now)"
    by (rule advance.raw_induct [where P = "\<lambda>now iv nx n. \<not> (iv \<le> 0 \<and> nx < now)", rotated]) (force split: if_splits)
  then show False using a by simp
qed

subsection \<open>The ring follows the heartbeats\<close>

definition alive :: "int \<Rightarrow> zmq_handler \<Rightarrow> string set" where
  "alive now h = {b. \<exists>hb. (b, hb) \<in> set (heartbeats h) \<and> now - hb_time hb < liveness_time h}"

text \<open>
  The invariant, for brokers from a set \<open>U\<close> whose points on the ring are different: the ring holds exactly
  the brokers flagged as live.
\<close>

definition handler_inv :: "(tile_protocol, string, 'z) hash_env_scheme \<Rightarrow> string set \<Rightarrow> zmq_handler \<Rightarrow> bool" where
  "handler_inv env U h \<longleftrightarrow> ring_inv env CONSISTENT_HASH_NUM_REPEATS U (router h) \<and>
     distinct (map fst (heartbeats h)) \<and> fst ` set (heartbeats h) \<subseteq> U \<and>
     ring_members (router h) = {b. \<exists>hb. (b, hb) \<in> set (heartbeats h) \<and> is_live hb}"

lemma refresh_spec:
  assumes "ring_inv env n U r" "b \<in> U" "is_live hb \<longleftrightarrow> b \<in> ring_members r"
    and "refresh env now liveness (b, hb) r = (e, r')"
  shows "ring_inv env n U r'" "e = (b, hb\<lparr>is_live := (now - hb_time hb < liveness)\<rparr>)"
    and "ring_members r' = (ring_members r - {b}) \<union> (if now - hb_time hb < liveness then {b} else {})"
  using assms ring_inv_insert [OF assms(1,2)] ring_inv_erase [OF assms(1,2)]
  by (auto simp: refresh_def Let_def split: if_splits)

lemma refresh_all_spec:
  assumes "refresh_all env now liveness es r = (es', r')" "ring_inv env n U r" "fst ` set es \<subseteq> U"
    and "distinct (map fst es)" "\<forall>(b, hb) \<in> set es. is_live hb \<longleftrightarrow> b \<in> ring_members r"
  shows "ring_inv env n U r' \<and> es' = map (\<lambda>(b, hb). (b, hb\<lparr>is_live := (now - hb_time hb < liveness)\<rparr>)) es \<and>
    ring_members r' = (ring_members r - fst ` set es) \<union> {b. \<exists>hb. (b, hb) \<in> set es \<and> now - hb_time hb < liveness}"
  using assms
proof (induction es arbitrary: r r' es')
  case Nil
  then show ?case by auto
next
  case (Cons e es)
  obtain b hb where e: "e = (b, hb)" by force
  obtain e1 r1 where r1: "refresh env now liveness (b, hb) r = (e1, r1)" by (metis surj_pair)
  obtain es1 r2 where r2: "refresh_all env now liveness es r1 = (es1, r2)" by force
  have bU: "b \<in> U" and live: "is_live hb \<longleftrightarrow> b \<in> ring_members r" using Cons.prems(3,5) by (auto simp: e)
  note step = refresh_spec [OF Cons.prems(2) bU live r1]
  have "\<forall>(b', hb') \<in> set es. is_live hb' \<longleftrightarrow> b' \<in> ring_members r1"
    using Cons.prems(4,5) step(3) by (force simp: e image_iff)
  then have ih: "ring_inv env n U r2 \<and> es1 = map (\<lambda>(b, hb). (b, hb\<lparr>is_live := (now - hb_time hb < liveness)\<rparr>)) es \<and>
      ring_members r2 = (ring_members r1 - fst ` set es) \<union> {b. \<exists>hb. (b, hb) \<in> set es \<and> now - hb_time hb < liveness}"
    using Cons.IH [OF r2 step(1)] Cons.prems(3,4) by (simp add: e)
  have "b \<notin> fst ` set es" using Cons.prems(4) by (auto simp: e)
  then have "ring_members r2 = (ring_members r - fst ` set (e # es)) \<union>
      {b. \<exists>hb. (b, hb) \<in> set (e # es) \<and> now - hb_time hb < liveness}"
    using ih step(3) by (auto simp: e)
  then show ?case using Cons.prems(1) r1 r2 ih step(2) by (auto simp: e)
qed

lemma refresh_brokers_spec:
  assumes "handler_inv env U h"
  shows "handler_inv env U (refresh_brokers env now h) \<and>
    ring_members (router (refresh_brokers env now h)) = alive now h \<and>
    settle_time (refresh_brokers env now h) = settle_time h \<and>
    (\<forall>t. alive t (refresh_brokers env now h) = alive t h)"
proof -
  obtain hbs r where r: "refresh_all env now (liveness_time h) (heartbeats h) (router h) = (hbs, r)" by force
  have "\<forall>(b, hb) \<in> set (heartbeats h). is_live hb \<longleftrightarrow> b \<in> ring_members (router h)"
    using assms by (auto simp: handler_inv_def) (metis eq_key_imp_eq_value)
  then have s: "ring_inv env CONSISTENT_HASH_NUM_REPEATS U r \<and>
      hbs = map (\<lambda>(b, hb). (b, hb\<lparr>is_live := (now - hb_time hb < liveness_time h)\<rparr>)) (heartbeats h) \<and>
      ring_members r = (ring_members (router h) - fst ` set (heartbeats h)) \<union> alive now h"
    using refresh_all_spec [OF r, of CONSISTENT_HASH_NUM_REPEATS U] assms by (simp add: handler_inv_def alive_def)
  have "ring_members (router h) \<subseteq> fst ` set (heartbeats h)" using assms by (force simp: handler_inv_def)
  then have m: "ring_members r = alive now h" using s by auto
  have k: "map fst hbs = map fst (heartbeats h)" using s by (simp add: case_prod_unfold comp_def)
  have l: "alive now h = {b. \<exists>hb. (b, hb) \<in> set hbs \<and> is_live hb}"
    using s by (force simp: alive_def)
  have a: "alive t (refresh_brokers env now h) = alive t h" for t
    using s r by (force simp: alive_def refresh_brokers_def)
  have h': "heartbeats (refresh_brokers env now h) = hbs" "router (refresh_brokers env now h) = r"
      "settle_time (refresh_brokers env now h) = settle_time h"
    using r by (simp_all add: refresh_brokers_def)
  have u: "fst ` set hbs \<subseteq> U" "distinct (map fst hbs)"
    using k assms by (simp_all add: handler_inv_def flip: set_map)
  then show ?thesis using s m l a u by (simp add: handler_inv_def h')
qed

lemma update_live_spec:
  assumes "handler_inv env U h" "update_live_brokers env connect now h = Some (h', res)"
  shows "handler_inv env U h'" and "settle_time h' = settle_time h" and "alive t h' = alive t h"
    and "res = Inr () \<Longrightarrow> ring_members (router h') = alive now h"
proof -
  define h1 where "h1 nx c = h\<lparr>next_sub_reconnect := nx, common := c\<rparr>" for nx c
  have i: "handler_inv env U (h1 nx c)" "alive t (h1 nx c) = alive t h" "settle_time (h1 nx c) = settle_time h" for nx c t
    using assms(1) by (auto simp: h1_def handler_inv_def alive_def)
  from assms(2) consider "h' = refresh_brokers env now h"
    | nx c where "h' = refresh_brokers env now (h1 nx c)"
    | nx c e where "h' = h1 nx c" "res = Inl e"
    by (auto simp: update_live_brokers_def h1_def split: if_splits option.splits sum.splits prod.splits)
  then show "handler_inv env U h'" and "settle_time h' = settle_time h" and "alive t h' = alive t h"
    and "res = Inr () \<Longrightarrow> ring_members (router h') = alive now h"
    by (cases; simp add: i refresh_brokers_spec [OF assms(1)] refresh_brokers_spec [OF i(1)])+
qed

lemma connect_all_ok: "\<forall>ep \<in> set eps. connect ep \<Longrightarrow> connect_all connect kind eps acc = (acc @ eps, Inr ())"
  by (induction eps arbitrary: acc) auto

definition reconnects :: "(string \<Rightarrow> bool) \<Rightarrow> zmq_handler \<Rightarrow> bool" where
  "reconnects connect h \<longleftrightarrow> 0 < sub_reconnect_interval h \<and> (\<forall>ep \<in> set (config_sub_eps (common h)). connect ep)"

lemma refresh_frame:
  "sub_reconnect_interval (refresh_brokers env now h) = sub_reconnect_interval h"
  "common (refresh_brokers env now h) = common h"
  by (simp_all add: refresh_brokers_def case_prod_unfold Let_def)

lemma update_live_returns:
  assumes "reconnects connect h"
  obtains h' where "update_live_brokers env connect now h = Some (h', Inr ())" "reconnects connect h'"
proof -
  obtain n where n: "advance now (sub_reconnect_interval h) (next_sub_reconnect h) = Some n"
    using advance_returns assms by (metis reconnects_def)
  have c: "resubscribe connect (common h) = ((common h)\<lparr>sub_connected := config_sub_eps (common h)\<rparr>, Inr ())"
    using assms by (simp add: resubscribe_def connect_all_ok reconnects_def)
  show thesis
    by (rule that [of "refresh_brokers env now (if now > next_sub_reconnect h
          then h\<lparr>next_sub_reconnect := n, common := (common h)\<lparr>sub_connected := config_sub_eps (common h)\<rparr>\<rparr> else h)"])
       (use assms n c in \<open>auto simp: update_live_brokers_def reconnects_def refresh_frame\<close>)
qed

lemma handler_inv_settle: "handler_inv env U (h\<lparr>settle_time := t\<rparr>) = handler_inv env U h" "alive n (h\<lparr>settle_time := t\<rparr>) = alive n h"
  by (simp_all add: handler_inv_def alive_def)

lemma settle_check_spec:
  assumes "handler_inv env U h" "settle_check env connect t1 t2 h = Some (h', res)"
  shows "handler_inv env U h'" and "alive t h' = alive t h" and "res = Inr b \<Longrightarrow> b = settling t1 h"
  using assms update_live_spec [OF assms(1), of connect t2]
  by (auto simp: settle_check_def settling_def handler_inv_settle split: option.splits if_splits sum.splits)

lemma settle_check_returns:
  assumes "reconnects connect h"
  obtains h' where "settle_check env connect t1 t2 h = Some (h', Inr (settling t1 h))" "reconnects connect h'"
proof (cases "\<exists>t. settle_time h = Some t \<and> t < t1")
  case True
  obtain h1 where "update_live_brokers env connect t2 h = Some (h1, Inr ())" "reconnects connect h1"
    using update_live_returns [OF assms] .
  then show thesis using that True by (auto simp: settle_check_def settling_def reconnects_def)
next
  case False
  then show thesis using that [of h] assms by (cases "settle_time h") (auto simp: settle_check_def settling_def)
qed

subsection \<open>Reachable states\<close>

text \<open>The states of a handler that gets heartbeats from brokers of the set \<open>U\<close>.\<close>

inductive handler_reachable :: "(tile_protocol, string, 'z) hash_env_scheme \<Rightarrow> string set \<Rightarrow> zmq_handler \<Rightarrow> bool"
  for env U where
  start: "mk_zmq_handler connect t1 t2 liveness resub settle in_req in_sub = Inr h \<Longrightarrow> handler_reachable env U h"
| send: "handler_reachable env U h \<Longrightarrow> send env connect t1 t2 t3 job h = Some (h', res) \<Longrightarrow> handler_reachable env U h'"
| pollitems: "handler_reachable env U h \<Longrightarrow> (\<forall>b q. sub = Some (b, q) \<longrightarrow> b \<in> U) \<Longrightarrow>
    handle_pollitems now req sub jobs h = (new, jobs', h') \<Longrightarrow> handler_reachable env U h'"

text \<open>
  No two brokers of \<open>U\<close> share a point of the ring. The points are 64-bit numbers drawn from generators seeded by
  the brokers' hashes: nothing guarantees this, so the theorems that need it say so.
\<close>

definition points_apart :: "(tile_protocol, string, 'z) hash_env_scheme \<Rightarrow> string set \<Rightarrow> bool" where
  "points_apart env U \<longleftrightarrow> (\<forall>v \<in> U. \<forall>w \<in> U. v \<noteq> w \<longrightarrow>
     set (ring_points env CONSISTENT_HASH_NUM_REPEATS v) \<inter> set (ring_points env CONSISTENT_HASH_NUM_REPEATS w) = {})"

lemma send_inv: "handler_inv env U h \<Longrightarrow> send env connect t1 t2 t3 job h = Some (h', res) \<Longrightarrow> handler_inv env U h'"
  by (auto simp: send_def split: option.splits sum.splits bool.splits)
     (meson settle_check_spec(1) update_live_spec(1))+

lemma heartbeat_inv:
  assumes "handler_inv env U h" "b \<in> U"
  shows "handler_inv env U (update_heartbeat now b q h)"
proof -
  let ?hb = "case map_of (heartbeats h) b of Some hb \<Rightarrow> hb | None \<Rightarrow> mk_heartbeat"
  let ?hbs = "AList.update b (?hb\<lparr>hb_time := now, queue_size := q\<rparr>) (heartbeats h)"
  have d: "distinct (map fst (heartbeats h))" using assms by (simp add: handler_inv_def)
  have d': "distinct (map fst ?hbs)" using d by (simp add: distinct_update)
  have "(c, hb) \<in> set ?hbs \<longleftrightarrow> (if c = b then hb = ?hb\<lparr>hb_time := now, queue_size := q\<rparr> else (c, hb) \<in> set (heartbeats h))" for c hb
    using map_of_eq_Some_iff [OF d', of c hb] map_of_eq_Some_iff [OF d, of c hb] by (auto simp: update_conv')
  moreover have "is_live ?hb \<longleftrightarrow> (\<exists>hb. (b, hb) \<in> set (heartbeats h) \<and> is_live hb)"
  proof (cases "map_of (heartbeats h) b")
    case None
    then show ?thesis using map_of_eq_Some_iff [OF d, of b] by (simp add: mk_heartbeat_def flip: map_of_eq_Some_iff [OF d])
  next
    case (Some hb)
    then show ?thesis by (simp flip: map_of_eq_Some_iff [OF d])
  qed
  ultimately have "(\<exists>hb. (c, hb) \<in> set ?hbs \<and> is_live hb) \<longleftrightarrow> (\<exists>hb. (c, hb) \<in> set (heartbeats h) \<and> is_live hb)" for c
    by (cases "c = b") simp_all
  then have "{c. \<exists>hb. (c, hb) \<in> set ?hbs \<and> is_live hb} = {c. \<exists>hb. (c, hb) \<in> set (heartbeats h) \<and> is_live hb}"
    by simp
  moreover have "fst ` set ?hbs \<subseteq> U" using assms by (auto simp: handler_inv_def dom_update)
  ultimately show ?thesis using assms d' by (simp add: handler_inv_def update_heartbeat_def)
qed

lemma mk_zmq_handler_empty:
  "mk_zmq_handler connect t1 t2 liveness resub settle in_req in_sub = Inr h \<Longrightarrow>
    router h = mk_consistent_hash CONSISTENT_HASH_NUM_REPEATS \<and> heartbeats h = []"
  by (auto simp: mk_zmq_handler_def split: prod.splits sum.splits)

lemma handle_pollitems_state:
  "handle_pollitems now req sub jobs h = (new, jobs', h') \<Longrightarrow>
    h' = (case sub of Some (b, q) \<Rightarrow> update_heartbeat now b q h | None \<Rightarrow> h)"
  by (auto simp: handle_pollitems_def Let_def split: option.splits)

lemma reachable_inv: "handler_reachable env U h \<Longrightarrow> points_apart env U \<Longrightarrow> handler_inv env U h"
proof (induction rule: handler_reachable.induct)
  case (start connect t1 t2 liveness resub settle in_req in_sub h)
  then show ?case
    using mk_zmq_handler_empty [OF start(1)]
    by (simp add: handler_inv_def ring_inv_def points_apart_def mk_consistent_hash_def ring_members_def CONSISTENT_HASH_NUM_REPEATS_def)
next
  case (send h connect t1 t2 t3 job h' res)
  then show ?case using send_inv by blast
next
  case (pollitems h sub now req jobs new jobs' h')
  then show ?case using handle_pollitems_state [OF pollitems(3)] by (auto simp: heartbeat_inv split: option.splits)
qed

subsection \<open>Without distinct points\<close>

text \<open>
  What holds even if points collide: every broker on the ring is flagged as live. A live broker may
  then be missing from the ring.
\<close>

definition handler_sound :: "(tile_protocol, string, 'z) hash_env_scheme \<Rightarrow> zmq_handler \<Rightarrow> bool" where
  "handler_sound env h \<longleftrightarrow> ring_sound env CONSISTENT_HASH_NUM_REPEATS (router h) \<and> distinct (map fst (heartbeats h)) \<and>
     (\<forall>(b, hb) \<in> set (heartbeats h). b \<in> ring_members (router h) \<longrightarrow> is_live hb) \<and>
     ring_members (router h) \<subseteq> fst ` set (heartbeats h)"

lemma refresh_sound:
  assumes "ring_sound env n r" "b \<in> ring_members r \<longrightarrow> is_live hb" "refresh env now liveness (b, hb) r = (e, r')"
  shows "ring_sound env n r'" "e = (b, hb\<lparr>is_live := (now - hb_time hb < liveness)\<rparr>)"
    and "ring_members r' \<subseteq> (ring_members r - {b}) \<union> (if now - hb_time hb < liveness then {b} else {})"
  using assms ring_sound_insert [OF assms(1), of b] ring_sound_erase [OF assms(1), of b]
  by (auto simp: refresh_def Let_def split: if_splits)

lemma refresh_all_sound:
  assumes "refresh_all env now liveness es r = (es', r')" "ring_sound env n r" "distinct (map fst es)"
    and "\<forall>(b, hb) \<in> set es. b \<in> ring_members r \<longrightarrow> is_live hb"
  shows "ring_sound env n r' \<and> es' = map (\<lambda>(b, hb). (b, hb\<lparr>is_live := (now - hb_time hb < liveness)\<rparr>)) es \<and>
    ring_members r' \<subseteq> (ring_members r - fst ` set es) \<union> {b. \<exists>hb. (b, hb) \<in> set es \<and> now - hb_time hb < liveness}"
  using assms
proof (induction es arbitrary: r r' es')
  case Nil
  then show ?case by auto
next
  case (Cons e es)
  obtain b hb where e: "e = (b, hb)" by force
  obtain e1 r1 where r1: "refresh env now liveness (b, hb) r = (e1, r1)" by (metis surj_pair)
  obtain es1 r2 where r2: "refresh_all env now liveness es r1 = (es1, r2)" by force
  have live: "b \<in> ring_members r \<longrightarrow> is_live hb" using Cons.prems(4) by (auto simp: e)
  note step = refresh_sound [OF Cons.prems(2) live r1]
  have b: "b \<notin> fst ` set es" using Cons.prems(3) by (auto simp: e)
  then have "\<forall>(b', hb') \<in> set es. b' \<in> ring_members r1 \<longrightarrow> is_live hb'"
    using Cons.prems(4) step(3) by (force simp: e image_iff split: if_splits)
  then have ih: "ring_sound env n r2 \<and> es1 = map (\<lambda>(b, hb). (b, hb\<lparr>is_live := (now - hb_time hb < liveness)\<rparr>)) es \<and>
      ring_members r2 \<subseteq> (ring_members r1 - fst ` set es) \<union> {b. \<exists>hb. (b, hb) \<in> set es \<and> now - hb_time hb < liveness}"
    using Cons.IH [OF r2 step(1)] Cons.prems(3) by (simp add: e)
  have "c \<in> (ring_members r - fst ` set (e # es)) \<union> {b. \<exists>hb. (b, hb) \<in> set (e # es) \<and> now - hb_time hb < liveness}"
    if c: "c \<in> ring_members r2" for c
  proof (cases "c = b \<and> now - hb_time hb < liveness")
    case False
    then have "c \<in> (ring_members r - {b} - fst ` set es) \<union> {b. \<exists>hb. (b, hb) \<in> set es \<and> now - hb_time hb < liveness}"
      using ih step(3) c by (cases "now - hb_time hb < liveness") auto
    then show ?thesis by (auto simp: e)
  qed (auto simp: e)
  then have "ring_members r2 \<subseteq> (ring_members r - fst ` set (e # es)) \<union>
      {b. \<exists>hb. (b, hb) \<in> set (e # es) \<and> now - hb_time hb < liveness}"
    by blast
  then show ?case using Cons.prems(1) r1 r2 ih step(2) by (auto simp: e)
qed

lemma refresh_brokers_sound:
  assumes "handler_sound env h"
  shows "handler_sound env (refresh_brokers env now h) \<and> ring_members (router (refresh_brokers env now h)) \<subseteq> alive now h \<and>
    (\<forall>t. alive t (refresh_brokers env now h) = alive t h)"
proof -
  obtain hbs r where r: "refresh_all env now (liveness_time h) (heartbeats h) (router h) = (hbs, r)" by force
  have s: "ring_sound env CONSISTENT_HASH_NUM_REPEATS r \<and>
      hbs = map (\<lambda>(b, hb). (b, hb\<lparr>is_live := (now - hb_time hb < liveness_time h)\<rparr>)) (heartbeats h) \<and>
      ring_members r \<subseteq> (ring_members (router h) - fst ` set (heartbeats h)) \<union> alive now h"
    using refresh_all_sound [OF r, of CONSISTENT_HASH_NUM_REPEATS] assms by (simp add: handler_sound_def alive_def)
  then have m: "ring_members r \<subseteq> alive now h" using assms by (auto simp: handler_sound_def)
  have k: "map fst hbs = map fst (heartbeats h)" using s by (simp add: case_prod_unfold comp_def)
  then have d: "distinct (map fst hbs)" "fst ` set hbs = fst ` set (heartbeats h)"
    using assms by (simp_all add: handler_sound_def flip: set_map)
  have "\<forall>(b, hb) \<in> set hbs. b \<in> ring_members r \<longrightarrow> is_live hb"
  proof (clarify)
    fix b hb assume b: "(b, hb) \<in> set hbs" "b \<in> ring_members r"
    then obtain hb1 where h1: "(b, hb1) \<in> set (heartbeats h)" "hb = hb1\<lparr>is_live := (now - hb_time hb1 < liveness_time h)\<rparr>"
      using s by auto
    obtain hb0 where h0: "(b, hb0) \<in> set (heartbeats h)" "now - hb_time hb0 < liveness_time h"
      using m b(2) by (auto simp: alive_def)
    have "hb1 = hb0" using assms h0(1) h1(1) eq_key_imp_eq_value unfolding handler_sound_def by metis
    then show "is_live hb" using h1(2) h0(2) by simp
  qed
  moreover have "alive now h \<subseteq> fst ` set (heartbeats h)" by (force simp: alive_def)
  moreover have "alive t (refresh_brokers env now h) = alive t h" for t
    using s r by (force simp: alive_def refresh_brokers_def)
  ultimately show ?thesis using s m d r by (auto simp: handler_sound_def refresh_brokers_def)
qed

lemma update_live_sound:
  assumes "handler_sound env h" "update_live_brokers env connect now h = Some (h', res)"
  shows "handler_sound env h'" and "alive t h' = alive t h" and "res = Inr () \<Longrightarrow> ring_members (router h') \<subseteq> alive now h"
proof -
  define h1 where "h1 nx c = h\<lparr>next_sub_reconnect := nx, common := c\<rparr>" for nx c
  have i: "handler_sound env (h1 nx c)" "alive t (h1 nx c) = alive t h" for nx c t
    using assms(1) by (auto simp: h1_def handler_sound_def alive_def)
  from assms(2) consider "h' = refresh_brokers env now h"
    | nx c where "h' = refresh_brokers env now (h1 nx c)"
    | nx c e where "h' = h1 nx c" "res = Inl e"
    by (auto simp: update_live_brokers_def h1_def split: if_splits option.splits sum.splits prod.splits)
  then show "handler_sound env h'" and "alive t h' = alive t h" and "res = Inr () \<Longrightarrow> ring_members (router h') \<subseteq> alive now h"
    using refresh_brokers_sound [OF assms(1), of now] refresh_brokers_sound [OF i(1), of now] i(2)
    by (cases; simp add: i)+
qed

lemma handler_sound_settle: "handler_sound env (h\<lparr>settle_time := t\<rparr>) = handler_sound env h"
  by (simp add: handler_sound_def)

lemma settle_check_sound:
  assumes "handler_sound env h" "settle_check env connect t1 t2 h = Some (h', res)"
  shows "handler_sound env h'" and "alive t h' = alive t h"
  using assms update_live_sound [OF assms(1), of connect t2]
  by (auto simp: settle_check_def handler_sound_settle handler_inv_settle split: option.splits if_splits sum.splits)

lemma send_sound: "handler_sound env h \<Longrightarrow> send env connect t1 t2 t3 job h = Some (h', res) \<Longrightarrow> handler_sound env h'"
  by (auto simp: send_def split: option.splits sum.splits bool.splits)
     (meson settle_check_sound(1) update_live_sound(1))+

lemma heartbeat_sound:
  assumes "handler_sound env h"
  shows "handler_sound env (update_heartbeat now b q h)"
proof -
  let ?hb = "case map_of (heartbeats h) b of Some hb \<Rightarrow> hb | None \<Rightarrow> mk_heartbeat"
  let ?hbs = "AList.update b (?hb\<lparr>hb_time := now, queue_size := q\<rparr>) (heartbeats h)"
  have d: "distinct (map fst (heartbeats h))" using assms by (simp add: handler_sound_def)
  have d': "distinct (map fst ?hbs)" using d by (simp add: distinct_update)
  have "(c, hb) \<in> set ?hbs \<longleftrightarrow> (if c = b then hb = ?hb\<lparr>hb_time := now, queue_size := q\<rparr> else (c, hb) \<in> set (heartbeats h))" for c hb
    using map_of_eq_Some_iff [OF d', of c hb] map_of_eq_Some_iff [OF d, of c hb] by (auto simp: update_conv')
  moreover have "is_live ?hb" if "b \<in> ring_members (router h)"
  proof -
    from that assms obtain hb where "(b, hb) \<in> set (heartbeats h)" "is_live hb" by (fastforce simp: handler_sound_def)
    then show ?thesis using map_of_eq_Some_iff [OF d, of b hb] by simp
  qed
  ultimately have "\<forall>(c, hb) \<in> set ?hbs. c \<in> ring_members (router h) \<longrightarrow> is_live hb"
    using assms by (auto simp: handler_sound_def split: if_splits)
  moreover have "ring_members (router h) \<subseteq> fst ` set ?hbs" using assms by (auto simp: handler_sound_def dom_update)
  ultimately show ?thesis using assms d' by (simp add: handler_sound_def update_heartbeat_def)
qed

lemma reachable_sound: "handler_reachable env U h \<Longrightarrow> handler_sound env h"
proof (induction rule: handler_reachable.induct)
  case (start connect t1 t2 liveness resub settle in_req in_sub h)
  then show ?case
    using mk_zmq_handler_empty [OF start]
    by (simp add: handler_sound_def ring_sound_def mk_consistent_hash_def ring_members_def)
next
  case (send h connect t1 t2 t3 job h' res)
  then show ?case using send_sound by blast
next
  case (pollitems h sub now req jobs new jobs' h')
  then show ?case using handle_pollitems_state [OF pollitems(3)] by (auto simp: heartbeat_sound split: option.splits)
qed

subsection \<open>Properties\<close>

definition ex_henv :: "(tile_protocol, string) hash_env" where
  "ex_henv = \<lparr>key_hash = tile_hash_value (\<lambda>h s. h) (\<lambda>h n. h + of_int n) 0, val_hash = (\<lambda>b. of_nat (length b)), rng = (\<lambda>s i. ucast s + of_nat i), left_first = True\<rparr>"

text \<open>In this environment the lowest bit of a broker's points is the parity of its name's length.\<close>

lemma ex_point_parity: "p \<in> set (ring_points ex_henv n b) \<Longrightarrow> bit p 0 \<longleftrightarrow> odd (length b)"
proof -
  assume "p \<in> set (ring_points ex_henv n b)"
  then obtain i where p: "p = ucast (ucast (of_nat (length b) :: 64 word) + of_nat (2 * i) :: 32 word) OR
      push_bit 32 (ucast (ucast (of_nat (length b) :: 64 word) + of_nat (Suc (2 * i)) :: 32 word))"
    by (auto simp: ring_points_def ex_henv_def get_value_64_def)
  have "bit p 0 \<longleftrightarrow> bit (ucast (of_nat (length b) :: 64 word) + of_nat (2 * i) :: 32 word) 0"
    unfolding p by (simp only: bit_or_iff bit_push_bit_iff bit_ucast_iff) simp
  also have "\<dots> \<longleftrightarrow> bit (ucast (of_nat (length b) :: 64 word) :: 32 word) 0" by (simp add: bit_0)
  also have "\<dots> \<longleftrightarrow> bit (of_nat (length b) :: 64 word) 0" by (simp only: bit_ucast_iff) simp
  finally show ?thesis by (simp add: bit_0)
qed

lemma ex_points_apart: "points_apart ex_henv {''b'', ''cc''}"
  using ex_point_parity [of _ CONSISTENT_HASH_NUM_REPEATS "''b''"] ex_point_parity [of _ CONSISTENT_HASH_NUM_REPEATS "''cc''"]
  by (auto simp: points_apart_def)

definition ex_started :: zmq_handler where
  "ex_started = \<lparr>common = mk_common, router = mk_consistent_hash CONSISTENT_HASH_NUM_REPEATS,
     settle_time = None, liveness_time = 30, next_sub_reconnect = 3600, sub_reconnect_interval = 3600, heartbeats = []\<rparr>"

text \<open>Two handlers that have heard of the two brokers at different times and in a different order.\<close>

definition ex_handler :: zmq_handler where
  "ex_handler = update_heartbeat 6 ''cc'' 0 (update_heartbeat 5 ''b'' 7 ex_started)"

definition ex_handler2 :: zmq_handler where
  "ex_handler2 = update_heartbeat 9 ''b'' 3 (update_heartbeat 2 ''cc'' 1 ex_started)"

lemma heartbeat_reachable: "handler_reachable env U h \<Longrightarrow> b \<in> U \<Longrightarrow> handler_reachable env U (update_heartbeat now b q h)"
  by (rule handler_reachable.pollitems [of env U h "Some (b, q)" now None "[]" False "[]"]) (simp_all add: handle_pollitems_def)

lemma ex_handlers_reachable:
  "handler_reachable ex_henv {''b'', ''cc''} ex_handler" "handler_reachable ex_henv {''b'', ''cc''} ex_handler2"
proof -
  have "handler_reachable ex_henv {''b'', ''cc''} ex_started"
    by (rule handler_reachable.start [of "\<lambda>_. True" 0 0 30 3600 None "[]" "[]"])
       (simp add: mk_zmq_handler_def common_setup_def mk_common_def ex_started_def)
  then show "handler_reachable ex_henv {''b'', ''cc''} ex_handler" "handler_reachable ex_henv {''b'', ''cc''} ex_handler2"
    unfolding ex_handler_def ex_handler2_def by (intro heartbeat_reachable; simp)+
qed

lemma ex_heartbeats:
  "heartbeats ex_handler = [(''b'', \<lparr>hb_time = 5, queue_size = 7, is_live = False\<rparr>), (''cc'', \<lparr>hb_time = 6, queue_size = 0, is_live = False\<rparr>)]"
  "heartbeats ex_handler2 = [(''cc'', \<lparr>hb_time = 2, queue_size = 1, is_live = False\<rparr>), (''b'', \<lparr>hb_time = 9, queue_size = 3, is_live = False\<rparr>)]"
  "liveness_time ex_handler = 30" "liveness_time ex_handler2 = 30"
  by (simp_all add: ex_handler_def ex_handler2_def ex_started_def update_heartbeat_def mk_heartbeat_def)

lemma ex_handlers_alive:
  "alive 10 ex_handler = {''b'', ''cc''}" "alive 12 ex_handler2 = {''b'', ''cc''}"
  "reconnects (\<lambda>_. True) ex_handler" "reconnects (\<lambda>_. True) ex_handler2" "\<not> settling t ex_handler" "\<not> settling t ex_handler2"
proof -
  have a: "{b. \<exists>hb. (b, hb) \<in> set [(x, u), (y, v)] \<and> P hb} = {x, y}" if "P u" "P v" for x y :: string and u v and P :: "heartbeat \<Rightarrow> bool"
    using that by auto
  show "alive 10 ex_handler = {''b'', ''cc''}" "alive 12 ex_handler2 = {''b'', ''cc''}"
    unfolding alive_def ex_heartbeats by (subst a; simp add: insert_commute)+
  show "reconnects (\<lambda>_. True) ex_handler" "reconnects (\<lambda>_. True) ex_handler2" "\<not> settling t ex_handler" "\<not> settling t ex_handler2"
    by (simp_all add: ex_handler_def ex_handler2_def ex_started_def update_heartbeat_def reconnects_def settling_def)
qed

text \<open>
  C18. The ring follows the heartbeats, for brokers that share no point of the ring. In every state that a handler
  reaches, the brokers on its ring are exactly those it has flagged as live; and after an update that succeeds they
  are exactly the brokers whose last heartbeat is younger than the liveness time.
\<close>

theorem ring_follows_heartbeats:
  assumes "handler_reachable env U h" "points_apart env U" "update_live_brokers env connect now h = Some (h', Inr ())"
  shows "ring_members (router h) = {b. \<exists>hb. (b, hb) \<in> set (heartbeats h) \<and> is_live hb} \<and>
    ring_members (router h') = {b. \<exists>hb. (b, hb) \<in> set (heartbeats h) \<and> now - hb_time hb < liveness_time h} \<and>
    ring_members (router h') = {b. \<exists>hb. (b, hb) \<in> set (heartbeats h') \<and> is_live hb}"
proof -
  have i: "handler_inv env U h" using assms(1,2) by (rule reachable_inv)
  then show ?thesis
    using update_live_spec(1,4) [OF i assms(3)] by (simp add: handler_inv_def alive_def)
qed

theorem ring_follows_heartbeats_witness:
  "\<exists>h'. update_live_brokers ex_henv (\<lambda>_. True) 10 ex_handler = Some (h', Inr ()) \<and> ring_members (router h') = {''b'', ''cc''}"
proof -
  obtain h' where h': "update_live_brokers ex_henv (\<lambda>_. True) 10 ex_handler = Some (h', Inr ())"
    using update_live_returns [OF ex_handlers_alive(3)] .
  then show ?thesis
    using ring_follows_heartbeats [OF ex_handlers_reachable(1) ex_points_apart h'] ex_handlers_alive(1) by (simp add: alive_def)
qed

lemma send_steps:
  assumes "reconnects connect h"
  obtains h1 h2 where "settle_check env connect t1 t2 h = Some (h1, Inr (settling t1 h))"
    "update_live_brokers env connect t3 h1 = Some (h2, Inr ())"
    "\<exists>h'. send env connect t1 t2 t3 job h = Some (h',
       if settling t1 h then Inl (Broker_Error ''still settling.'')
       else case ch_lookup env job (router h2) of Some b \<Rightarrow> Inr (b, job)
            | None \<Rightarrow> Inl (Broker_Error ''no brokers available to send jobs to!''))"
proof -
  obtain h1 where h1: "settle_check env connect t1 t2 h = Some (h1, Inr (settling t1 h))" "reconnects connect h1"
    using settle_check_returns [OF assms] .
  obtain h2 where h2: "update_live_brokers env connect t3 h1 = Some (h2, Inr ())"
    using update_live_returns [OF h1(2)] .
  show thesis by (rule that [OF h1(1) h2]) (use h1(1) h2 in \<open>auto simp: send_def split: option.splits\<close>)
qed

lemma send_finds_broker:
  assumes "handler_reachable env U h" "points_apart env U" "alive t3 h \<noteq> {}"
    and "settle_check env connect t1 t2 h = Some (h1, Inr s)" "update_live_brokers env connect t3 h1 = Some (h2, Inr ())"
  shows "\<exists>b \<in> alive t3 h. ch_lookup env job (router h2) = Some b"
proof -
  note s1 = settle_check_spec [OF reachable_inv [OF assms(1,2)] assms(4)]
  note s2 = update_live_spec [OF s1(1) assms(5)]
  have ring: "ring_inv env CONSISTENT_HASH_NUM_REPEATS U (router h2)" "ring_members (router h2) = alive t3 h"
    using s2(1,4) s1(2) by (simp_all add: handler_inv_def)
  then show ?thesis
    using ch.look_total [OF ring(1), of job] ch.look_member [OF ring(1), of job] assms(3) by fastforce
qed

lemma send_returns:
  assumes "handler_reachable env U h" "reconnects connect h"
  shows "\<exists>h' res. send env connect t1 t2 t3 job h = Some (h', res) \<and>
    (if settling t1 h then res = Inl (Broker_Error ''still settling.'')
     else res = Inl (Broker_Error ''no brokers available to send jobs to!'') \<or> (\<exists>b \<in> alive t3 h. res = Inr (b, job))) \<and>
    (points_apart env U \<and> \<not> settling t1 h \<and> alive t3 h \<noteq> {} \<longrightarrow> (\<exists>b \<in> alive t3 h. res = Inr (b, job)))"
proof -
  obtain h1 h2 where h: "settle_check env connect t1 t2 h = Some (h1, Inr (settling t1 h))"
      "update_live_brokers env connect t3 h1 = Some (h2, Inr ())"
      "\<exists>h'. send env connect t1 t2 t3 job h = Some (h',
        if settling t1 h then Inl (Broker_Error ''still settling.'')
        else case ch_lookup env job (router h2) of Some b \<Rightarrow> Inr (b, job)
             | None \<Rightarrow> Inl (Broker_Error ''no brokers available to send jobs to!''))"
    using send_steps [OF assms(2), where job = job] .
  note s1 = settle_check_sound [OF reachable_sound [OF assms(1)] h(1)]
  note s2 = update_live_sound [OF s1(1) h(2)]
  have "b \<in> alive t3 h" if "ch_lookup env job (router h2) = Some b" for b
    using ring_sound_lookup [OF _ that] s2(1,3) s1(2) unfolding handler_sound_def by blast
  then show ?thesis using h(3) send_finds_broker [OF assms(1) _ _ h(1,2), of job] by (fastforce split: option.splits)
qed

lemma send_to_live:
  assumes "handler_reachable env U h" "reconnects connect h" "points_apart env U" "\<not> settling t1 h" "alive t3 h \<noteq> {}"
  obtains h' b where "b \<in> alive t3 h" "send env connect t1 t2 t3 job h = Some (h', Inr (b, job))"
  using send_returns [OF assms(1,2), of t1 t2 t3 job] assms(3-) by blast

text \<open>
  C17. Sending a job, when the configured resubscription interval is positive and the configured endpoints can be
  reconnected: the call returns, with the readings of the clock that it makes in turn. While the queue is settling
  it fails with that error. Otherwise the unchanged job goes to a broker whose last heartbeat is recent enough, or
  there is no broker on the ring; that error is certain if no heartbeat is recent enough, and excluded if one is and the
  brokers share no point of the ring.
\<close>

theorem send_outcome:
  assumes "handler_reachable env U h" "reconnects connect h"
  shows "\<exists>h' res. send env connect t1 t2 t3 job h = Some (h', res) \<and>
    (if settling t1 h then res = Inl (Broker_Error ''still settling.'')
     else res = Inl (Broker_Error ''no brokers available to send jobs to!'') \<or> (\<exists>b \<in> alive t3 h. res = Inr (b, job))) \<and>
    (points_apart env U \<and> \<not> settling t1 h \<and> alive t3 h \<noteq> {} \<longrightarrow> (\<exists>b \<in> alive t3 h. res = Inr (b, job)))"
  using assms by (rule send_returns)

theorem send_outcome_witness:
  "\<exists>h' b. send ex_henv (\<lambda>_. True) 8 9 10 default_tile ex_handler = Some (h', Inr (b, default_tile)) \<and> b \<in> {''b'', ''cc''}"
  using send_outcome [OF ex_handlers_reachable(1) ex_handlers_alive(3), of 8 9 10 default_tile] ex_handlers_alive ex_points_apart by fastforce

lemma same_broker:
  assumes "handler_reachable env U h" "handler_reachable env U g" "points_apart env U"
    and "send env connect t1 t2 t3 job h = Some (h', Inr (b, j))" "send env connect' s1 s2 s3 job' g = Some (g', Inr (c, i))"
    and "alive t3 h = alive s3 g" "key_hash env job = key_hash env job'"
  shows "b = c"
proof -
  have live: "ring_inv env CONSISTENT_HASH_NUM_REPEATS U (router k') \<and> ring_members (router k') = alive n3 k \<and>
      ch_lookup env jb (router k') = Some d"
    if r: "handler_reachable env U k" and s: "send env con n1 n2 n3 jb k = Some (k', Inr (d, j'))" for k k' con n1 n2 n3 jb d j'
  proof -
    obtain k1 where k1: "settle_check env con n1 n2 k = Some (k1, Inr False)" "update_live_brokers env con n3 k1 = Some (k', Inr ())"
        "ch_lookup env jb (router k') = Some d"
      using s by (auto simp: send_def split: option.splits sum.splits bool.splits)
    note c1 = settle_check_spec [OF reachable_inv [OF r assms(3)] k1(1)]
    show ?thesis using update_live_spec(1,4) [OF c1(1) k1(2)] c1(2) k1(3) by (simp add: handler_inv_def)
  qed
  have "ch_lookup env job (router h') = ch_lookup env job (router g')"
    using live [OF assms(1,4)] live [OF assms(2,5)] assms(6) ch.look_members by metis
  moreover have "ch_lookup env job (router g') = ch_lookup env job' (router g')"
    using assms(7) by (simp add: ch_lookup_ring)
  ultimately show ?thesis using live [OF assms(1,4)] live [OF assms(2,5)] by simp
qed

text \<open>
  C25. A resubscription interval that is not positive, such as a configured zero, makes the update hang
  once the reconnection is due; with a positive one the loop ends with a time that is not in the past.
\<close>

theorem reconnection_loop:
  "(0 < iv \<longrightarrow> (\<exists>n. advance now iv nx = Some n \<and> now \<le> n)) \<and>
   (sub_reconnect_interval h \<le> 0 \<and> next_sub_reconnect h < now \<longrightarrow> update_live_brokers env connect now h = None)"
  using advance_returns advance_hangs by (auto simp: update_live_brokers_def)

theorem reconnection_loop_witness:
  "(\<exists>n. advance 4000 30 20 = Some n \<and> 4000 \<le> n) \<and>
   update_live_brokers ex_henv (\<lambda>_. True) 4000 (ex_handler\<lparr>sub_reconnect_interval := 0\<rparr>) = None"
  using reconnection_loop [of 30 4000 20 "ex_handler\<lparr>sub_reconnect_interval := 0\<rparr>" ex_henv "\<lambda>_. True"]
  by (simp add: ex_handler_def ex_started_def update_heartbeat_def)

end
