(* ===== verification/Distributed_Queue.thy ===== *)
theory Distributed_Queue
  imports Zmq_Handler "HOL-Library.List_Lexorder" "HOL-Library.Char_ord"
begin

text \<open>
  The queue library the processes link against (\<^verbatim>\<open>dqueue/distributed_queue.cpp\<close>), with the registry of its
  backends (\<^verbatim>\<open>dqueue/backend.cpp\<close>) and the configuration of the brokers
  (\<^verbatim>\<open>dqueue/distributed_queue_config.cpp\<close>). A parsed configuration file is a map from sections to maps from
  keys to values; the resolver of host names is a parameter.
\<close>

subsection \<open>The registry of the backends\<close>

type_synonym 'c creators = "string \<rightharpoonup> 'c"

definition factory_add :: "string \<Rightarrow> 'c \<Rightarrow> 'c creators \<Rightarrow> bool \<times> 'c creators" where
  "factory_add type c m = (case m type of None \<Rightarrow> (True, m(type \<mapsto> c)) | Some _ \<Rightarrow> (False, m))"

definition factory_remove :: "string \<Rightarrow> 'c creators \<Rightarrow> bool \<times> 'c creators" where
  "factory_remove type m = (case m type of Some _ \<Rightarrow> (True, m(type := None)) | None \<Rightarrow> (False, m))"

type_synonym ptree = "string \<rightharpoonup> string \<rightharpoonup> string"

definition pt_get :: "ptree \<Rightarrow> string \<Rightarrow> string \<Rightarrow> string option" where
  "pt_get pt section key = Option.bind (pt section) (\<lambda>s. s key)"

text \<open>\<^verbatim>\<open>% type\<close> prints the optional, which Boost writes with a leading blank.\<close>

definition get_creators :: "ptree \<Rightarrow> 'c creators \<Rightarrow> cpp_error + 'c" where
  "get_creators pt m =
     (case pt_get pt ''backend'' ''type'' of
        Some type \<Rightarrow> (case m type of
          Some c \<Rightarrow> Inr c
        | None \<Rightarrow> Inl (Runtime_Error (''Backend type '' @ [CHR 0x27] @ '' '' @ type @ [CHR 0x27] @ '' not registered.'')))
      | None \<Rightarrow> Inl (Runtime_Error (''Key '' @ [CHR 0x27] @ ''type'' @ [CHR 0x27] @ '' not found in backend configuration.'')))"

subsection \<open>The configuration of the brokers\<close>

definition separator :: "char \<Rightarrow> bool" where
  "separator c \<longleftrightarrow> c = CHR '','' \<or> c = CHR '' '' \<or> c = CHR 0x09"

definition parse_list :: "string \<Rightarrow> string list" where
  "parse_list str = tokens_by separator str []"

definition host_char :: "char \<Rightarrow> bool" where
  "host_char c \<longleftrightarrow> (CHR ''0'' \<le> c \<and> c \<le> CHR ''9'') \<or> (CHR ''a'' \<le> c \<and> c \<le> CHR ''z'') \<or>
     (CHR ''A'' \<le> c \<and> c \<le> CHR ''Z'') \<or> c = CHR ''-'' \<or> c = CHR ''.''"

text \<open>A match of the endpoint expression at the start of a text, and the leftmost one in it.\<close>

definition match_here :: "string \<Rightarrow> (string \<times> string \<times> string) option" where
  "match_here s =
     (let proto = take 6 s; rest = drop 6 s; host = takeWhile host_char rest; tail = dropWhile host_char rest
      in if (proto = ''tcp://'' \<or> proto = ''udp://'') \<and> host \<noteq> [] \<and> tail \<noteq> [] \<and> hd tail = CHR '':''
         then Some (proto, host, tail) else None)"

fun match_endpoint :: "string \<Rightarrow> (string \<times> string \<times> string) option" where
  "match_endpoint [] = None"
| "match_endpoint (c # cs) = (case match_here (c # cs) of Some m \<Rightarrow> Some m | None \<Rightarrow> match_endpoint cs)"

definition host_to_ip :: "(string \<Rightarrow> string option) \<Rightarrow> string \<Rightarrow> cpp_error + string" where
  "host_to_ip resolve hostname =
     (case resolve hostname of
        Some ip \<Rightarrow> Inr ip
      | None \<Rightarrow> Inl (Runtime_Error (''Invalid dqueue host ('' @ hostname @ '') should look like tcp://[hostname|ip]:port'')))"

definition parse_zmq_host :: "(string \<Rightarrow> string option) \<Rightarrow> string \<Rightarrow> cpp_error + string" where
  "parse_zmq_host resolve zmqHost =
     (case match_endpoint zmqHost of
        Some (proto, host, tail) \<Rightarrow>
          (case host_to_ip resolve host of Inl e \<Rightarrow> Inl e | Inr ip \<Rightarrow> Inr (proto @ ip @ tail))
      | None \<Rightarrow> Inr zmqHost)"

record broker_conf =
  in_req :: string
  in_sub :: string
  out_req :: string
  out_sub :: string
  monitor :: string
  in_identity :: "string option"
  out_identity :: "string option"

definition get_endpoint :: "(string \<Rightarrow> string option) \<Rightarrow> (string \<rightharpoonup> string) \<Rightarrow> string \<Rightarrow> cpp_error + string" where
  "get_endpoint resolve config key =
     (case config key of
        None \<Rightarrow> Inl (Runtime_Error (''No such node ('' @ key @ '')''))
      | Some v \<Rightarrow> parse_zmq_host resolve v)"

definition mk_broker_conf :: "(string \<Rightarrow> string option) \<Rightarrow> (string \<rightharpoonup> string) \<Rightarrow> cpp_error + broker_conf" where
  "mk_broker_conf resolve config =
     (case get_endpoint resolve config ''in_req'' of Inl e \<Rightarrow> Inl e | Inr a \<Rightarrow>
     (case get_endpoint resolve config ''in_sub'' of Inl e \<Rightarrow> Inl e | Inr b \<Rightarrow>
     (case get_endpoint resolve config ''out_req'' of Inl e \<Rightarrow> Inl e | Inr c \<Rightarrow>
     (case get_endpoint resolve config ''out_sub'' of Inl e \<Rightarrow> Inl e | Inr d \<Rightarrow>
     (case get_endpoint resolve config ''monitor'' of Inl e \<Rightarrow> Inl e | Inr m \<Rightarrow>
        Inr \<lparr>in_req = a, in_sub = b, out_req = c, out_sub = d, monitor = m,
             in_identity = config ''in_identity'', out_identity = config ''out_identity''\<rparr>)))))"

text \<open>The brokers by name, as \<^verbatim>\<open>std::map\<close> orders them; an insert keeps an existing entry.\<close>

fun conf_insert :: "string \<Rightarrow> 'b \<Rightarrow> (string \<times> 'b) list \<Rightarrow> (string \<times> 'b) list" where
  "conf_insert n b [] = [(n, b)]"
| "conf_insert n b ((m, c) # r) =
     (if n < m then (n, b) # (m, c) # r else if n = m then (m, c) # r else (m, c) # conf_insert n b r)"

fun read_brokers :: "(string \<Rightarrow> string option) \<Rightarrow> ptree \<Rightarrow> string list \<Rightarrow> (string \<times> broker_conf) list \<Rightarrow>
    cpp_error + (string \<times> broker_conf) list" where
  "read_brokers resolve config [] acc = Inr acc"
| "read_brokers resolve config (n # ns) acc =
     (case config n of
        None \<Rightarrow> Inl (Runtime_Error (''No such node ('' @ n @ '')''))
      | Some s \<Rightarrow>
        (case mk_broker_conf resolve s of
           Inl e \<Rightarrow> Inl e
         | Inr c \<Rightarrow> read_brokers resolve config ns (conf_insert n c acc)))"

definition mk_conf_common :: "(string \<Rightarrow> string option) \<Rightarrow> ptree \<Rightarrow> cpp_error + (string \<times> broker_conf) list" where
  "mk_conf_common resolve config =
     (let names = (case pt_get config ''zmq'' ''broker_names'' of Some s \<Rightarrow> s | None \<Rightarrow> [])
      in read_brokers resolve config (parse_list names) [])"

definition brokers_get :: "(broker_conf \<Rightarrow> string) \<Rightarrow> (string \<times> broker_conf) list \<Rightarrow> string list" where
  "brokers_get t all = map (\<lambda>e. t (snd e)) all"

definition all_in_req where "all_in_req = brokers_get in_req"
definition all_in_sub where "all_in_sub = brokers_get in_sub"
definition all_out_req where "all_out_req = brokers_get out_req"
definition all_out_sub where "all_out_sub = brokers_get out_sub"

subsection \<open>The runner\<close>

text \<open>
  The handlers registered for single jobs, by an identifier of the function. A job is looked up with
  the equality of tiles. A registration for a job that already has one has no effect.
\<close>

record 'f runner =
  message_handlers :: "(tile_protocol \<times> 'f) list"
  default_message_handler :: 'f

definition find_handler :: "tile_protocol \<Rightarrow> (tile_protocol \<times> 'f) list \<Rightarrow> 'f option" where
  "find_handler job hs = map_option snd (find (\<lambda>e. tile_eq (fst e) job) hs)"

definition register :: "tile_protocol \<Rightarrow> 'f \<Rightarrow> 'f runner \<Rightarrow> 'f runner" where
  "register job f r =
     (if find_handler job (message_handlers r) = None
      then r\<lparr>message_handlers := message_handlers r @ [(job, f)]\<rparr> else r)"

text \<open>
  \<^verbatim>\<open>put_job\<close> for a backend given by its \<^verbatim>\<open>send\<close>; the handler is registered before the job is sent, and stays so
  when sending fails.
\<close>

definition put_job :: "(tile_protocol \<Rightarrow> 's \<Rightarrow> 's \<times> (cpp_error + 'm)) \<Rightarrow> tile_protocol \<Rightarrow> 'f option \<Rightarrow> 'f runner \<times> 's \<Rightarrow>
    ('f runner \<times> 's) \<times> (cpp_error + 'm)" where
  "put_job backend_send job f rs =
     (let (r, s) = rs;
          r' = (case f of Some g \<Rightarrow> register job g r | None \<Rightarrow> r);
          (s', res) = backend_send job s
      in ((r', s'), res))"

text \<open>The calls made, in order. Handlers are used once.\<close>

fun handle_jobs :: "tile_protocol list \<Rightarrow> 'f runner \<Rightarrow> ('f \<times> tile_protocol) list \<times> 'f runner" where
  "handle_jobs [] r = ([], r)"
| "handle_jobs (job # jobs) r =
     (case find_handler job (message_handlers r) of
        Some f \<Rightarrow>
          (let (calls, r') = handle_jobs jobs (r\<lparr>message_handlers := filter (\<lambda>e. \<not> tile_eq (fst e) job) (message_handlers r)\<rparr>)
           in ((f, job) # calls, r'))
      | None \<Rightarrow> (let (calls, r') = handle_jobs jobs r in ((default_message_handler r, job) # calls, r')))"

definition runner_handle_pollitems :: "int \<Rightarrow> tile_protocol option \<Rightarrow> (string \<times> 64 word) option \<Rightarrow> 'f runner \<times> zmq_handler \<Rightarrow>
    ('f \<times> tile_protocol) list \<times> 'f runner \<times> zmq_handler" where
  "runner_handle_pollitems now req sub rs =
     (let (r, h) = rs; (new, jobs, h') = handle_pollitems now req sub [] h
      in if new then (let (calls, r') = handle_jobs jobs r in (calls, r', h')) else ([], r, h'))"

subsection \<open>Properties\<close>

lemma tile_eq_trans: "tile_eq a b \<Longrightarrow> tile_eq b c \<Longrightarrow> tile_eq a c" and tile_eq_sym: "tile_eq a b \<Longrightarrow> tile_eq b a"
  by (auto simp: tile_eq_def)

lemma find_filter_other:
  "\<not> tile_eq job j \<Longrightarrow> find_handler j (filter (\<lambda>e. \<not> tile_eq (fst e) job) hs) = find_handler j hs"
  by (induction hs) (auto simp: find_handler_def dest: tile_eq_sym tile_eq_trans)

lemma find_filter_same: "tile_eq job j \<Longrightarrow> find_handler j (filter (\<lambda>e. \<not> tile_eq (fst e) job) hs) = None"
  by (induction hs) (auto simp: find_handler_def dest: tile_eq_sym tile_eq_trans)

lemma default_unchanged: "default_message_handler (snd (handle_jobs jobs r)) = default_message_handler r"
  by (induction jobs arbitrary: r) (auto simp: case_prod_unfold Let_def split: option.splits)

lemma handle_jobs_calls:
  "map snd (fst (handle_jobs jobs r)) = jobs"
  by (induction jobs arbitrary: r) (auto simp: case_prod_unfold Let_def split: option.splits)

abbreviation drop_handlers :: "tile_protocol \<Rightarrow> 'f runner \<Rightarrow> 'f runner" where
  "drop_handlers job r \<equiv> r\<lparr>message_handlers := filter (\<lambda>e. \<not> tile_eq (fst e) job) (message_handlers r)\<rparr>"

lemma drop_no_handlers: "find_handler job (message_handlers r) = None \<Longrightarrow> drop_handlers job r = r"
  by (cases r) (auto simp: find_handler_def find_None_iff filter_id_conv)

lemma handle_jobs_Cons:
  "handle_jobs (job # jobs) r =
     ((case find_handler job (message_handlers r) of Some f \<Rightarrow> f | None \<Rightarrow> default_message_handler r, job) #
        fst (handle_jobs jobs (drop_handlers job r)), snd (handle_jobs jobs (drop_handlers job r)))"
proof (cases "find_handler job (message_handlers r)")
  case None
  then show ?thesis using drop_no_handlers [OF None] by (simp add: case_prod_unfold Let_def)
qed (simp add: case_prod_unfold Let_def)

lemma find_dropped:
  "find_handler j (message_handlers (drop_handlers job r)) =
     (if tile_eq job j then None else find_handler j (message_handlers r))"
  by (simp add: find_filter_same find_filter_other)

lemma handle_jobs_handlers:
  "find_handler j (message_handlers (snd (handle_jobs jobs r))) =
     (if \<exists>job \<in> set jobs. tile_eq job j then None else find_handler j (message_handlers r))"
proof (induction jobs arbitrary: r)
  case (Cons job jobs)
  show ?case unfolding handle_jobs_Cons snd_conv Cons.IH find_dropped by simp
qed simp

lemma handle_jobs_nth:
  "i < length jobs \<Longrightarrow> fst (fst (handle_jobs jobs r) ! i) =
     (if \<exists>j < i. tile_eq (jobs ! j) (jobs ! i) then default_message_handler r
      else case find_handler (jobs ! i) (message_handlers r) of Some f \<Rightarrow> f | None \<Rightarrow> default_message_handler r)"
proof (induction jobs arbitrary: r i)
  case (Cons job jobs)
  show ?case
  proof (cases i)
    case 0
    then show ?thesis by (simp add: handle_jobs_Cons del: handle_jobs.simps)
  next
    case (Suc n)
    then have n: "n < length jobs" using Cons.prems by simp
    have "(\<exists>j < Suc n. tile_eq ((job # jobs) ! j) (jobs ! n)) \<longleftrightarrow>
        tile_eq job (jobs ! n) \<or> (\<exists>j < n. tile_eq (jobs ! j) (jobs ! n))"
      using less_Suc_eq_0_disj by auto
    then show ?thesis
      using Cons.IH [OF n, of "drop_handlers job r"] unfolding handle_jobs_Cons fst_conv Suc nth_Cons_Suc find_dropped
      by (auto split: option.splits)
  qed
qed simp

text \<open>
  Dispatch of finished jobs: every job leads to exactly one call, in order. The \<open>i\<close>-th job goes to the
  handler registered for it if no earlier job of the batch equals it, and to the default handler if
  one does or if there is no such handler; afterwards the handlers of the jobs are gone and the others stay.
\<close>

theorem handle_jobs_dispatch:
  "map snd (fst (handle_jobs jobs r)) = jobs \<and>
   (\<forall>i < length jobs. fst (fst (handle_jobs jobs r) ! i) =
      (if \<exists>j < i. tile_eq (jobs ! j) (jobs ! i) then default_message_handler r
       else case find_handler (jobs ! i) (message_handlers r) of Some f \<Rightarrow> f | None \<Rightarrow> default_message_handler r)) \<and>
   (\<forall>j. find_handler j (message_handlers (snd (handle_jobs jobs r))) =
      (if \<exists>job \<in> set jobs. tile_eq job j then None else find_handler j (message_handlers r)))"
  using handle_jobs_calls handle_jobs_nth handle_jobs_handlers by blast

theorem handle_jobs_dispatch_witness:
  "fst (fst (handle_jobs [default_tile, default_tile] \<lparr>message_handlers = [(default_tile, 1)], default_message_handler = 2 :: nat\<rparr>) ! 1) = 2"
  using handle_jobs_dispatch [of "[default_tile, default_tile]" "\<lparr>message_handlers = [(default_tile, 1)], default_message_handler = 2 :: nat\<rparr>"]
  by (simp add: tile_eq_def)

lemma length_brokers_get: "length (brokers_get f all) = length all"
  by (simp add: brokers_get_def)

text \<open>
  The endpoints that a configuration file yields pass the sanity check of the backends, for the
  handlers' and for the workers' sockets: whatever the file holds, a broker section that is accepted gives
  one endpoint to each list, so setting up only fails if 0MQ refuses to connect to one of them.
\<close>

theorem configured_endpoints_connect:
  assumes "mk_conf_common resolve config = Inr all"
    and "(rq, sb) = (all_in_req all, all_in_sub all) \<or> (rq, sb) = (all_out_req all, all_out_sub all)"
  shows "(\<exists>c. common_setup connect rq sb mk_common = (c, Inr ()) \<and>
      req_connected c = rq \<and> sub_connected c = sb \<and> config_sub_eps c = sb) \<or>
    (\<exists>ep \<in> set rq \<union> set sb. \<not> connect ep)"
proof (cases "\<forall>ep \<in> set rq \<union> set sb. connect ep")
  case True
  then have "connect_all connect ''XREQ'' rq [] = (rq, Inr ())" "connect_all connect ''SUB'' sb [] = (sb, Inr ())"
    using connect_all_ok [of rq connect _ "[]"] connect_all_ok [of sb connect _ "[]"] by auto
  moreover have "length rq = length sb"
    using assms(2) by (auto simp: all_in_req_def all_in_sub_def all_out_req_def all_out_sub_def length_brokers_get)
  ultimately show ?thesis by (simp add: common_setup_def mk_common_def)
qed blast

definition ex_conf :: ptree where
  "ex_conf = [''zmq'' \<mapsto> [''broker_names'' \<mapsto> ''b1''],
     ''b1'' \<mapsto> [''in_req'' \<mapsto> ''tcp://h:1'', ''in_sub'' \<mapsto> ''tcp://h:2'', ''out_req'' \<mapsto> ''tcp://h:3'',
       ''out_sub'' \<mapsto> ''tcp://h:4'', ''monitor'' \<mapsto> ''tcp://h:5'']]"

theorem configured_endpoints_connect_witness:
  "\<exists>all c. mk_conf_common (\<lambda>h. Some ''10.0.0.1'') ex_conf = Inr all \<and>
     common_setup (\<lambda>_. True) (all_in_req all) (all_in_sub all) mk_common = (c, Inr ())"
proof -
  obtain all where a: "mk_conf_common (\<lambda>h. Some ''10.0.0.1'') ex_conf = Inr all"
    by (simp add: mk_conf_common_def ex_conf_def pt_get_def parse_list_def separator_def mk_broker_conf_def get_endpoint_def
        parse_zmq_host_def match_here_def host_to_ip_def host_char_def Let_def)
  then show ?thesis using configured_endpoints_connect [OF a, of _ _ "\<lambda>_. True"] by blast
qed

end
