(* ===== verification/Zmq_Worker.thy ===== *)
theory Zmq_Worker
  imports Tile_Types "HOL-Library.AList"
begin

text \<open>
  The worker's side of the 0MQ backend (\<^verbatim>\<open>dqueue/zmq_backend.cpp\<close>): the communicator thread, which
  looks for jobs at the brokers on behalf of the rendering thread, and its composition with that
  thread. Messages on the three sockets are arguments, messages sent are results.
\<close>

subsection \<open>What is known about the brokers\<close>

record broker_status =
  m_max_priority :: int
  m_queue_length :: int

definition INT_MIN :: int where
  "INT_MIN = - (2 ^ 31)"

definition worst_status :: broker_status where
  "worst_status = \<lparr>m_max_priority = INT_MIN, m_queue_length = INT_MIN\<rparr>"

text \<open>The announced numbers are unsigned; the constructor takes \<^verbatim>\<open>int\<close>s.\<close>

definition mk_broker_status :: "32 word \<Rightarrow> 64 word \<Rightarrow> broker_status" where
  "mk_broker_status max_priority qsize =
     \<lparr>m_max_priority = sint max_priority, m_queue_length = sint (ucast qsize :: 32 word)\<rparr>"

definition status_gt :: "broker_status \<Rightarrow> broker_status \<Rightarrow> bool" where
  "status_gt a b \<longleftrightarrow> m_max_priority a > m_max_priority b \<or>
     (m_max_priority a = m_max_priority b \<and> m_queue_length a > m_queue_length b)"

subsection \<open>The communicator\<close>

datatype communicator_state = state_idle | state_waiting_for_job | state_trying_to_get_job | state_job_processing

text \<open>
  The table of the brokers is a hash table whose order of iteration the code does not fix. Here it is a
  list of distinct entries in some order; the order only decides between brokers of equal status.
\<close>

record communicator =
  comm_state :: communicator_state
  current_broker :: "string option"
  brokers_with_jobs :: "(string \<times> broker_status) list"
  get_job_retry_time :: int
  broker_timeout :: int

definition mk_communicator :: "int \<Rightarrow> communicator" where
  "mk_communicator b_timeout =
     \<lparr>comm_state = state_idle, current_broker = None, brokers_with_jobs = [], get_job_retry_time = 0,
      broker_timeout = b_timeout\<rparr>"

datatype comm_out =
    Get_Job_From string
  | Result_To string tile_protocol
  | Job_To_Worker tile_protocol

fun best_broker :: "(string \<times> broker_status) list \<Rightarrow> string option \<Rightarrow> broker_status \<Rightarrow> string option" where
  "best_broker [] broker best = broker"
| "best_broker ((b, s) # rest) broker best =
     (if status_gt s best then best_broker rest (Some b) s else best_broker rest broker best)"

definition highest_priority_broker :: "(string \<times> broker_status) list \<Rightarrow> string option" where
  "highest_priority_broker brokers = best_broker brokers None worst_status"

definition try_to_get_job :: "int \<Rightarrow> communicator \<Rightarrow> comm_out list \<times> communicator" where
  "try_to_get_job now c =
     (case highest_priority_broker (brokers_with_jobs c) of
        Some b \<Rightarrow> ([Get_Job_From b],
                   c\<lparr>current_broker := Some b, comm_state := state_trying_to_get_job,
                     get_job_retry_time := now + broker_timeout c\<rparr>)
      | None \<Rightarrow> ([], c\<lparr>current_broker := None, comm_state := state_waiting_for_job\<rparr>))"

text \<open>
  A message of a broker: the routing headers, the response and, when there is more, the tile.
  The inner option of \<open>from_inproc\<close> is the finished tile, absent in a request for a job.
\<close>

record broker_response =
  headers :: "string list"
  response :: string
  job_tile :: "tile_protocol option"

record comm_poll =
  from_broker :: "broker_response option"
  from_sub :: "(string \<times> 32 word \<times> 64 word) option"
  from_inproc :: "tile_protocol option option"

definition check_timeout :: "int \<Rightarrow> communicator \<Rightarrow> comm_out list \<times> communicator" where
  "check_timeout now c =
     (if comm_state c = state_trying_to_get_job \<and> get_job_retry_time c < now
      then try_to_get_job now
             (case current_broker c of
                Some b \<Rightarrow> c\<lparr>brokers_with_jobs := AList.delete b (brokers_with_jobs c)\<rparr>
              | None \<Rightarrow> c)
      else ([], c))"

definition on_response :: "int \<Rightarrow> broker_response \<Rightarrow> communicator \<Rightarrow> comm_out list \<times> communicator" where
  "on_response now r c =
     (case (if response r = ''JOB'' then job_tile r else None) of
        Some tile \<Rightarrow>
          if comm_state c = state_trying_to_get_job \<and> current_broker c = Some (hd (headers r))
          then ([Job_To_Worker tile], c\<lparr>current_broker := Some (hd (headers r)), comm_state := state_job_processing\<rparr>)
          else ([], c)
      | None \<Rightarrow>
          (let c' = c\<lparr>brokers_with_jobs := AList.delete (hd (headers r)) (brokers_with_jobs c)\<rparr>
           in if comm_state c = state_trying_to_get_job then try_to_get_job now c' else ([], c')))"

definition on_announcement :: "int \<Rightarrow> string \<times> 32 word \<times> 64 word \<Rightarrow> communicator \<Rightarrow> comm_out list \<times> communicator" where
  "on_announcement now a c =
     (let (broker_id, max_priority, qsize) = a;
          c' = c\<lparr>brokers_with_jobs := AList.update broker_id (mk_broker_status max_priority qsize) (brokers_with_jobs c)\<rparr>
      in if comm_state c = state_waiting_for_job then try_to_get_job now c' else ([], c'))"

definition on_inproc :: "int \<Rightarrow> tile_protocol option \<Rightarrow> communicator \<Rightarrow> comm_out list \<times> communicator" where
  "on_inproc now m c =
     (case m of
        Some tile \<Rightarrow>
          if comm_state c = state_job_processing
          then (case current_broker c of
                  Some b \<Rightarrow> ([Result_To b tile], c\<lparr>current_broker := None, comm_state := state_idle\<rparr>)
                | None \<Rightarrow> ([], c))
          else ([], c)
      | None \<Rightarrow> if comm_state c = state_idle then try_to_get_job now c else ([], c))"

text \<open>
  One pass of the loop, with the clock's reading. Only the first of the three sockets that has a message
  is read; messages on the others stay there.
\<close>

definition serve_first :: "int \<Rightarrow> comm_poll \<Rightarrow> communicator \<Rightarrow> comm_out list \<times> communicator" where
  "serve_first now items c =
     (case from_broker items of
        Some r \<Rightarrow> on_response now r c
      | None \<Rightarrow>
        (case from_sub items of
           Some a \<Rightarrow> on_announcement now a c
         | None \<Rightarrow> (case from_inproc items of Some m \<Rightarrow> on_inproc now m c | None \<Rightarrow> ([], c))))"

definition comm_iteration :: "int \<Rightarrow> comm_poll \<Rightarrow> communicator \<Rightarrow> comm_out list \<times> communicator" where
  "comm_iteration now items c =
     (let (out1, c1) = check_timeout now c;
          (out2, c2) = serve_first now items c1
      in (out1 @ out2, c2))"

fun comm_run :: "(int \<times> comm_poll) list \<Rightarrow> communicator \<Rightarrow> comm_out list \<times> communicator" where
  "comm_run [] c = ([], c)"
| "comm_run ((now, items) # polls) c =
     (let (out, c') = comm_iteration now items c; (rest, c'') = comm_run polls c' in (out @ rest, c''))"

subsection \<open>The choice of a broker\<close>

lemma status_gt_trans: "status_gt a b \<Longrightarrow> status_gt b c \<Longrightarrow> status_gt a c"
  by (auto simp: status_gt_def)

lemma status_gt_total: "\<not> status_gt a b \<Longrightarrow> \<not> status_gt b c \<Longrightarrow> \<not> status_gt a c"
  by (auto simp: status_gt_def)

lemma best_broker_spec:
  "(best_broker bs broker best = broker \<and> (\<forall>e \<in> set bs. \<not> status_gt (snd e) best)) \<or>
   (\<exists>b s. best_broker bs broker best = Some b \<and> (b, s) \<in> set bs \<and> status_gt s best \<and>
      (\<forall>e \<in> set bs. \<not> status_gt (snd e) s))"
proof (induction bs broker best rule: best_broker.induct)
  case (2 b s rest broker best)
  have irrefl: "\<not> status_gt s s" by (simp add: status_gt_def)
  show ?case
  proof (cases "status_gt s best")
    case True
    then show ?thesis using 2(1) irrefl status_gt_trans by (auto split: if_splits) (meson status_gt_trans status_gt_total)+
  next
    case False
    then show ?thesis using 2(2) by (auto dest: status_gt_total) (meson status_gt_trans)+
  qed
qed simp

lemma highest_Some:
  assumes "highest_priority_broker bs = Some b"
  shows "\<exists>s. (b, s) \<in> set bs \<and> status_gt s worst_status \<and> (\<forall>e \<in> set bs. \<not> status_gt (snd e) s)"
  using assms best_broker_spec [of bs None worst_status] by (auto simp: highest_priority_broker_def)

lemma highest_None:
  "highest_priority_broker bs = None \<longleftrightarrow> (\<forall>e \<in> set bs. \<not> status_gt (snd e) worst_status)"
  using best_broker_spec [of bs None worst_status] by (auto simp: highest_priority_broker_def)

lemma announced_not_worst: "status_gt (mk_broker_status p n) worst_status \<longleftrightarrow> mk_broker_status p n \<noteq> worst_status"
proof -
  have "INT_MIN \<le> sint p" "INT_MIN \<le> sint (ucast n :: 32 word)"
    using sint_ge [of p] sint_ge [of "ucast n :: 32 word"] by (simp_all add: INT_MIN_def)
  then show ?thesis by (auto simp: status_gt_def mk_broker_status_def worst_status_def)
qed

subsection \<open>The invariant of the communicator\<close>

definition comm_inv :: "communicator \<Rightarrow> bool" where
  "comm_inv c \<longleftrightarrow>
     distinct (map fst (brokers_with_jobs c)) \<and>
     (comm_state c = state_waiting_for_job \<longrightarrow> highest_priority_broker (brokers_with_jobs c) = None) \<and>
     (comm_state c = state_trying_to_get_job \<longrightarrow> (\<exists>b. current_broker c = Some b \<and> b \<in> fst ` set (brokers_with_jobs c))) \<and>
     (comm_state c = state_job_processing \<longrightarrow> current_broker c \<noteq> None)"

lemma try_inv: "distinct (map fst (brokers_with_jobs c)) \<Longrightarrow> comm_inv (snd (try_to_get_job now c))"
  by (auto simp: try_to_get_job_def comm_inv_def image_iff split: option.splits dest: highest_Some) (metis fst_conv highest_Some)

lemma comm_inv_distinct: "comm_inv c \<Longrightarrow> distinct (map fst (brokers_with_jobs c))"
  by (simp add: comm_inv_def)

lemma highest_delete: "highest_priority_broker bs = None \<Longrightarrow> highest_priority_broker (AList.delete b bs) = None"
  by (auto simp: highest_None AList.delete_eq)

lemma timeout_inv: "comm_inv c \<Longrightarrow> comm_inv (snd (check_timeout now c))"
  by (auto simp: check_timeout_def comm_inv_distinct intro!: try_inv distinct_delete split: option.splits)

lemma response_inv: "comm_inv c \<Longrightarrow> comm_inv (snd (on_response now r c))"
proof (cases "if response r = ''JOB'' then job_tile r else None")
  case None
  assume inv: "comm_inv c"
  let ?c = "c\<lparr>brokers_with_jobs := AList.delete (hd (headers r)) (brokers_with_jobs c)\<rparr>"
  show ?thesis
  proof (cases "comm_state c = state_trying_to_get_job")
    case True
    then show ?thesis using None inv by (auto simp: on_response_def comm_inv_distinct Let_def intro!: try_inv distinct_delete)
  next
    case False
    then have "comm_inv ?c" using inv by (auto simp: comm_inv_def distinct_delete highest_delete)
    then show ?thesis using None False by (simp add: on_response_def Let_def)
  qed
qed (auto simp: on_response_def comm_inv_def)

lemma announcement_inv: "comm_inv c \<Longrightarrow> comm_inv (snd (on_announcement now a c))"
proof -
  assume inv: "comm_inv c"
  obtain b p n where a: "a = (b, p, n)" by (metis prod_cases3)
  let ?c = "c\<lparr>brokers_with_jobs := AList.update b (mk_broker_status p n) (brokers_with_jobs c)\<rparr>"
  have d: "distinct (map fst (brokers_with_jobs ?c))" using inv by (simp add: comm_inv_distinct distinct_update)
  show ?thesis
  proof (cases "comm_state c = state_waiting_for_job")
    case True
    then show ?thesis using try_inv [OF d] by (simp add: on_announcement_def a)
  next
    case False
    then have "comm_inv ?c" using inv d by (auto simp: comm_inv_def dom_update)
    then show ?thesis using False by (simp add: on_announcement_def a)
  qed
qed

lemma inproc_inv: "comm_inv c \<Longrightarrow> comm_inv (snd (on_inproc now m c))"
  by (cases m) (auto simp: on_inproc_def comm_inv_distinct intro!: try_inv split: option.splits, auto simp: comm_inv_def)

lemma serve_inv: "comm_inv c \<Longrightarrow> comm_inv (snd (serve_first now items c))"
  by (auto simp: serve_first_def response_inv announcement_inv inproc_inv split: option.splits)

lemma iteration_inv: "comm_inv c \<Longrightarrow> comm_inv (snd (comm_iteration now items c))"
  by (simp add: comm_iteration_def case_prod_unfold Let_def timeout_inv serve_inv)

lemma comm_run_inv: "comm_inv c \<Longrightarrow> comm_inv (snd (comm_run polls c))"
  by (induction polls arbitrary: c) (auto simp: case_prod_unfold Let_def iteration_inv)

lemma start_inv: "comm_inv (mk_communicator t)"
  by (simp add: comm_inv_def mk_communicator_def)

text \<open>
  The communicator's invariant holds at the start and after every run of its loop, whatever messages
  arrive. While it waits, no announced broker is worth asking; while it tries, it is asking a broker it
  still believes to have jobs; while a job is processed, the broker to return it to is known.
\<close>

theorem communicator_invariant: "comm_inv (snd (comm_run polls (mk_communicator b_timeout)))"
  by (simp add: comm_run_inv start_inv)

text \<open>
  The broker that is asked for a job is one of the announced brokers, and no other has a higher
  priority, or the same priority and a longer queue. None is asked only if every entry of the table is
  the impossible worst status, so the worker does not wait while a job is on offer.
\<close>

theorem highest_priority_broker_best:
  "(\<forall>b. highest_priority_broker bs = Some b \<longrightarrow>
      (\<exists>s. (b, s) \<in> set bs \<and> (\<forall>e \<in> set bs. \<not> status_gt (snd e) s))) \<and>
   (highest_priority_broker bs = None \<longleftrightarrow> (\<forall>e \<in> set bs. \<not> status_gt (snd e) worst_status))"
  using highest_Some [of bs] highest_None [of bs] by blast

theorem highest_priority_broker_best_witness:
  "\<exists>s. (''b'', s) \<in> set [(''a'', mk_broker_status 50 9), (''b'', mk_broker_status 100 1)] \<and>
     (\<forall>e \<in> set [(''a'', mk_broker_status 50 9), (''b'', mk_broker_status 100 1)]. \<not> status_gt (snd e) s)"
proof -
  have "highest_priority_broker [(''a'', mk_broker_status 50 9), (''b'', mk_broker_status 100 1)] = Some ''b''"
    by (simp add: highest_priority_broker_def status_gt_def mk_broker_status_def worst_status_def INT_MIN_def)
  then show ?thesis
    using highest_priority_broker_best [of "[(''a'', mk_broker_status 50 9), (''b'', mk_broker_status 100 1)]"] by blast
qed

subsection \<open>Jobs and results\<close>

fun is_job_or_result :: "comm_out \<Rightarrow> bool" where
  "is_job_or_result (Get_Job_From b) \<longleftrightarrow> False"
| "is_job_or_result (Result_To b t) \<longleftrightarrow> True"
| "is_job_or_result (Job_To_Worker t) \<longleftrightarrow> True"

text \<open>
  The jobs and results of a run alternate: \<open>holds\<close> is the broker whose job is in the worker's hands. A job is
  only passed on when there is none, it comes from the broker that sent it in this pass, and a result
  goes to the broker the job came from.
\<close>

fun paired :: "string option \<Rightarrow> (int \<times> comm_poll) list \<Rightarrow> communicator \<Rightarrow> bool" where
  "paired holds [] c \<longleftrightarrow> True"
| "paired holds ((now, items) # polls) c \<longleftrightarrow>
     (case filter is_job_or_result (fst (comm_iteration now items c)) of
        [] \<Rightarrow> paired holds polls (snd (comm_iteration now items c))
      | [Job_To_Worker t] \<Rightarrow>
          holds = None \<and> (\<exists>r. from_broker items = Some r \<and> job_tile r = Some t \<and>
            paired (Some (hd (headers r))) polls (snd (comm_iteration now items c)))
      | [Result_To b t] \<Rightarrow>
          holds = Some b \<and> from_inproc items = Some (Some t) \<and> paired None polls (snd (comm_iteration now items c))
      | _ \<Rightarrow> False)"

definition held :: "communicator \<Rightarrow> string option" where
  "held c = (if comm_state c = state_job_processing then current_broker c else None)"

lemma try_held: "filter is_job_or_result (fst (try_to_get_job now c)) = []" "held (snd (try_to_get_job now c)) = None"
  by (auto simp: try_to_get_job_def held_def split: option.splits)

lemma timeout_held: "filter is_job_or_result (fst (check_timeout now c)) = []" "held (snd (check_timeout now c)) = held c"
  by (auto simp: check_timeout_def try_held) (auto simp: held_def)

lemma serve_held:
  assumes "serve_first now items c = (out, c')"
  shows "(filter is_job_or_result out = [] \<and> held c' = held c) \<or>
    (\<exists>t r. filter is_job_or_result out = [Job_To_Worker t] \<and> held c = None \<and> from_broker items = Some r \<and>
       job_tile r = Some t \<and> held c' = Some (hd (headers r))) \<or>
    (\<exists>b t. filter is_job_or_result out = [Result_To b t] \<and> held c = Some b \<and> from_inproc items = Some (Some t) \<and> held c' = None)"
proof (cases "from_broker items")
  case (Some r)
  then have "on_response now r c = (out, c')" using assms by (simp add: serve_first_def)
  then show ?thesis using Some try_held
    by (auto simp: on_response_def Let_def held_def split: option.splits if_splits)
       (metis fst_conv snd_conv held_def)+
next
  case nb: None
  show ?thesis
  proof (cases "from_sub items")
    case (Some a)
    obtain b p n where a: "a = (b, p, n)" by (metis prod_cases3)
    have h: "on_announcement now a c = (out, c')" using assms nb Some by (simp add: serve_first_def)
    have "filter is_job_or_result out = [] \<and> held c' = held c"
    proof (cases "comm_state c = state_waiting_for_job")
      case True
      then have "held c = None" by (simp add: held_def)
      then show ?thesis using h True try_held by (simp add: on_announcement_def a) (metis fst_conv snd_conv)
    qed (use h in \<open>auto simp: on_announcement_def a held_def\<close>)
    then show ?thesis by simp
  next
    case None
    show ?thesis
    proof (cases "from_inproc items")
      case (Some m)
      have h: "on_inproc now m c = (out, c')" using assms nb None Some by (simp add: serve_first_def)
      show ?thesis
      proof (cases "m = None \<and> comm_state c = state_idle")
        case True
        then have "held c = None" by (simp add: held_def)
        then show ?thesis using h True try_held by (simp add: on_inproc_def) (metis fst_conv snd_conv)
      qed (use h Some in \<open>auto simp: on_inproc_def held_def split: option.splits if_splits\<close>)
    qed (use assms nb None in \<open>simp add: serve_first_def\<close>)
  qed
qed

lemma paired_held: "paired (held c) polls c"
proof (induction polls arbitrary: c)
  case (Cons p polls)
  obtain now items where p: "p = (now, items)" by force
  obtain out1 c1 where c1: "check_timeout now c = (out1, c1)" by force
  obtain out2 c2 where c2: "serve_first now items c1 = (out2, c2)" by force
  have "filter is_job_or_result out1 = []" "held c1 = held c" using timeout_held [of now c] c1 by auto
  then show ?case
    using serve_held [OF c2] Cons.IH [of c2] c1 c2 by (auto simp: p comm_iteration_def)
qed simp

text \<open>
  Over every run of the communicator, jobs and results alternate: the worker never holds two jobs,
  every result is sent to the broker that handed out the job, once, and only when the worker delivers it.
\<close>

theorem results_return_to_their_broker: "paired None polls (mk_communicator b_timeout)"
  using paired_held [of "mk_communicator b_timeout" polls] by (simp add: held_def mk_communicator_def)

subsection \<open>The communicator and the rendering thread\<close>

text \<open>
  The thread that calls \<^verbatim>\<open>get_job\<close> and \<^verbatim>\<open>notify\<close>, and the pair of inproc sockets between it and the
  communicator, as two queues of messages.
\<close>

datatype worker_thread = W_Idle | W_Waiting | W_Working tile_protocol

record worker_system =
  comm :: communicator
  thread :: worker_thread
  to_comm :: "tile_protocol option list"
  to_thread :: "tile_protocol list"

definition get_job_request :: "worker_system \<Rightarrow> worker_system" where
  "get_job_request s = s\<lparr>thread := W_Waiting, to_comm := to_comm s @ [None]\<rparr>"

definition get_job_receive :: "worker_system \<Rightarrow> worker_system" where
  "get_job_receive s = s\<lparr>thread := W_Working (hd (to_thread s)), to_thread := tl (to_thread s)\<rparr>"

definition notify :: "tile_protocol \<Rightarrow> worker_system \<Rightarrow> worker_system" where
  "notify job s = s\<lparr>thread := W_Idle, to_comm := to_comm s @ [Some job]\<rparr>"

fun jobs_to_worker :: "comm_out list \<Rightarrow> tile_protocol list" where
  "jobs_to_worker [] = []"
| "jobs_to_worker (Job_To_Worker t # out) = t # jobs_to_worker out"
| "jobs_to_worker (_ # out) = jobs_to_worker out"

definition reads_inproc :: "comm_poll \<Rightarrow> bool" where
  "reads_inproc items \<longleftrightarrow> from_broker items = None \<and> from_sub items = None \<and> from_inproc items \<noteq> None"

definition communicate :: "int \<Rightarrow> comm_poll \<Rightarrow> worker_system \<Rightarrow> worker_system" where
  "communicate now items s =
     (let (out, c) = comm_iteration now items (comm s)
      in s\<lparr>comm := c, to_thread := to_thread s @ jobs_to_worker out,
           to_comm := (if reads_inproc items then tl (to_comm s) else to_comm s)\<rparr>)"

text \<open>A poll of the inproc socket shows the first message that waits there, or nothing.\<close>

inductive worker_step :: "worker_system \<Rightarrow> worker_system \<Rightarrow> bool" where
  request: "thread s = W_Idle \<Longrightarrow> worker_step s (get_job_request s)"
| receive: "thread s = W_Waiting \<Longrightarrow> to_thread s \<noteq> [] \<Longrightarrow> worker_step s (get_job_receive s)"
| finish: "thread s = W_Working t \<Longrightarrow> worker_step s (notify t' s)"
| poll: "from_inproc items = None \<or> (\<exists>m ms. to_comm s = m # ms \<and> from_inproc items = Some m) \<Longrightarrow>
    worker_step s (communicate now items s)"

inductive worker_reachable :: "worker_system \<Rightarrow> bool" where
  start: "worker_reachable \<lparr>comm = mk_communicator t, thread = W_Idle, to_comm = [], to_thread = []\<rparr>"
| step: "worker_reachable s \<Longrightarrow> worker_step s s' \<Longrightarrow> worker_reachable s'"

definition seeking :: "communicator \<Rightarrow> bool" where
  "seeking c \<longleftrightarrow> comm_state c = state_waiting_for_job \<or> comm_state c = state_trying_to_get_job"

text \<open>The six configurations of the thread, the two queues and the communicator.\<close>

definition worker_inv :: "worker_system \<Rightarrow> bool" where
  "worker_inv s \<longleftrightarrow> comm_inv (comm s) \<and>
     (case thread s of
        W_Idle \<Rightarrow> to_thread s = [] \<and>
          ((to_comm s = [] \<and> comm_state (comm s) = state_idle) \<or>
           (\<exists>t. to_comm s = [Some t] \<and> comm_state (comm s) = state_job_processing))
      | W_Waiting \<Rightarrow>
          (to_comm s = [None] \<and> comm_state (comm s) = state_idle \<and> to_thread s = []) \<or>
          (\<exists>t. to_comm s = [Some t, None] \<and> comm_state (comm s) = state_job_processing \<and> to_thread s = []) \<or>
          (to_comm s = [] \<and> seeking (comm s) \<and> to_thread s = []) \<or>
          (\<exists>t. to_comm s = [] \<and> comm_state (comm s) = state_job_processing \<and> to_thread s = [t])
      | W_Working t \<Rightarrow> to_comm s = [] \<and> to_thread s = [] \<and> comm_state (comm s) = state_job_processing)"

lemma try_seeks: "seeking (snd (try_to_get_job now c))" "jobs_to_worker (fst (try_to_get_job now c)) = []"
  by (auto simp: try_to_get_job_def seeking_def split: option.splits)

lemma jobs_append [simp]: "jobs_to_worker (xs @ ys) = jobs_to_worker xs @ jobs_to_worker ys"
  by (induction xs rule: jobs_to_worker.induct) auto

lemma timeout_seeks:
  "jobs_to_worker (fst (check_timeout now c)) = []"
  "comm_state (snd (check_timeout now c)) = comm_state c \<or> (seeking c \<and> seeking (snd (check_timeout now c)))"
  by (auto simp: check_timeout_def try_seeks seeking_def [of c])

lemma response_moves:
  assumes "on_response now r c = (out, c')"
  shows "(jobs_to_worker out = [] \<and> (comm_state c' = comm_state c \<or> (seeking c \<and> seeking c'))) \<or>
    (\<exists>t. jobs_to_worker out = [t] \<and> seeking c \<and> comm_state c' = state_job_processing)"
  using assms try_seeks
  by (auto simp: on_response_def Let_def seeking_def split: option.splits if_splits) (metis fst_conv snd_conv)+

lemma announcement_moves:
  assumes "on_announcement now a c = (out, c')"
  shows "jobs_to_worker out = [] \<and> (comm_state c' = comm_state c \<or> (seeking c \<and> seeking c'))"
proof -
  obtain b p n where a: "a = (b, p, n)" by (metis prod_cases3)
  let ?c = "c\<lparr>brokers_with_jobs := AList.update b (mk_broker_status p n) (brokers_with_jobs c)\<rparr>"
  show ?thesis
  proof (cases "comm_state c = state_waiting_for_job")
    case True
    then have "try_to_get_job now ?c = (out, c')" using assms by (simp add: on_announcement_def a)
    then show ?thesis using try_seeks [of now ?c] True by (simp add: seeking_def)
  qed (use assms in \<open>auto simp: on_announcement_def a\<close>)
qed

text \<open>A pass that does not read the inproc socket.\<close>

lemma serve_moves:
  assumes "serve_first now items c = (out, c')" "\<not> reads_inproc items"
  shows "(jobs_to_worker out = [] \<and> (comm_state c' = comm_state c \<or> (seeking c \<and> seeking c'))) \<or>
    (\<exists>t. jobs_to_worker out = [t] \<and> seeking c \<and> comm_state c' = state_job_processing)"
  using assms response_moves [of now _ c out c'] announcement_moves [of now _ c out c']
  by (auto simp: serve_first_def reads_inproc_def split: option.splits)

lemma iteration_moves:
  assumes "comm_iteration now items c = (out, c')" "\<not> reads_inproc items"
  shows "(jobs_to_worker out = [] \<and> (comm_state c' = comm_state c \<or> (seeking c \<and> seeking c'))) \<or>
    (\<exists>t. jobs_to_worker out = [t] \<and> seeking c \<and> comm_state c' = state_job_processing)"
proof -
  obtain out1 c1 where c1: "check_timeout now c = (out1, c1)" by force
  obtain out2 c2 where c2: "serve_first now items c1 = (out2, c2)" by force
  have r: "out = out1 @ out2" "c' = c2" using assms(1) c1 c2 by (auto simp: comm_iteration_def)
  have "jobs_to_worker out1 = []" "comm_state c1 = comm_state c \<or> (seeking c \<and> seeking c1)"
    using timeout_seeks [of now c] c1 by auto
  then show ?thesis using serve_moves [OF c2 assms(2)] r by (auto simp: seeking_def)
qed

text \<open>A pass that does: the message is one the state expects.\<close>

lemma iteration_reads:
  assumes "reads_inproc items" "from_inproc items = Some m" "comm_inv c"
    and "comm_state c = (if m = None then state_idle else state_job_processing)"
  shows "jobs_to_worker (fst (comm_iteration now items c)) = []"
    and "if m = None then seeking (snd (comm_iteration now items c))
      else comm_state (snd (comm_iteration now items c)) = state_idle"
proof -
  have "check_timeout now c = ([], c)" using assms(4) by (simp add: check_timeout_def split: if_splits)
  moreover have "serve_first now items c = on_inproc now m c"
    using assms(1,2) by (simp add: serve_first_def reads_inproc_def)
  ultimately have it: "comm_iteration now items c = on_inproc now m c"
    by (simp add: comm_iteration_def case_prod_unfold)
  show "jobs_to_worker (fst (comm_iteration now items c)) = []"
    using assms(3,4) try_seeks unfolding it by (auto simp: on_inproc_def comm_inv_def split: option.splits)
  show "if m = None then seeking (snd (comm_iteration now items c))
      else comm_state (snd (comm_iteration now items c)) = state_idle"
    using assms(3,4) try_seeks unfolding it by (cases m) (auto simp: on_inproc_def comm_inv_def split: option.splits)
qed

lemma worker_step_inv: "worker_step s s' \<Longrightarrow> worker_inv s \<Longrightarrow> worker_inv s'"
proof (induction rule: worker_step.induct)
  case (request s)
  then show ?case by (auto simp: worker_inv_def get_job_request_def)
next
  case (receive s)
  then show ?case by (auto simp: worker_inv_def get_job_receive_def)
next
  case (finish s t t')
  then show ?case by (auto simp: worker_inv_def notify_def)
next
  case (poll items s now)
  obtain out c where it: "comm_iteration now items (comm s) = (out, c)" by force
  have inv: "comm_inv (comm s)" "comm_inv c"
    using poll(2) iteration_inv [of "comm s" now items] it by (auto simp: worker_inv_def)
  show ?case
  proof (cases "reads_inproc items")
    case False
    then show ?thesis
      using iteration_moves [OF it False] poll(2) inv
      by (auto simp: worker_inv_def communicate_def it seeking_def split: worker_thread.splits)
  next
    case True
    then obtain m ms where m: "to_comm s = m # ms" "from_inproc items = Some m"
      using poll(1) by (auto simp: reads_inproc_def)
    then have "comm_state (comm s) = (if m = None then state_idle else state_job_processing)"
      using poll(2) by (auto simp: worker_inv_def split: worker_thread.splits)
    then show ?thesis
      using iteration_reads [OF True m(2) inv(1), of now] poll(2) m inv True it
      by (auto simp: worker_inv_def communicate_def split: worker_thread.splits)
  qed
qed

text \<open>
  C12. The communicator and the rendering thread fit together. In every reachable state, when the
  communicator finds a message of the thread, it is a request for a job only if the communicator is idle,
  and a finished job only if it is in the processing state with the broker to return it to known: the
  branches that the code logs as impossible are. At most one job is on its way to the thread, and none
  while it holds one.
\<close>

theorem worker_protocol:
  assumes "worker_reachable s"
  shows "(to_comm s \<noteq> [] \<longrightarrow>
      (if hd (to_comm s) = None then comm_state (comm s) = state_idle
       else comm_state (comm s) = state_job_processing \<and> current_broker (comm s) \<noteq> None)) \<and>
    length (to_thread s) + (case thread s of W_Working t \<Rightarrow> 1 | _ \<Rightarrow> 0) \<le> 1"
proof -
  have "worker_inv s" using assms
    by (induction rule: worker_reachable.induct)
       (auto simp: worker_step_inv, auto simp: worker_inv_def start_inv, simp add: mk_communicator_def)
  then show ?thesis by (auto simp: worker_inv_def comm_inv_def split: worker_thread.splits)
qed

theorem worker_protocol_witness:
  "\<exists>s. worker_reachable s \<and> to_comm s = [None] \<and> comm_state (comm s) = state_idle"
proof -
  let ?s0 = "\<lparr>comm = mk_communicator 30000, thread = W_Idle, to_comm = [], to_thread = []\<rparr>"
  have "worker_step ?s0 (get_job_request ?s0)" by (rule worker_step.request) simp
  then have r: "worker_reachable (get_job_request ?s0)" by (rule worker_reachable.step [OF worker_reachable.start])
  have "to_comm (get_job_request ?s0) = [None]" by (simp add: get_job_request_def)
  then show ?thesis using worker_protocol [OF r] r by auto
qed

end
