(* ===== verification/Image.thy ===== *)
theory Image
  imports Tile_Types
begin

text \<open>
  Images (\<^verbatim>\<open>image/image.cpp\<close>): loading, merging and saving, the reduction to a palette before an image is saved as PNG, and
  drawing dots. The library GD is a parameter.
\<close>

subsection \<open>The library GD\<close>

text \<open>
  Its functions by their names, on an image \<open>'g\<close>; a null pointer is \<open>None\<close>, and the bytes of an encoded image
  come with their number. \<open>gd_components\<close> stands for the four macros that take a true colour apart into red, green,
  blue and alpha.
\<close>

type_synonym rgba = "int \<times> int \<times> int \<times> int"

record 'g gd =
  gdImageTrueColor :: "'g \<Rightarrow> bool"
  gd_sx :: "'g \<Rightarrow> int"
  gd_sy :: "'g \<Rightarrow> int"
  gdImageTrueColorPixel :: "'g \<Rightarrow> int \<Rightarrow> int \<Rightarrow> int"
  gd_components :: "int \<Rightarrow> rgba"
  gdImageCreatePalette :: "int \<Rightarrow> int \<Rightarrow> 'g option"
  gdImageCreateTrueColor :: "int \<Rightarrow> int \<Rightarrow> 'g option"
  gdImageColorAllocateAlpha :: "'g \<Rightarrow> rgba \<Rightarrow> 'g \<times> int"
  gdImageSetPixel :: "'g \<Rightarrow> int \<Rightarrow> int \<Rightarrow> int \<Rightarrow> 'g"
  gdImageAlphaBlending :: "'g \<Rightarrow> int \<Rightarrow> 'g"
  gdImageSaveAlpha :: "'g \<Rightarrow> int \<Rightarrow> 'g"
  gdImageAABlend :: "'g \<Rightarrow> 'g"
  gdImageGetTransparent :: "'g \<Rightarrow> int"
  gdImageFill :: "'g \<Rightarrow> int \<Rightarrow> int \<Rightarrow> int \<Rightarrow> 'g"
  gdImageFilledRectangle :: "'g \<Rightarrow> int \<times> int \<Rightarrow> int \<times> int \<Rightarrow> int \<Rightarrow> 'g"
  gdImageFilledEllipse :: "'g \<Rightarrow> int \<times> int \<Rightarrow> int \<times> int \<Rightarrow> int \<Rightarrow> 'g"
  gdImageCopy :: "'g \<Rightarrow> 'g \<Rightarrow> int \<times> int \<Rightarrow> int \<times> int \<Rightarrow> int \<times> int \<Rightarrow> 'g"
  gdImageCopyMerge :: "'g \<Rightarrow> 'g \<Rightarrow> int \<times> int \<Rightarrow> int \<times> int \<Rightarrow> int \<times> int \<Rightarrow> int \<Rightarrow> 'g"
  gdImagePngPtrEx :: "'g \<Rightarrow> int \<Rightarrow> string option"
  gdImageJpegPtr :: "'g \<Rightarrow> int \<Rightarrow> string option"
  gdImageGifPtr :: "'g \<Rightarrow> string option"
  gdImageCreateFromPngPtr :: "string \<Rightarrow> 'g option"
  gdImageCreateFromJpegPtr :: "string \<Rightarrow> 'g option"
  gdImageCreateFromGifPtr :: "string \<Rightarrow> 'g option"

subsection \<open>Reduction to a palette\<close>

text \<open>The colours in use, row by row; the search is given up after a row with which there are more than 255.\<close>

fun count_colours :: "(int \<Rightarrow> int \<Rightarrow> int) \<Rightarrow> int list \<Rightarrow> int list \<Rightarrow> int set \<Rightarrow> int set option" where
  "count_colours pixel xs [] colours_used = Some colours_used"
| "count_colours pixel xs (y # ys) colours_used =
     (let used = fold (\<lambda>x. insert (pixel x y)) xs colours_used
      in if card used > 255 then None else count_colours pixel xs ys used)"

text \<open>An entry of the palette for each colour, in increasing order.\<close>

definition allocate_palette :: "('g, 'z) gd_scheme \<Rightarrow> int list \<Rightarrow> 'g \<Rightarrow> 'g \<times> (int \<rightharpoonup> int)" where
  "allocate_palette gd cs pal_img =
     fold (\<lambda>c (g, palette). case gdImageColorAllocateAlpha gd g (gd_components gd c) of (g', i) \<Rightarrow> (g', palette(c \<mapsto> i)))
       cs (pal_img, Map.empty)"

definition palette_row :: "('g, 'z) gd_scheme \<Rightarrow> (int \<rightharpoonup> int) \<Rightarrow> (int \<Rightarrow> int \<Rightarrow> int) \<Rightarrow> int list \<Rightarrow> int \<Rightarrow> 'g \<Rightarrow> 'g" where
  "palette_row gd palette pixel xs y =
     fold (\<lambda>x g. gdImageSetPixel gd g x y (case palette (pixel x y) of Some i \<Rightarrow> i | None \<Rightarrow> 0)) xs"

text \<open>The result of \<open>gdImageCreatePalette\<close> is used without a check.\<close>

definition try_image_palettize :: "('g, 'z) gd_scheme \<Rightarrow> 'g \<Rightarrow> cpp_error + 'g" where
  "try_image_palettize gd img =
     (if \<not> gdImageTrueColor gd img then Inr img
      else let sx = gd_sx gd img; sy = gd_sy gd img; pixel = gdImageTrueColorPixel gd img in
        case count_colours pixel [0..sx - 1] [0..sy - 1] {} of
          None \<Rightarrow> Inr img
        | Some colours_used \<Rightarrow>
          (case gdImageCreatePalette gd sx sy of
             None \<Rightarrow> Inl Undefined_Behaviour
           | Some pal_img \<Rightarrow>
             (case allocate_palette gd (sorted_list_of_set colours_used) pal_img of
                (g, palette) \<Rightarrow> Inr (fold (palette_row gd palette pixel [0..sx - 1]) [0..sy - 1] g))))"

subsection \<open>Operations on images\<close>

text \<open>Width and height are unsigned, and signed again in GD.\<close>

definition image_width :: "('g, 'z) gd_scheme \<Rightarrow> 'g \<Rightarrow> int" where
  "image_width gd img = gd_sx gd img mod 2 ^ 32"

definition image_height :: "('g, 'z) gd_scheme \<Rightarrow> 'g \<Rightarrow> int" where
  "image_height gd img = gd_sy gd img mod 2 ^ 32"

definition image_merge :: "('g, 'z) gd_scheme \<Rightarrow> 'g \<Rightarrow> 'g \<Rightarrow> int \<Rightarrow> int \<Rightarrow> 'g" where
  "image_merge gd img other x y =
     (let sz = (trunc32 (image_width gd other), trunc32 (image_height gd other))
      in if gdImageTrueColor gd other
         then gdImageCopy gd (gdImageSaveAlpha gd (gdImageAlphaBlending gd img 1) 1) other (x, y) (0, 0) sz
         else gdImageCopyMerge gd img other (x, y) (0, 0) sz 100)"

definition DEFAULT_JPEG_QUALITY :: int where
  "DEFAULT_JPEG_QUALITY = 80"

text \<open>
  Saving returns the image too, since saving as PNG replaces it. The name of an unknown format goes to the log,
  and there may be none.
\<close>

definition image_save :: "('g, 'z) gd_scheme \<Rightarrow> int option \<Rightarrow> protoFmt \<Rightarrow> 'g \<Rightarrow> 'g \<times> (cpp_error + string)" where
  "image_save gd jpeg_quality fmt img =
     (let quality = (case jpeg_quality of Some q \<Rightarrow> q | None \<Rightarrow> DEFAULT_JPEG_QUALITY);
          (img', encoded) =
            (if fmt = fmtPNG then
               (case try_image_palettize gd img of
                  Inl e \<Rightarrow> (img, Inl e)
                | Inr pal \<Rightarrow> (let out = gdImageSaveAlpha gd pal 1 in (out, Inr (gdImagePngPtrEx gd out 9))))
             else if fmt = fmtJPEG then (img, Inr (gdImageJpegPtr gd img quality))
             else if fmt = fmtGIF then (img, Inr (gdImageGifPtr gd img))
             else (img, map_sum id (\<lambda>_. None) (mime_type_for fmt)))
      in (img', case encoded of
                  Inl e \<Rightarrow> Inl e
                | Inr None \<Rightarrow> Inl (Runtime_Error ''Could not write image.'')
                | Inr (Some str) \<Rightarrow> if str \<noteq> '''' then Inr str else Inl (Runtime_Error ''Could not write image.'')))"

text \<open>Loading an image of an unknown format goes on with a pointer that was never set.\<close>

definition image_create :: "('g, 'z) gd_scheme \<Rightarrow> string \<Rightarrow> protoFmt \<Rightarrow> cpp_error + 'g option" where
  "image_create gd data fmt =
     (if fmt = fmtPNG then Inr (gdImageCreateFromPngPtr gd data)
      else if fmt = fmtJPEG then Inr (gdImageCreateFromJpegPtr gd data)
      else if fmt = fmtGIF then Inr (gdImageCreateFromGifPtr gd data)
      else case mime_type_for fmt of Inl e \<Rightarrow> Inl e | Inr _ \<Rightarrow> Inl Undefined_Behaviour)"

definition transparent_canvas :: "('g, 'z) gd_scheme \<Rightarrow> int \<Rightarrow> int \<Rightarrow> 'g option" where
  "transparent_canvas gd w h =
     map_option (\<lambda>gd_img. let g = gdImageAABlend gd (gdImageSaveAlpha gd gd_img 1)
                          in gdImageFill gd g 0 0 (gdImageGetTransparent gd g))
       (gdImageCreateTrueColor gd w h)"

definition create_transparent :: "('g, 'z) gd_scheme \<Rightarrow> int \<Rightarrow> int \<Rightarrow> 'g option" where
  "create_transparent gd w h = transparent_canvas gd (trunc32 w) (trunc32 h)"

text \<open>The sizes of the dots are far from the bounds of an integer. The alpha of a colour: GD has 127 for transparent and 0 for opaque. The division rounds towards zero.\<close>

definition gd_alpha :: "int \<Rightarrow> int" where
  "gd_alpha a = 127 - (if a < 0 then - (- a div 2) else a div 2)"

definition allocate_color :: "('g, 'z) gd_scheme \<Rightarrow> rgba \<Rightarrow> 'g \<Rightarrow> 'g \<times> int" where
  "allocate_color gd col g = (case col of (r, gr, b, a) \<Rightarrow> gdImageColorAllocateAlpha gd g (r, gr, b, gd_alpha a))"

definition draw_dot :: "('g, 'z) gd_scheme \<Rightarrow> int \<Rightarrow> int \<Rightarrow> int \<Rightarrow> int \<Rightarrow> int \<times> int \<Rightarrow> 'g \<Rightarrow> 'g" where
  "draw_dot gd dot outline dotSize outlineThickness pixel g =
     gdImageFilledEllipse gd (gdImageFilledEllipse gd g pixel (dotSize + outlineThickness, dotSize + outlineThickness) outline)
       pixel (dotSize, dotSize) dot"

definition createMillionDotsImage :: "('g, 'z) gd_scheme \<Rightarrow> (int \<times> int) list \<Rightarrow> int \<Rightarrow> int \<Rightarrow> rgba \<Rightarrow> rgba \<Rightarrow> rgba \<Rightarrow>
    int \<Rightarrow> int \<Rightarrow> 'g option" where
  "createMillionDotsImage gd pixelCoords width height dotColor outlineColor backgroundColor dotSize outlineThickness =
     map_option (\<lambda>g0.
       let g1 = (if snd (snd (snd backgroundColor)) \<noteq> 0
                 then (case allocate_color gd backgroundColor g0 of
                         (g, background) \<Rightarrow> gdImageFilledRectangle gd g (0, 0) (width, height) background)
                 else g0);
           (g2, dot) = allocate_color gd dotColor g1;
           (g3, outline) = allocate_color gd outlineColor g2
       in fold (draw_dot gd dot outline dotSize outlineThickness) pixelCoords g3)
     (transparent_canvas gd width height)"

end
