(* ===== verification/Storage.thy ===== *)
theory Storage
  imports Image
begin

text \<open>
  Tile storage: the interface of \<^verbatim>\<open>storage/tile_storage.hpp\<close>, the storages that are built from other
  storages (\<^verbatim>\<open>union_storage.cpp\<close>, \<^verbatim>\<open>per_style_storage.cpp\<close>, \<^verbatim>\<open>expiry_overlay.cpp\<close>, \<^verbatim>\<open>compositing_storage.cpp\<close>), the
  null storage, and how storages are made from the configuration.

  A storage is the record of its operations on a state \<open>'s\<close>, which stands for everything the storages
  keep: files, remote servers, locks. An operation returns the new state and either an exception or its result.
\<close>

subsection \<open>The interface\<close>

record handle =
  h_exists :: bool
  h_last_modified :: int
  h_data :: "string option"
  h_expired :: bool

record 's tile_storage =
  st_get :: "tile_protocol \<Rightarrow> 's \<Rightarrow> 's \<times> (cpp_error + handle)"
  st_get_meta :: "tile_protocol \<Rightarrow> 's \<Rightarrow> 's \<times> (cpp_error + string option)"
  st_put_meta :: "tile_protocol \<Rightarrow> string \<Rightarrow> 's \<Rightarrow> 's \<times> (cpp_error + bool)"
  st_expire :: "tile_protocol \<Rightarrow> 's \<Rightarrow> 's \<times> (cpp_error + bool)"

subsection \<open>The null storage\<close>

definition null_handle :: handle where
  "null_handle = \<lparr>h_exists = False, h_last_modified = 0, h_data = None, h_expired = False\<rparr>"

definition null_storage :: "'s tile_storage" where
  "null_storage = \<lparr>st_get = (\<lambda>tile s. (s, Inr null_handle)), st_get_meta = (\<lambda>tile s. (s, Inr None)),
     st_put_meta = (\<lambda>tile buf s. (s, Inr True)), st_expire = (\<lambda>tile s. (s, Inr True))\<rparr>"

subsection \<open>A union of storages\<close>

fun union_get :: "'s tile_storage list \<Rightarrow> tile_protocol \<Rightarrow> 's \<Rightarrow> 's \<times> (cpp_error + handle)" where
  "union_get [] tile s = (s, Inr null_handle)"
| "union_get (st # sts) tile s =
     (case st_get st tile s of
        (s', Inl e) \<Rightarrow> (s', Inl e)
      | (s', Inr h) \<Rightarrow> if h_exists h then (s', Inr h) else union_get sts tile s')"

fun union_get_meta :: "'s tile_storage list \<Rightarrow> tile_protocol \<Rightarrow> 's \<Rightarrow> 's \<times> (cpp_error + string option)" where
  "union_get_meta [] tile s = (s, Inr None)"
| "union_get_meta (st # sts) tile s =
     (case st_get_meta st tile s of
        (s', Inl e) \<Rightarrow> (s', Inl e)
      | (s', Inr (Some d)) \<Rightarrow> (s', Inr (Some d))
      | (s', Inr None) \<Rightarrow> union_get_meta sts tile s')"

text \<open>The loop of the two operations that change the storages: all of them are called, whatever they return.\<close>

fun union_all :: "('s tile_storage \<Rightarrow> 's \<Rightarrow> 's \<times> (cpp_error + bool)) \<Rightarrow> 's tile_storage list \<Rightarrow> bool \<Rightarrow> 's \<Rightarrow>
    's \<times> (cpp_error + bool)" where
  "union_all op [] success s = (s, Inr success)"
| "union_all op (st # sts) success s =
     (case op st s of
        (s', Inl e) \<Rightarrow> (s', Inl e)
      | (s', Inr ok) \<Rightarrow> union_all op sts (success \<and> ok) s')"

definition union_put_meta :: "'s tile_storage list \<Rightarrow> tile_protocol \<Rightarrow> string \<Rightarrow> 's \<Rightarrow> 's \<times> (cpp_error + bool)" where
  "union_put_meta sts tile buf s = union_all (\<lambda>st. st_put_meta st tile buf) sts True s"

definition union_expire :: "'s tile_storage list \<Rightarrow> tile_protocol \<Rightarrow> 's \<Rightarrow> 's \<times> (cpp_error + bool)" where
  "union_expire sts tile s = union_all (\<lambda>st. st_expire st tile) sts True s"

definition union_storage :: "'s tile_storage list \<Rightarrow> 's tile_storage" where
  "union_storage sts = \<lparr>st_get = union_get sts, st_get_meta = union_get_meta sts,
     st_put_meta = union_put_meta sts, st_expire = union_expire sts\<rparr>"

subsection \<open>A storage per style\<close>

definition storage_for :: "(string \<rightharpoonup> 's tile_storage) \<Rightarrow> 's tile_storage \<Rightarrow> tile_protocol \<Rightarrow> 's tile_storage" where
  "storage_for storages deflt tile = (case storages (style tile) of None \<Rightarrow> deflt | Some st \<Rightarrow> st)"

definition per_style_storage :: "(string \<rightharpoonup> 's tile_storage) \<Rightarrow> 's tile_storage \<Rightarrow> 's tile_storage" where
  "per_style_storage storages deflt =
     \<lparr>st_get = (\<lambda>tile. st_get (storage_for storages deflt tile) tile),
      st_get_meta = (\<lambda>tile. st_get_meta (storage_for storages deflt tile) tile),
      st_put_meta = (\<lambda>tile. st_put_meta (storage_for storages deflt tile) tile),
      st_expire = (\<lambda>tile. st_expire (storage_for storages deflt tile) tile)\<rparr>"

subsection \<open>Expiry kept apart from the tiles\<close>

record 's expiry_service =
  svc_is_expired :: "tile_protocol \<Rightarrow> 's \<Rightarrow> 's \<times> (cpp_error + bool)"
  svc_set_expired :: "tile_protocol \<Rightarrow> bool \<Rightarrow> 's \<Rightarrow> 's \<times> (cpp_error + bool)"

definition overlay_handle :: "handle \<Rightarrow> bool \<Rightarrow> handle" where
  "overlay_handle h e = h\<lparr>h_expired := e\<rparr>"

definition overlay_get :: "'s tile_storage \<Rightarrow> 's expiry_service \<Rightarrow> tile_protocol \<Rightarrow> 's \<Rightarrow> 's \<times> (cpp_error + handle)" where
  "overlay_get st svc tile s =
     (case svc_is_expired svc tile s of
        (s1, Inl e) \<Rightarrow> (s1, Inl e)
      | (s1, Inr expired) \<Rightarrow>
        (case st_get st tile s1 of
           (s2, Inl e) \<Rightarrow> (s2, Inl e)
         | (s2, Inr h) \<Rightarrow> (s2, Inr (overlay_handle h expired))))"

text \<open>The result of clearing the flag is not looked at.\<close>

definition overlay_put_meta :: "'s tile_storage \<Rightarrow> 's expiry_service \<Rightarrow> tile_protocol \<Rightarrow> string \<Rightarrow> 's \<Rightarrow> 's \<times> (cpp_error + bool)" where
  "overlay_put_meta st svc tile buf s =
     (case svc_set_expired svc tile False s of
        (s1, Inl e) \<Rightarrow> (s1, Inl e)
      | (s1, Inr _) \<Rightarrow> st_put_meta st tile buf s1)"

definition expiry_overlay :: "'s tile_storage \<Rightarrow> 's expiry_service \<Rightarrow> 's tile_storage" where
  "expiry_overlay st svc = \<lparr>st_get = overlay_get st svc, st_get_meta = st_get_meta st,
     st_put_meta = overlay_put_meta st svc, st_expire = (\<lambda>tile. svc_set_expired svc tile True)\<rparr>"

subsection \<open>Compositing\<close>

text \<open>
  The exceptions of merging and saving are caught, those of loading are not. \<open>quality\<close> is the quality of JPEG images in
  the configuration, if there is one.
\<close>

definition composite :: "('g, 'z) gd_scheme \<Rightarrow> int option \<Rightarrow> string \<Rightarrow> protoFmt \<Rightarrow> string \<Rightarrow> protoFmt \<Rightarrow> protoFmt \<Rightarrow>
    cpp_error + string option" where
  "composite gd quality under_data under_fmt over_data over_fmt result_fmt =
     (case image_create gd under_data under_fmt of
        Inl e \<Rightarrow> Inl e
      | Inr under_image \<Rightarrow>
        (case image_create gd over_data over_fmt of
           Inl e \<Rightarrow> Inl e
         | Inr over_image \<Rightarrow>
           (case (under_image, over_image) of
              (Some u, Some v) \<Rightarrow>
                if image_width gd u \<noteq> image_width gd v \<or> image_height gd u \<noteq> image_height gd v then Inr None
                else (case snd (image_save gd quality result_fmt (image_merge gd u v 0 0)) of
                        Inr result_data \<Rightarrow> Inr (Some result_data)
                      | Inl Undefined_Behaviour \<Rightarrow> Inl Undefined_Behaviour
                      | Inl _ \<Rightarrow> Inr None)
            | _ \<Rightarrow> Inr None)))"

definition composite_handle :: "int \<Rightarrow> bool \<Rightarrow> string \<Rightarrow> handle" where
  "composite_handle last_mod expired data =
     \<lparr>h_exists = True, h_last_modified = last_mod, h_data = Some data, h_expired = expired\<rparr>"

record 's compositing =
  under_storage :: "'s tile_storage"
  over_storage :: "'s tile_storage"
  under_style :: "string option"
  over_style :: "string option"
  under_format :: protoFmt
  over_format :: protoFmt
  generate_format :: protoFmt
  jpeg_quality :: "int option"
  expire_under :: "bool option"
  expire_over :: "bool option"

text \<open>
  The constructor, on the values the configuration has for the two formats and on whether it has a child
  for each image format. The quality of JPEG images and the two switches for expiry are read when they are needed.
\<close>

definition mk_compositing :: "'s tile_storage \<Rightarrow> 's tile_storage \<Rightarrow> string option \<times> string option \<Rightarrow> string \<times> string \<Rightarrow>
    bool \<times> bool \<times> bool \<Rightarrow> int option \<Rightarrow> bool option \<times> bool option \<Rightarrow> cpp_error + 's compositing" where
  "mk_compositing under0 over0 styles formats has quality expires =
     (let (uf, vf) = (get_format_for (fst formats), get_format_for (snd formats));
          (jpeg, gif, png) = has;
          g0 = fmtNone;
          g1 = (if jpeg then g0 OR fmtJPEG else g0);
          g2 = (if gif then g1 OR fmtGIF else g1);
          g3 = (if png then g2 OR fmtPNG else g2)
      in if uf = fmtNone then Inl (Runtime_Error (''Value for composite storage under_format, `'' @ fst formats @ [CHR 0x27] @
             '', doesn't match a known format type.''))
         else if vf = fmtNone then Inl (Runtime_Error (''Value for composite storage over_format, `'' @ snd formats @ [CHR 0x27] @
             '', doesn't match a known format type.''))
         else if g3 = fmtNone then Inl (Runtime_Error ''No generation formats found in composite storage config. Have you set up the format configuration?'')
         else Inr \<lparr>under_storage = under0, over_storage = over0, under_style = fst styles, over_style = snd styles,
                   under_format = uf, over_format = vf, generate_format = g3, jpeg_quality = quality,
                   expire_under = fst expires, expire_over = snd expires\<rparr>)"

definition can_generate_formats :: "'s compositing \<Rightarrow> protoFmt \<Rightarrow> bool" where
  "can_generate_formats c formats \<longleftrightarrow> formats AND generate_format c = generate_format c"

definition layer_tile :: "protoFmt \<Rightarrow> string option \<Rightarrow> tile_protocol \<Rightarrow> tile_protocol" where
  "layer_tile fmt sty tile =
     (let t = tile\<lparr>format := fmt\<rparr> in case sty of Some s \<Rightarrow> t\<lparr>style := s\<rparr> | None \<Rightarrow> t)"

definition compositing_get :: "('g, 'z) gd_scheme \<Rightarrow> 's compositing \<Rightarrow> tile_protocol \<Rightarrow> 's \<Rightarrow> 's \<times> (cpp_error + handle)" where
  "compositing_get gd c tile s =
     (if \<not> can_generate_formats c (format tile) then (s, Inr null_handle)
      else case st_get (under_storage c) (layer_tile (under_format c) (under_style c) tile) s of
        (s1, Inl e) \<Rightarrow> (s1, Inl e)
      | (s1, Inr uh) \<Rightarrow>
        (if \<not> h_exists uh then (s1, Inr uh)
         else case st_get (over_storage c) (layer_tile (over_format c) (over_style c) tile) s1 of
           (s2, Inl e) \<Rightarrow> (s2, Inl e)
         | (s2, Inr vh) \<Rightarrow>
           (if \<not> h_exists vh then (s2, Inr vh)
            else (case (h_data uh, h_data vh) of
                    (Some ud, Some vd) \<Rightarrow>
                      (case composite gd (jpeg_quality c) ud (under_format c) vd (over_format c) (format tile) of
                         Inl e \<Rightarrow> (s2, Inl e)
                       | Inr (Some d) \<Rightarrow> (s2, Inr (composite_handle (max (h_last_modified uh) (h_last_modified vh))
                                            (h_expired uh \<or> h_expired vh) d))
                       | Inr None \<Rightarrow> (s2, Inr null_handle))
                  | _ \<Rightarrow> (s2, Inr null_handle)))))"

definition compositing_get_meta :: "'s compositing \<Rightarrow> tile_protocol \<Rightarrow> 's \<Rightarrow> 's \<times> (cpp_error + string option)" where
  "compositing_get_meta c tile s =
     (case st_get_meta (under_storage c) tile s of
        (s1, Inl e) \<Rightarrow> (s1, Inl e)
      | (s1, Inr None) \<Rightarrow> (s1, Inr None)
      | (s1, Inr (Some _)) \<Rightarrow>
        (case st_get_meta (over_storage c) tile s1 of
           (s2, Inl e) \<Rightarrow> (s2, Inl e)
         | (s2, Inr _) \<Rightarrow> (s2, Inr None)))"

text \<open>A switch that is missing in the configuration, or not a boolean, makes the call throw.\<close>

definition compositing_expire :: "'s compositing \<Rightarrow> tile_protocol \<Rightarrow> 's \<Rightarrow> 's \<times> (cpp_error + bool)" where
  "compositing_expire c tile s =
     (case (expire_under c, expire_over c) of
        (Some eu, Some eo) \<Rightarrow>
          (case (if eu then st_expire (under_storage c) tile s else (s, Inr True)) of
             (s1, Inl e) \<Rightarrow> (s1, Inl e)
           | (s1, Inr under_ok) \<Rightarrow>
             (case (if eo \<and> under_ok then st_expire (over_storage c) tile s1 else (s1, Inr (\<not> eo))) of
                (s2, Inl e) \<Rightarrow> (s2, Inl e)
              | (s2, Inr over_ok) \<Rightarrow> (s2, Inr (under_ok \<and> over_ok))))
      | _ \<Rightarrow> (s, Inl (Runtime_Error ''No such node'')))"

definition compositing_storage :: "('g, 'z) gd_scheme \<Rightarrow> 's compositing \<Rightarrow> 's tile_storage" where
  "compositing_storage gd c = \<lparr>st_get = compositing_get gd c, st_get_meta = compositing_get_meta c,
     st_put_meta = (\<lambda>tile buf s. (s, Inr False)), st_expire = compositing_expire c\<rparr>"

subsection \<open>The contract of a metatile store\<close>

text \<open>
  What the users of a storage rely on: a metatile that was saved is found, under every tile that shares
  its key, until it is saved again or expired, and nothing else changes. \<open>inv\<close> holds when the storage
  works without faults, \<open>writable\<close> for the tiles a metatile may be saved under.
\<close>

datatype 't store_op = Put 't string | Expire 't

locale meta_store =
  fixes get_meta :: "'t \<Rightarrow> 's \<Rightarrow> 's \<times> (cpp_error + string option)"
    and put_meta :: "'t \<Rightarrow> string \<Rightarrow> 's \<Rightarrow> 's \<times> (cpp_error + bool)"
    and expire :: "'t \<Rightarrow> 's \<Rightarrow> 's \<times> (cpp_error + bool)"
    and key :: "'t \<Rightarrow> 'k" and content :: "'s \<Rightarrow> 'k \<rightharpoonup> string"
    and inv :: "'s \<Rightarrow> bool" and writable :: "'t \<Rightarrow> bool"
  assumes get_meta_content: "inv s \<Longrightarrow> get_meta t s = (s, Inr (content s (key t)))"
    and put_meta_content: "inv s \<Longrightarrow> writable t \<Longrightarrow>
      \<exists>s'. put_meta t b s = (s', Inr True) \<and> inv s' \<and> content s' = (content s)(key t \<mapsto> b)"
    and expire_content: "inv s \<Longrightarrow>
      \<exists>s' ok. expire t s = (s', Inr ok) \<and> inv s' \<and> content s' = (content s)(key t := None)"
begin

fun run_op :: "'t store_op \<Rightarrow> 's \<Rightarrow> 's" where
  "run_op (Put t b) s = fst (put_meta t b s)"
| "run_op (Expire t) s = fst (expire t s)"

fun op_key :: "'t store_op \<Rightarrow> 'k" where
  "op_key (Put t b) = key t"
| "op_key (Expire t) = key t"

fun op_allowed :: "'t store_op \<Rightarrow> bool" where
  "op_allowed (Put t b) \<longleftrightarrow> writable t"
| "op_allowed (Expire t) \<longleftrightarrow> True"

lemma run_op_spec:
  assumes "inv s" "op_allowed op"
  shows "inv (run_op op s) \<and> (\<forall>k. k \<noteq> op_key op \<longrightarrow> content (run_op op s) k = content s k)"
proof (cases op)
  case (Put t b)
  then show ?thesis using assms put_meta_content [of s t b] by auto
next
  case (Expire t)
  then show ?thesis using assms expire_content [of s t] by auto
qed

lemma run_ops_spec:
  assumes "inv s" "\<forall>op \<in> set ops. op_allowed op"
  shows "inv (fold run_op ops s) \<and>
    (\<forall>k. k \<notin> op_key ` set ops \<longrightarrow> content (fold run_op ops s) k = content s k)"
  using assms
proof (induction ops arbitrary: s)
  case (Cons op ops)
  then show ?case using run_op_spec [of s op] by auto
qed simp

text \<open>The last save of a metatile is what is read.\<close>

lemma last_put_wins:
  assumes "inv s" "\<forall>op \<in> set (before @ after). op_allowed op" "writable t"
    and "key t \<notin> op_key ` set after" "key t' = key t"
  shows "snd (get_meta t' (fold run_op (before @ Put t b # after) s)) = Inr (Some b)"
proof -
  have b: "inv (fold run_op before s)" using run_ops_spec [OF assms(1), of before] assms(2) by simp
  obtain s1 where s1: "put_meta t b (fold run_op before s) = (s1, Inr True)" "inv s1" "content s1 (key t) = Some b"
    using put_meta_content [OF b assms(3), of b] by auto
  have "inv (fold run_op after s1) \<and> content (fold run_op after s1) (key t) = Some b"
    using run_ops_spec [OF s1(2), of after] assms(2,4) s1(3) by simp
  then show ?thesis using s1(1) assms(5) get_meta_content by simp
qed

lemma expired_not_found:
  assumes "inv s" "key t' = key t"
  shows "snd (get_meta t' (fst (expire t s))) = Inr None"
  using expire_content [OF assms(1), of t] get_meta_content assms(2) by auto

end

end
