(* ===== verification/Image_Props.thy ===== *)
theory Image_Props
  imports Image
begin

text \<open>
  Properties of images: an image that is reduced to a palette looks the same, what saving returns, and where loading
  is undefined.
\<close>

subsection \<open>Counting colours\<close>

lemma fold_insert_row: "fold (\<lambda>x. insert (f x)) xs s = f ` set xs \<union> s"
  by (induction xs arbitrary: s) auto

lemma count_colours_eq:
  assumes "finite used" "card used \<le> 255"
  shows "count_colours pixel xs ys used =
    (let all = (\<Union>y \<in> set ys. (\<lambda>x. pixel x y) ` set xs) \<union> used in if card all > 255 then None else Some all)"
  using assms
proof (induction ys arbitrary: used)
  case (Cons y ys)
  let ?u = "(\<lambda>x. pixel x y) ` set xs \<union> used"
  let ?all = "(\<Union>y \<in> set ys. (\<lambda>x. pixel x y) ` set xs) \<union> ?u"
  have all: "(\<Union>y \<in> set (y # ys). (\<lambda>x. pixel x y) ` set xs) \<union> used = ?all" by auto
  show ?case
  proof (cases "card ?u > 255")
    case True
    moreover have "card ?u \<le> card ?all" using Cons.prems(1) by (intro card_mono) auto
    ultimately show ?thesis unfolding all by (simp add: fold_insert_row Let_def)
  next
    case False
    then show ?thesis using Cons.IH [of ?u] Cons.prems unfolding all by (simp add: fold_insert_row Let_def)
  qed
qed simp

subsection \<open>What GD promises\<close>

text \<open>
  Images with a palette, as the documentation of GD has them: \<open>colours\<close> is the palette of an image, \<open>index\<close> the entry at
  a pixel. A new image has an empty palette, a colour gets the next of at most 256 entries, and setting a pixel
  inside of the image changes that pixel.
\<close>

definition same_kind :: "('g, 'z) gd_scheme \<Rightarrow> 'g \<Rightarrow> 'g \<Rightarrow> bool" where
  "same_kind gd g g' \<longleftrightarrow> gdImageTrueColor gd g' = gdImageTrueColor gd g \<and> gd_sx gd g' = gd_sx gd g \<and> gd_sy gd g' = gd_sy gd g"

definition gd_laws :: "('g, 'z) gd_scheme \<Rightarrow> ('g \<Rightarrow> rgba list) \<Rightarrow> ('g \<Rightarrow> int \<Rightarrow> int \<Rightarrow> int) \<Rightarrow> bool" where
  "gd_laws gd colours index \<longleftrightarrow>
     (\<forall>sx sy. 0 < sx \<longrightarrow> 0 < sy \<longrightarrow> (\<exists>g. gdImageCreatePalette gd sx sy = Some g \<and> \<not> gdImageTrueColor gd g \<and>
        gd_sx gd g = sx \<and> gd_sy gd g = sy \<and> colours g = [])) \<and>
     (\<forall>g c. \<not> gdImageTrueColor gd g \<longrightarrow> length (colours g) < 256 \<longrightarrow>
        (\<exists>g'. gdImageColorAllocateAlpha gd g c = (g', int (length (colours g))) \<and> same_kind gd g g' \<and> colours g' = colours g @ [c])) \<and>
     (\<forall>g x y i. \<not> gdImageTrueColor gd g \<longrightarrow> x \<in> {0..<gd_sx gd g} \<longrightarrow> y \<in> {0..<gd_sy gd g} \<longrightarrow> i \<in> {0..<int (length (colours g))} \<longrightarrow>
        same_kind gd g (gdImageSetPixel gd g x y i) \<and> colours (gdImageSetPixel gd g x y i) = colours g \<and>
        index (gdImageSetPixel gd g x y i) = (\<lambda>u v. if u = x \<and> v = y then i else index g u v))"

lemma gd_lawsD:
  assumes "gd_laws gd colours index"
  shows "0 < sx \<Longrightarrow> 0 < sy \<Longrightarrow> \<exists>g. gdImageCreatePalette gd sx sy = Some g \<and> \<not> gdImageTrueColor gd g \<and>
      gd_sx gd g = sx \<and> gd_sy gd g = sy \<and> colours g = []"
    and "\<not> gdImageTrueColor gd g \<Longrightarrow> length (colours g) < 256 \<Longrightarrow>
      \<exists>g'. gdImageColorAllocateAlpha gd g c = (g', int (length (colours g))) \<and> same_kind gd g g' \<and> colours g' = colours g @ [c]"
    and "\<not> gdImageTrueColor gd g \<Longrightarrow> x \<in> {0..<gd_sx gd g} \<Longrightarrow> y \<in> {0..<gd_sy gd g} \<Longrightarrow> i \<in> {0..<int (length (colours g))} \<Longrightarrow>
      same_kind gd g (gdImageSetPixel gd g x y i) \<and> colours (gdImageSetPixel gd g x y i) = colours g \<and>
      index (gdImageSetPixel gd g x y i) = (\<lambda>u v. if u = x \<and> v = y then i else index g u v)"
  using assms unfolding gd_laws_def by blast+

text \<open>The colour that is seen at a pixel.\<close>

definition shown :: "('g, 'z) gd_scheme \<Rightarrow> ('g \<Rightarrow> rgba list) \<Rightarrow> ('g \<Rightarrow> int \<Rightarrow> int \<Rightarrow> int) \<Rightarrow> 'g \<Rightarrow> int \<Rightarrow> int \<Rightarrow> rgba" where
  "shown gd colours index g x y =
     (if gdImageTrueColor gd g then gd_components gd (gdImageTrueColorPixel gd g x y) else colours g ! nat (index g x y))"

subsection \<open>The palette\<close>

lemma allocate_palette_gen:
  assumes "gd_laws gd colours index" "\<not> gdImageTrueColor gd g" "length (colours g) + length cs \<le> 256" "distinct cs"
  shows "\<exists>g' pal'. fold (\<lambda>c (g, palette). case gdImageColorAllocateAlpha gd g (gd_components gd c) of (g', i) \<Rightarrow> (g', palette(c \<mapsto> i)))
      cs (g, pal) = (g', pal') \<and> same_kind gd g g' \<and> colours g' = colours g @ map (gd_components gd) cs \<and>
      (\<forall>c. c \<notin> set cs \<longrightarrow> pal' c = pal c) \<and>
      (\<forall>k < length cs. pal' (cs ! k) = Some (int (length (colours g) + k)))"
  using assms(2-4)
proof (induction cs arbitrary: g pal)
  case (Cons c cs)
  obtain g1 where g1: "gdImageColorAllocateAlpha gd g (gd_components gd c) = (g1, int (length (colours g)))" "same_kind gd g g1"
      "colours g1 = colours g @ [gd_components gd c]"
    using gd_lawsD(2) [OF assms(1) Cons.prems(1)] Cons.prems(2) by fastforce
  have "\<not> gdImageTrueColor gd g1" using g1(2) Cons.prems(1) by (simp add: same_kind_def)
  moreover have "length (colours g1) + length cs \<le> 256" "distinct cs" using Cons.prems(2,3) g1(3) by simp_all
  ultimately obtain g' pal' where
    f: "fold (\<lambda>c (g, palette). case gdImageColorAllocateAlpha gd g (gd_components gd c) of (g', i) \<Rightarrow> (g', palette(c \<mapsto> i)))
      cs (g1, pal(c \<mapsto> int (length (colours g)))) = (g', pal')" "same_kind gd g1 g'" "colours g' = colours g1 @ map (gd_components gd) cs"
      "\<forall>d. d \<notin> set cs \<longrightarrow> pal' d = (pal(c \<mapsto> int (length (colours g)))) d"
      "\<forall>k < length cs. pal' (cs ! k) = Some (int (length (colours g1) + k))"
    using Cons.IH [of g1 "pal(c \<mapsto> int (length (colours g)))"] by blast
  have "pal' ((c # cs) ! k) = Some (int (length (colours g) + k))" if "k < length (c # cs)" for k
    using that f(4,5) Cons.prems(3) g1(3) by (cases k) auto
  moreover have "same_kind gd g g'" using f(2) g1(2) by (simp add: same_kind_def)
  ultimately show ?case using f(1,3,4) g1(1,3) by (intro exI [of _ g'] exI [of _ pal']) (simp del: fun_upd_apply, simp)
qed (simp add: same_kind_def)

lemma palette_row_sets:
  assumes "gd_laws gd colours index" "\<not> gdImageTrueColor gd g" "set xs \<subseteq> {0..<gd_sx gd g}" "y \<in> {0..<gd_sy gd g}"
    and "\<And>x. x \<in> set xs \<Longrightarrow> \<exists>i \<in> {0..<int (length (colours g))}. pal (pixel x y) = Some i"
  shows "same_kind gd g (palette_row gd pal pixel xs y g) \<and> colours (palette_row gd pal pixel xs y g) = colours g \<and>
    index (palette_row gd pal pixel xs y g) = (\<lambda>u v. if v = y \<and> u \<in> set xs then the (pal (pixel u v)) else index g u v)"
  using assms(2-)
proof (induction xs arbitrary: g)
  case (Cons x xs)
  obtain i where i: "i \<in> {0..<int (length (colours g))}" "pal (pixel x y) = Some i" using Cons.prems(4) [of x] by auto
  let ?g = "gdImageSetPixel gd g x y i"
  have s: "same_kind gd g ?g" "colours ?g = colours g" "index ?g = (\<lambda>u v. if u = x \<and> v = y then i else index g u v)"
    using gd_lawsD(3) [OF assms(1) Cons.prems(1) _ Cons.prems(3) i(1), of x] Cons.prems(2) by auto
  have "palette_row gd pal pixel (x # xs) y g = palette_row gd pal pixel xs y ?g" using i(2) by (simp add: palette_row_def)
  moreover have "same_kind gd ?g (palette_row gd pal pixel xs y ?g) \<and> colours (palette_row gd pal pixel xs y ?g) = colours ?g \<and>
      index (palette_row gd pal pixel xs y ?g) = (\<lambda>u v. if v = y \<and> u \<in> set xs then the (pal (pixel u v)) else index ?g u v)"
    by (rule Cons.IH) (use s Cons.prems in \<open>auto simp: same_kind_def\<close>)
  ultimately show ?case using s i(2) by (auto simp: same_kind_def fun_eq_iff)
qed (simp add: palette_row_def same_kind_def)

lemma palette_rows_set:
  assumes "gd_laws gd colours index" "\<not> gdImageTrueColor gd g" "set xs \<subseteq> {0..<gd_sx gd g}" "set ys \<subseteq> {0..<gd_sy gd g}"
    and "\<And>x y. x \<in> set xs \<Longrightarrow> y \<in> set ys \<Longrightarrow> \<exists>i \<in> {0..<int (length (colours g))}. pal (pixel x y) = Some i"
  shows "same_kind gd g (fold (palette_row gd pal pixel xs) ys g) \<and> colours (fold (palette_row gd pal pixel xs) ys g) = colours g \<and>
    index (fold (palette_row gd pal pixel xs) ys g) = (\<lambda>u v. if v \<in> set ys \<and> u \<in> set xs then the (pal (pixel u v)) else index g u v)"
  using assms(2-)
proof (induction ys arbitrary: g)
  case (Cons y ys)
  let ?g = "palette_row gd pal pixel xs y g"
  have s: "same_kind gd g ?g" "colours ?g = colours g"
      "index ?g = (\<lambda>u v. if v = y \<and> u \<in> set xs then the (pal (pixel u v)) else index g u v)"
    using palette_row_sets [OF assms(1) Cons.prems(1,2), of y pal pixel] Cons.prems(3,4) by auto
  have "same_kind gd ?g (fold (palette_row gd pal pixel xs) ys ?g) \<and> colours (fold (palette_row gd pal pixel xs) ys ?g) = colours ?g \<and>
      index (fold (palette_row gd pal pixel xs) ys ?g) = (\<lambda>u v. if v \<in> set ys \<and> u \<in> set xs then the (pal (pixel u v)) else index ?g u v)"
    by (rule Cons.IH) (use s Cons.prems in \<open>auto simp: same_kind_def\<close>)
  then show ?case using s by (auto simp: same_kind_def fun_eq_iff)
qed (simp add: same_kind_def)

lemma colours_in_use:
  "(\<Union>y \<in> set [0..sy - 1]. (\<lambda>x. pixel x y) ` set [0..sx - 1]) = (\<lambda>(x, y). pixel x y) ` ({0..<sx} \<times> {0..<sy})" for sx sy :: int
  by force

lemma allocate_palette_all:
  assumes "gd_laws gd colours index" "\<not> gdImageTrueColor gd g" "colours g = []" "finite used" "card used \<le> 255"
  shows "\<exists>g' pal. allocate_palette gd (sorted_list_of_set used) g = (g', pal) \<and> same_kind gd g g' \<and>
    (\<forall>c \<in> used. \<exists>i \<in> {0..<int (length (colours g'))}. pal c = Some i \<and> colours g' ! nat i = gd_components gd c)"
proof -
  let ?cs = "sorted_list_of_set used"
  obtain g' pal where p: "allocate_palette gd ?cs g = (g', pal)" "same_kind gd g g'" "colours g' = map (gd_components gd) ?cs"
      "\<forall>k < length ?cs. pal (?cs ! k) = Some (int k)"
    using allocate_palette_gen [OF assms(1,2), of ?cs Map.empty] assms(3-5) unfolding allocate_palette_def by auto
  have "\<exists>i \<in> {0..<int (length (colours g'))}. pal c = Some i \<and> colours g' ! nat i = gd_components gd c" if "c \<in> used" for c
  proof -
    from that assms(4) obtain k where "k < length ?cs" "?cs ! k = c" by (metis in_set_conv_nth set_sorted_list_of_set)
    then show ?thesis using p(3,4) by (intro bexI [of _ "int k"]) auto
  qed
  then show ?thesis using p(1,2) by blast
qed

text \<open>
  C40. Before an image is saved as PNG it is reduced to a palette if it has at most 255 colours: the result has the same size and
  the same colour at every pixel, transparency included, and an image that has more colours stays as it is.
\<close>

theorem palettize_same_picture:
  assumes laws: "gd_laws gd colours index" and pos: "0 < gd_sx gd img" "0 < gd_sy gd img"
  shows "\<exists>img'. try_image_palettize gd img = Inr img' \<and> gd_sx gd img' = gd_sx gd img \<and> gd_sy gd img' = gd_sy gd img \<and>
    (\<forall>x \<in> {0..<gd_sx gd img}. \<forall>y \<in> {0..<gd_sy gd img}. shown gd colours index img' x y = shown gd colours index img x y) \<and>
    (gdImageTrueColor gd img' \<longleftrightarrow> gdImageTrueColor gd img \<and>
       card ((\<lambda>(x, y). gdImageTrueColorPixel gd img x y) ` ({0..<gd_sx gd img} \<times> {0..<gd_sy gd img})) > 255)"
proof -
  let ?sx = "gd_sx gd img" and ?sy = "gd_sy gd img" and ?pixel = "gdImageTrueColorPixel gd img"
  define used where "used = (\<lambda>(x, y). ?pixel x y) ` ({0..<?sx} \<times> {0..<?sy})"
  have fin: "finite used" by (simp add: used_def)
  have count: "count_colours ?pixel [0..?sx - 1] [0..?sy - 1] {} = (if card used > 255 then None else Some used)"
    using count_colours_eq [of "{}" ?pixel "[0..?sx - 1]" "[0..?sy - 1]"] unfolding colours_in_use used_def by (simp add: Let_def)
  show ?thesis
  proof (cases "gdImageTrueColor gd img \<and> card used \<le> 255")
    case True
    obtain g where g: "gdImageCreatePalette gd ?sx ?sy = Some g" "\<not> gdImageTrueColor gd g" "gd_sx gd g = ?sx" "gd_sy gd g = ?sy" "colours g = []"
      using gd_lawsD(1) [OF laws pos] by blast
    obtain g' pal where p: "allocate_palette gd (sorted_list_of_set used) g = (g', pal)" "same_kind gd g g'"
        "\<forall>c \<in> used. \<exists>i \<in> {0..<int (length (colours g'))}. pal c = Some i \<and> colours g' ! nat i = gd_components gd c"
      using allocate_palette_all [OF laws g(2,5) fin] True by blast
    let ?r = "fold (palette_row gd pal ?pixel [0..?sx - 1]) [0..?sy - 1] g'"
    have pix: "?pixel x y \<in> used" if "x \<in> {0..<?sx}" "y \<in> {0..<?sy}" for x y
      using that by (force simp: used_def)
    have "\<not> gdImageTrueColor gd g'" "gd_sx gd g' = ?sx" "gd_sy gd g' = ?sy" using p(2) g(2-4) by (simp_all add: same_kind_def)
    note k = this
    have r: "same_kind gd g' ?r" "colours ?r = colours g'"
        "index ?r = (\<lambda>u v. if v \<in> set [0..?sy - 1] \<and> u \<in> set [0..?sx - 1] then the (pal (?pixel u v)) else index g' u v)"
      using palette_rows_set [OF laws k(1), of "[0..?sx - 1]" "[0..?sy - 1]" pal ?pixel] p(3) pix k(2,3) by fastforce+
    have "shown gd colours index ?r x y = gd_components gd (?pixel x y)" if "x \<in> {0..<?sx}" "y \<in> {0..<?sy}" for x y
      using p(3) pix [OF that] that r k(1) by (fastforce simp: shown_def same_kind_def)
    moreover have "try_image_palettize gd img = Inr ?r" using True count g(1) p(1) by (simp add: try_image_palettize_def)
    ultimately show ?thesis using r(1) k True unfolding used_def by (auto simp: same_kind_def shown_def)
  next
    case False
    then have "try_image_palettize gd img = Inr img" using count by (auto simp: try_image_palettize_def)
    then show ?thesis using False unfolding used_def by auto
  qed
qed

text \<open>A library of images in memory.\<close>

record ex_image =
  ei_true :: bool
  ei_sx :: int
  ei_sy :: int
  ei_pixel :: "int \<Rightarrow> int \<Rightarrow> int"
  ei_colours :: "rgba list"

definition ex_gd :: "ex_image gd" where
  "ex_gd = \<lparr>gdImageTrueColor = ei_true, gd_sx = ei_sx, gd_sy = ei_sy, gdImageTrueColorPixel = ei_pixel,
     gd_components = (\<lambda>c. (c, c, c, 0)),
     gdImageCreatePalette = (\<lambda>sx sy. Some \<lparr>ei_true = False, ei_sx = sx, ei_sy = sy, ei_pixel = (\<lambda>x y. 0), ei_colours = []\<rparr>),
     gdImageCreateTrueColor = (\<lambda>sx sy. Some \<lparr>ei_true = True, ei_sx = sx, ei_sy = sy, ei_pixel = (\<lambda>x y. 0), ei_colours = []\<rparr>),
     gdImageColorAllocateAlpha = (\<lambda>g c. (g\<lparr>ei_colours := ei_colours g @ [c]\<rparr>, int (length (ei_colours g)))),
     gdImageSetPixel = (\<lambda>g x y i. g\<lparr>ei_pixel := (\<lambda>u v. if u = x \<and> v = y then i else ei_pixel g u v)\<rparr>),
     gdImageAlphaBlending = (\<lambda>g i. g), gdImageSaveAlpha = (\<lambda>g i. g), gdImageAABlend = (\<lambda>g. g), gdImageGetTransparent = (\<lambda>g. 0),
     gdImageFill = (\<lambda>g x y c. g), gdImageFilledRectangle = (\<lambda>g p q c. g), gdImageFilledEllipse = (\<lambda>g p q c. g),
     gdImageCopy = (\<lambda>g other p q sz. g\<lparr>ei_pixel := ei_pixel other\<rparr>), gdImageCopyMerge = (\<lambda>g other p q sz pct. g),
     gdImagePngPtrEx = (\<lambda>g l. Some (if ei_true g then ''T'' else ''P'')), gdImageJpegPtr = (\<lambda>g q. Some ''J''), gdImageGifPtr = (\<lambda>g. None),
     gdImageCreateFromPngPtr = (\<lambda>d. Some \<lparr>ei_true = True, ei_sx = 2, ei_sy = 1, ei_pixel = (\<lambda>x y. x), ei_colours = []\<rparr>),
     gdImageCreateFromJpegPtr = (\<lambda>d. Some \<lparr>ei_true = True, ei_sx = 2, ei_sy = 1, ei_pixel = (\<lambda>x y. 0), ei_colours = []\<rparr>),
     gdImageCreateFromGifPtr = (\<lambda>d. None)\<rparr>"

lemma ex_gd_laws: "gd_laws ex_gd ei_colours ei_pixel"
  by (auto simp: gd_laws_def same_kind_def ex_gd_def)

theorem palettize_same_picture_witness:
  "\<exists>img'. try_image_palettize ex_gd \<lparr>ei_true = True, ei_sx = 3, ei_sy = 2, ei_pixel = (\<lambda>x y. 9 * x), ei_colours = []\<rparr> = Inr img' \<and>
     \<not> ei_true img' \<and> shown ex_gd ei_colours ei_pixel img' 2 1 = (18, 18, 18, 0)"
proof -
  let ?img = "\<lparr>ei_true = True, ei_sx = 3, ei_sy = 2, ei_pixel = (\<lambda>x y. 9 * x), ei_colours = []\<rparr>"
  have "card ((\<lambda>(x, y). 9 * x) ` ({0..<3 :: int} \<times> {0..<2 :: int})) \<le> card ({0..<3 :: int} \<times> {0..<2 :: int})"
    by (rule card_image_le) simp
  then have "\<not> card ((\<lambda>(x, y). 9 * x) ` ({0..<3 :: int} \<times> {0..<2 :: int})) > 255" by simp
  then show ?thesis
    using palettize_same_picture [OF ex_gd_laws, of ?img] by (auto simp: ex_gd_def shown_def)
qed

subsection \<open>Saving and loading\<close>

text \<open>An image that is saved is never empty, and it is saved only in the three formats.\<close>

lemma image_save_some:
  assumes "image_save gd quality fmt img = (img', Inr d)"
  shows "d \<noteq> '''' \<and> fmt \<in> {fmtPNG, fmtJPEG, fmtGIF}"
  using assms by (auto simp: image_save_def Let_def split: if_splits sum.splits option.splits)
    (auto simp: mime_type_for_def split: if_splits)

lemma image_create_json: "image_create gd data fmtJSON = Inl Undefined_Behaviour"
  by (simp add: image_create_def mime_type_for_def fmt_defs)

lemma gd_alpha_bounds: "0 \<le> a \<Longrightarrow> a \<le> 255 \<Longrightarrow> 0 \<le> gd_alpha a \<and> gd_alpha a \<le> 127"
  by (auto simp: gd_alpha_def)

end
