(* ===== verification/Storage_Props.thy ===== *)
theory Storage_Props
  imports Storage Image_Props
begin

text \<open>
  Properties of the storages built from other storages: the first storage of a union that has a tile
  serves it, saving and expiring reach every storage, and what a composited tile is made of.
\<close>

subsection \<open>Union\<close>

definition found_or_error :: "tile_protocol \<Rightarrow> 's \<Rightarrow> 's tile_storage \<Rightarrow> bool" where
  "found_or_error tile s st \<longleftrightarrow> (case snd (st_get st tile s) of Inl e \<Rightarrow> True | Inr h \<Rightarrow> h_exists h)"

lemma union_get_found:
  assumes "\<forall>st \<in> set sts. fst (st_get st tile s) = s"
  shows "union_get sts tile s =
    (s, case find (found_or_error tile s) sts of Some st \<Rightarrow> snd (st_get st tile s) | None \<Rightarrow> Inr null_handle)"
  using assms
proof (induction sts)
  case (Cons st sts)
  obtain r where "st_get st tile s = (s, r)" using Cons.prems by (metis list.set_intros(1) prod.collapse)
  then show ?case using Cons by (auto simp: found_or_error_def split: sum.splits)
qed simp

text \<open>The calls of the loop that saves or expires: what each storage returned, up to an exception.\<close>

fun calls :: "('s tile_storage \<Rightarrow> 's \<Rightarrow> 's \<times> (cpp_error + bool)) \<Rightarrow> 's tile_storage list \<Rightarrow> 's \<Rightarrow> (cpp_error + bool) list \<times> 's" where
  "calls op [] s = ([], s)"
| "calls op (st # sts) s =
     (case op st s of
        (s', Inl e) \<Rightarrow> ([Inl e], s')
      | (s', Inr b) \<Rightarrow> (let (rs, s'') = calls op sts s' in (Inr b # rs, s'')))"

lemma union_all_calls:
  "fst (union_all op sts success s) = snd (calls op sts s) \<and>
   snd (union_all op sts success s) =
     (if \<exists>e. Inl e \<in> set (fst (calls op sts s)) then last (fst (calls op sts s))
      else Inr (success \<and> (\<forall>r \<in> set (fst (calls op sts s)). r = Inr True))) \<and>
   ((\<exists>e. Inl e \<in> set (fst (calls op sts s))) \<or> length (fst (calls op sts s)) = length sts)"
proof (induction sts arbitrary: success s)
  case (Cons st sts)
  obtain s' r where st: "op st s = (s', r)" by force
  show ?case
  proof (cases r)
    case (Inl e)
    then show ?thesis by (auto simp: st)
  next
    case (Inr b)
    have "fst (calls op sts s') \<noteq> []" if "Inl e \<in> set (fst (calls op sts s'))" for e using that by auto
    then show ?thesis using Cons.IH [where success = "success \<and> b" and s = s'] Inr
      by (auto simp: st case_prod_unfold Let_def)
  qed
qed simp

lemma calls_error: "Inl e \<in> set (fst (calls op sts s)) \<Longrightarrow> \<exists>e'. last (fst (calls op sts s)) = Inl e'"
proof (induction sts arbitrary: s)
  case (Cons st sts)
  obtain s' r where st: "op st s = (s', r)" by force
  show ?case using Cons by (cases r) (auto simp: st case_prod_unfold Let_def)
qed simp

text \<open>
  Saving a metatile to a union, and expiring one, calls every storage of the union in order, each on the state
  the one before left, and whatever the ones before returned. The result is success exactly if every one of
  them succeeded. Only an exception ends it early, and is passed on.
\<close>

theorem union_reaches_all:
  "fst (union_put_meta sts tile buf s) = snd (calls (\<lambda>st. st_put_meta st tile buf) sts s) \<and>
   (case snd (union_put_meta sts tile buf s) of
      Inr ok \<Rightarrow> length (fst (calls (\<lambda>st. st_put_meta st tile buf) sts s)) = length sts \<and>
        (ok \<longleftrightarrow> (\<forall>r \<in> set (fst (calls (\<lambda>st. st_put_meta st tile buf) sts s)). r = Inr True))
    | Inl e \<Rightarrow> Inl e \<in> set (fst (calls (\<lambda>st. st_put_meta st tile buf) sts s))) \<and>
   fst (union_expire sts tile s) = snd (calls (\<lambda>st. st_expire st tile) sts s) \<and>
   (case snd (union_expire sts tile s) of
      Inr ok \<Rightarrow> length (fst (calls (\<lambda>st. st_expire st tile) sts s)) = length sts \<and>
        (ok \<longleftrightarrow> (\<forall>r \<in> set (fst (calls (\<lambda>st. st_expire st tile) sts s)). r = Inr True))
    | Inl e \<Rightarrow> Inl e \<in> set (fst (calls (\<lambda>st. st_expire st tile) sts s)))"
proof -
  have step: "case snd (union_all op sts True s) of
      Inr ok \<Rightarrow> length (fst (calls op sts s)) = length sts \<and> (ok \<longleftrightarrow> (\<forall>r \<in> set (fst (calls op sts s)). r = Inr True))
    | Inl e \<Rightarrow> Inl e \<in> set (fst (calls op sts s))" for op
  proof (cases "\<exists>e. Inl e \<in> set (fst (calls op sts s))")
    case True
    then obtain e where "last (fst (calls op sts s)) = Inl e" "fst (calls op sts s) \<noteq> []"
      using calls_error by fastforce
    then have "snd (union_all op sts True s) = Inl e" "Inl e \<in> set (fst (calls op sts s))"
      using union_all_calls [of op sts True s] True last_in_set by (metis, metis)
    then show ?thesis by simp
  next
    case False
    then show ?thesis using union_all_calls [of op sts True s] by auto
  qed
  have fin: "fst (union_all op sts True s) = snd (calls op sts s)" for op
    using union_all_calls [of op sts True s] by simp
  show ?thesis unfolding union_put_meta_def union_expire_def by (intro conjI step fin)
qed

theorem union_reaches_all_witness:
  "union_put_meta [null_storage, null_storage] default_tile ''d'' () = ((), Inr True) \<and>
   union_expire [null_storage] default_tile () = ((), Inr True)"
proof -
  have "snd (union_put_meta [null_storage, null_storage] default_tile ''d'' ()) \<noteq> Inr False"
    using union_reaches_all [of "[null_storage, null_storage]" default_tile "''d''" "()"]
    by (auto simp: null_storage_def)
  then show ?thesis
    by (auto simp: null_storage_def union_put_meta_def union_expire_def)
qed

text \<open>
  Looking a tile up in a union of storages whose lookups leave the state alone: the result is that of the
  first storage that has the tile or throws, and the null handle if there is none.
\<close>

theorem union_get_first:
  assumes "\<forall>st \<in> set sts. fst (st_get st tile s) = s"
  shows "union_get sts tile s =
    (s, case find (found_or_error tile s) sts of Some st \<Rightarrow> snd (st_get st tile s) | None \<Rightarrow> Inr null_handle)"
  using assms by (rule union_get_found)

theorem union_get_first_witness:
  "union_get [null_storage, null_storage\<lparr>st_get := (\<lambda>t s. (s, Inr (composite_handle 7 False ''d'')))\<rparr>] default_tile () =
     ((), Inr (composite_handle 7 False ''d''))"
  using union_get_first [of "[null_storage, null_storage\<lparr>st_get := (\<lambda>t s. (s, Inr (composite_handle 7 False ''d'')))\<rparr>]" default_tile "()"]
  by (simp add: null_storage_def null_handle_def composite_handle_def found_or_error_def)

subsection \<open>Compositing\<close>

lemma compositing_get_exists:
  assumes "compositing_get gd c tile s = (s', Inr h)" "h_exists h"
  shows "can_generate_formats c (format tile) \<and> (\<exists>s1 uh vh ud vd d.
    st_get (under_storage c) (layer_tile (under_format c) (under_style c) tile) s = (s1, Inr uh) \<and>
    st_get (over_storage c) (layer_tile (over_format c) (over_style c) tile) s1 = (s', Inr vh) \<and>
    h_exists uh \<and> h_exists vh \<and> h_data uh = Some ud \<and> h_data vh = Some vd \<and>
    composite gd (jpeg_quality c) ud (under_format c) vd (over_format c) (format tile) = Inr (Some d) \<and>
    h = composite_handle (max (h_last_modified uh) (h_last_modified vh)) (h_expired uh \<or> h_expired vh) d)"
  using assms
  by (auto simp: compositing_get_def null_handle_def split: if_splits prod.splits sum.splits option.splits)

text \<open>
  A composited tile is conservative: it is served only if both layers have their tile and the images
  could be merged; its time is the later of the two, so that a change of either layer is noticed, and it is expired
  if either of them is.
\<close>

theorem compositing_conservative:
  assumes "compositing_get gd c tile s = (s', Inr h)" "h_exists h"
  shows "\<exists>s1 uh vh ud vd d.
    st_get (under_storage c) (layer_tile (under_format c) (under_style c) tile) s = (s1, Inr uh) \<and>
    st_get (over_storage c) (layer_tile (over_format c) (over_style c) tile) s1 = (s', Inr vh) \<and>
    h_exists uh \<and> h_exists vh \<and> h_data uh = Some ud \<and> h_data vh = Some vd \<and> h_data h = Some d \<and>
    composite gd (jpeg_quality c) ud (under_format c) vd (over_format c) (format tile) = Inr (Some d) \<and>
    h_last_modified uh \<le> h_last_modified h \<and> h_last_modified vh \<le> h_last_modified h \<and>
    h_last_modified h \<in> {h_last_modified uh, h_last_modified vh} \<and>
    (h_expired h \<longleftrightarrow> h_expired uh \<or> h_expired vh)"
  using compositing_get_exists [OF assms] by (auto simp: composite_handle_def)

definition ex_layer :: "int \<Rightarrow> string \<Rightarrow> unit tile_storage" where
  "ex_layer t d = null_storage\<lparr>st_get := (\<lambda>tile s. (s, Inr (composite_handle t False d)))\<rparr>"

definition ex_comp :: "protoFmt \<Rightarrow> unit compositing" where
  "ex_comp g = \<lparr>under_storage = ex_layer 5 ''u'', over_storage = ex_layer 9 ''o'', under_style = None, over_style = None,
     under_format = fmtJPEG, over_format = fmtPNG, generate_format = g, jpeg_quality = None, expire_under = None, expire_over = None\<rparr>"

theorem compositing_conservative_witness:
  "\<exists>h. compositing_get ex_gd (ex_comp fmtJPEG) (default_tile\<lparr>format := fmtJPEG\<rparr>) () = ((), Inr h) \<and> h_exists h \<and> h_last_modified h \<in> {5, 9}"
proof -
  have g: "compositing_get ex_gd (ex_comp fmtJPEG) (default_tile\<lparr>format := fmtJPEG\<rparr>) () = ((), Inr (composite_handle 9 False ''J''))"
    by (simp add: compositing_get_def ex_comp_def ex_layer_def ex_gd_def can_generate_formats_def composite_def image_create_def
        image_save_def image_merge_def image_width_def image_height_def fmt_defs composite_handle_def default_tile_def null_storage_def)
  have "h_exists (composite_handle 9 False ''J'')" by (simp add: composite_handle_def)
  then show ?thesis
    using compositing_conservative [OF g] g
    by (auto simp: ex_comp_def ex_layer_def composite_handle_def null_storage_def)
qed

text \<open>
  The check of the formats is the wrong way round: it asks that every configured format is requested,
  where the comment asks that the requested ones are configured. A request for a single format never gets a
  tile from a compositing storage that is configured for two or more of the formats.
\<close>

theorem compositing_single_format_refused:
  assumes "format tile \<in> {fmtPNG, fmtJPEG, fmtGIF}" "f \<in> {fmtPNG, fmtJPEG, fmtGIF}"
    and "generate_format c AND f = f" "f \<noteq> format tile"
  shows "compositing_get gd c tile s = (s, Inr null_handle)"
proof -
  have "format tile AND f = 0" using assms(1,2,4) by (auto simp: fmt_defs)
  moreover have "f \<noteq> 0" using assms(2) by (auto simp: fmt_defs)
  ultimately have "\<not> can_generate_formats c (format tile)"
    using assms(3) by (metis and.assoc can_generate_formats_def)
  then show ?thesis by (simp add: compositing_get_def)
qed

theorem compositing_single_format_refused_witness:
  "compositing_get ex_gd (ex_comp (fmtPNG OR fmtJPEG)) default_tile () = ((), Inr null_handle)"
  using compositing_single_format_refused [of default_tile fmtJPEG "ex_comp (fmtPNG OR fmtJPEG)" ex_gd "()"]
  by (simp add: default_tile_def ex_comp_def fmt_defs)

text \<open>
  The constructor takes JSON for the format of a layer. When both layers then have a tile, the image is loaded through a pointer
  that was never set.
\<close>

lemma compositing_json_undefined:
  assumes "mk_compositing under0 over0 styles (''json'', vf) has q ex = Inr c" "can_generate_formats c (format tile)"
    and "st_get under0 (layer_tile (under_format c) (under_style c) tile) s = (s1, Inr uh)" "h_exists uh" "h_data uh = Some ud"
    and "st_get over0 (layer_tile (over_format c) (over_style c) tile) s1 = (s2, Inr vh)" "h_exists vh" "h_data vh = Some vd"
  shows "compositing_get gd c tile s = (s2, Inl Undefined_Behaviour)"
proof -
  have "under_storage c = under0" "over_storage c = over0" "under_format c = fmtJSON"
    using assms(1) by (auto simp: mk_compositing_def Let_def get_format_for_def split: if_splits prod.splits)
  then show ?thesis using assms(2-) image_create_json [of gd ud] by (simp add: compositing_get_def composite_def)
qed

end
