(* ===== verification/Storage_Config.thy ===== *)
theory Storage_Config
  imports Storage
begin

text \<open>
  How storages are made from the configuration: the registry (\<^verbatim>\<open>storage/tile_storage.cpp\<close>) and the creators
  of the composed storages, which cut the part of a sub-storage out of the flat keys of an INI section.
  Property trees are Boost's: a node has a text and an ordered list of named children; paths are split
  at a separator.
\<close>

subsection \<open>Property trees\<close>

datatype conf_tree = Conf (conf_text: string) (conf_kids: "(string \<times> conf_tree) list")

definition empty_conf :: conf_tree where
  "empty_conf = Conf '''' []"

fun split_on :: "char \<Rightarrow> string \<Rightarrow> string list" where
  "split_on sep [] = ['''']"
| "split_on sep (c # cs) =
     (if c = sep then '''' # split_on sep cs
      else (case split_on sep cs of w # ws \<Rightarrow> (c # w) # ws | [] \<Rightarrow> [[c]]))"

fun walk :: "conf_tree \<Rightarrow> string list \<Rightarrow> conf_tree option" where
  "walk t [] = Some t"
| "walk t (k # ks) = (case map_of (conf_kids t) k of Some c \<Rightarrow> walk c ks | None \<Rightarrow> None)"

definition get_child :: "conf_tree \<Rightarrow> string \<Rightarrow> conf_tree option" where
  "get_child t path = walk t (split_on (CHR ''.'') path)"

definition get_text :: "conf_tree \<Rightarrow> string \<Rightarrow> string option" where
  "get_text t path = map_option conf_text (get_child t path)"

text \<open>\<^verbatim>\<open>put\<close>: replace the text of the node at the path, which is appended where it does not exist.\<close>

fun replace_kid :: "string \<Rightarrow> conf_tree \<Rightarrow> (string \<times> conf_tree) list \<Rightarrow> (string \<times> conf_tree) list" where
  "replace_kid k t [] = [(k, t)]"
| "replace_kid k t ((j, u) # kids) = (if j = k then (k, t) # kids else (j, u) # replace_kid k t kids)"

fun put_path :: "string list \<Rightarrow> string \<Rightarrow> conf_tree \<Rightarrow> conf_tree" where
  "put_path [] v t = Conf v (conf_kids t)"
| "put_path (k # ks) v t =
     (let c = (case map_of (conf_kids t) k of Some c \<Rightarrow> c | None \<Rightarrow> empty_conf)
      in Conf (conf_text t) (replace_kid k (put_path ks v c) (conf_kids t)))"

definition put_text :: "string \<Rightarrow> string \<Rightarrow> conf_tree \<Rightarrow> conf_tree" where
  "put_text path v t = put_path (split_on (CHR ''.'') path) v t"

subsection \<open>The part of a sub-storage\<close>

fun copy_entries :: "conf_tree \<Rightarrow> string \<Rightarrow> (string \<times> conf_tree) list \<Rightarrow> conf_tree \<Rightarrow> cpp_error + conf_tree" where
  "copy_entries pt prefix [] sub = Inr sub"
| "copy_entries pt prefix ((key, c) # entries) sub =
     (if take (length prefix) key = prefix then
        (case walk pt (split_on (CHR '';'') key) of
           None \<Rightarrow> Inl (Runtime_Error (''No such node ('' @ key @ '')''))
         | Some n \<Rightarrow> copy_entries pt prefix entries (put_text (drop (length prefix) key) (conf_text n) sub))
      else copy_entries pt prefix entries sub)"

definition get_subtree :: "conf_tree \<Rightarrow> string \<Rightarrow> cpp_error + conf_tree" where
  "get_subtree pt name =
     copy_entries pt (name @ ''.'') (conf_kids pt) (case get_child pt name of Some c \<Rightarrow> c | None \<Rightarrow> empty_conf)"

subsection \<open>The registry\<close>

text \<open>A creator returns nothing where the code returns a null pointer.\<close>

type_synonym 's creator = "conf_tree \<Rightarrow> cpp_error + 's tile_storage option"

definition storage_add :: "string \<Rightarrow> 's creator \<Rightarrow> (string \<rightharpoonup> 's creator) \<Rightarrow> bool \<times> (string \<rightharpoonup> 's creator)" where
  "storage_add type func cont = (if cont type = None then (True, cont(type \<mapsto> func)) else (False, cont))"

definition storage_remove :: "string \<Rightarrow> (string \<rightharpoonup> 's creator) \<Rightarrow> bool \<times> (string \<rightharpoonup> 's creator)" where
  "storage_remove type cont = (cont type \<noteq> None, cont(type := None))"

definition storage_create :: "(string \<rightharpoonup> 's creator) \<Rightarrow> 's creator" where
  "storage_create cont pt =
     (case get_text pt ''type'' of
        Some type \<Rightarrow> (case cont type of Some func \<Rightarrow> func pt | None \<Rightarrow> Inr None)
      | None \<Rightarrow> Inr None)"

subsection \<open>The creators\<close>

text \<open>\<^verbatim>\<open>boost::split\<close> at commas and blanks, with runs of separators taken as one.\<close>

function split_names :: "string \<Rightarrow> string list" where
  "split_names [] = ['''']"
| "split_names (c # cs) =
     (if c = CHR '','' \<or> c = CHR '' '' then '''' # split_names (dropWhile (\<lambda>d. d = CHR '','' \<or> d = CHR '' '') cs)
      else (case split_names cs of w # ws \<Rightarrow> (c # w) # ws | [] \<Rightarrow> [[c]]))"
  by pat_completeness auto
termination
  by (relation "measure length") (auto simp: less_Suc_eq_le length_dropWhile_le)

definition make_subtree :: "'s creator \<Rightarrow> string \<Rightarrow> conf_tree \<Rightarrow> string \<Rightarrow> cpp_error + 's tile_storage" where
  "make_subtree get_tile_storage err pt name =
     (case get_subtree pt name of
        Inl e \<Rightarrow> Inl e
      | Inr sub \<Rightarrow>
        (case get_tile_storage sub of
           Inl e \<Rightarrow> Inl e
         | Inr None \<Rightarrow> Inl (Runtime_Error err)
         | Inr (Some st) \<Rightarrow> Inr st))"

fun make_subtrees :: "'s creator \<Rightarrow> string \<Rightarrow> conf_tree \<Rightarrow> string list \<Rightarrow> cpp_error + (string \<times> 's tile_storage) list" where
  "make_subtrees get_tile_storage err pt [] = Inr []"
| "make_subtrees get_tile_storage err pt (n # ns) =
     (case make_subtree get_tile_storage err pt n of
        Inl e \<Rightarrow> Inl e
      | Inr st \<Rightarrow>
        (case make_subtrees get_tile_storage err pt ns of Inl e \<Rightarrow> Inl e | Inr sts \<Rightarrow> Inr ((n, st) # sts)))"

definition create_union_storage :: "'s creator \<Rightarrow> 's creator" where
  "create_union_storage get_tile_storage pt =
     (case get_text pt ''storages'' of
        None \<Rightarrow> Inl (Runtime_Error ''No such node (storages)'')
      | Some names \<Rightarrow>
        (case make_subtrees get_tile_storage ''Failed to create storage item within union.'' pt (split_names names) of
           Inl e \<Rightarrow> Inl e
         | Inr sts \<Rightarrow> Inr (Some (union_storage (map snd sts)))))"

definition create_per_style_storage :: "'s creator \<Rightarrow> 's creator" where
  "create_per_style_storage get_tile_storage pt =
     (case get_text pt ''styles'' of
        None \<Rightarrow> Inl (Runtime_Error ''No such node (styles)'')
      | Some names \<Rightarrow>
        (case make_subtrees get_tile_storage ''Failed to create storage item within per-style.'' pt (split_names names) of
           Inl e \<Rightarrow> Inl e
         | Inr sts \<Rightarrow>
           (case make_subtree get_tile_storage ''Failed to create storage item within per-style.'' pt ''default'' of
              Inl e \<Rightarrow> Inl e
            | Inr deflt \<Rightarrow> Inr (Some (per_style_storage (map_of sts) deflt)))))"

text \<open>The overlay needs a 0MQ context; the expiry service is made from the same configuration.\<close>

definition create_expiry_overlay :: "'s creator \<Rightarrow> (conf_tree \<Rightarrow> cpp_error + 's expiry_service) \<Rightarrow> bool \<Rightarrow> 's creator" where
  "create_expiry_overlay get_tile_storage mk_service has_ctx conf =
     (if \<not> has_ctx then Inl (Runtime_Error ''0MQ context not provided, but is required.'')
      else case get_text conf ''storage'' of
        None \<Rightarrow> Inl (Runtime_Error ''No such node (storage)'')
      | Some storage \<Rightarrow>
        (case make_subtree get_tile_storage ''Failed to create storage for expiry overlay.'' conf storage of
           Inl e \<Rightarrow> Inl e
         | Inr st \<Rightarrow> (case mk_service conf of Inl e \<Rightarrow> Inl e | Inr svc \<Rightarrow> Inr (Some (expiry_overlay st svc)))))"

text \<open>\<open>read_bool\<close> and \<open>read_int\<close> are Boost's conversions of a text to a boolean and to an integer.\<close>

definition compositing_of_conf :: "(string \<Rightarrow> bool option) \<Rightarrow> (string \<Rightarrow> int option) \<Rightarrow> 's tile_storage \<Rightarrow> 's tile_storage \<Rightarrow> conf_tree \<Rightarrow>
    cpp_error + 's compositing" where
  "compositing_of_conf read_bool read_int under0 over0 config =
     (case (get_text config ''under_format'', get_text config ''over_format'') of
        (Some uf, Some vf) \<Rightarrow>
          mk_compositing under0 over0 (get_text config ''under_style'', get_text config ''over_style'') (uf, vf)
            (get_child config ''jpeg'' \<noteq> None, get_child config ''gif'' \<noteq> None, get_child config ''png'' \<noteq> None)
            (Option.bind (get_text config ''jpeg.quality'') read_int)
            (Option.bind (get_text config ''expire_under'') read_bool, Option.bind (get_text config ''expire_over'') read_bool)
      | (None, _) \<Rightarrow> Inl (Runtime_Error ''No such node (under_format)'')
      | (Some _, None) \<Rightarrow> Inl (Runtime_Error ''No such node (over_format)''))"

definition create_compositing_storage :: "'s creator \<Rightarrow> (string \<Rightarrow> bool option) \<Rightarrow> (string \<Rightarrow> int option) \<Rightarrow> ('g, 'z) gd_scheme \<Rightarrow> 's creator" where
  "create_compositing_storage get_tile_storage read_bool read_int gd pt =
     (case make_subtree get_tile_storage (''Failed to create `under'' @ [CHR 0x27] @ '' item within composting storage.'') pt ''under'' of
        Inl e \<Rightarrow> Inl e
      | Inr under0 \<Rightarrow>
        (case make_subtree get_tile_storage (''Failed to create `over'' @ [CHR 0x27] @ '' item within composting storage.'') pt ''over'' of
           Inl e \<Rightarrow> Inl e
         | Inr over0 \<Rightarrow>
           (case get_subtree pt ''config'' of
              Inl e \<Rightarrow> Inl e
            | Inr config \<Rightarrow>
              (case compositing_of_conf read_bool read_int under0 over0 config of
                 Inl e \<Rightarrow> Inl e | Inr c \<Rightarrow> Inr (Some (compositing_storage gd c))))))"

subsection \<open>What a sub-storage finds in its configuration\<close>

lemma split_on_plain: "sep \<notin> set s \<Longrightarrow> split_on sep s = [s]"
  by (induction s) auto

lemma split_on_not_Nil: "split_on sep s \<noteq> []"
  by (induction s) (auto split: list.splits)

lemma split_on_inj: "split_on sep s = [s'] \<Longrightarrow> s = s'"
  by (induction s arbitrary: s') (auto split: list.splits if_splits simp: split_on_not_Nil)

lemma map_of_replace_kid: "map_of (replace_kid k t kids) = (map_of kids)(k \<mapsto> t)"
  by (induction kids) auto

lemma put_path_text:
  assumes "ks \<noteq> []" "ks \<noteq> [k]"
  shows "map_option conf_text (walk (put_path ks v t) [k]) = map_option conf_text (walk t [k]) \<or> walk t [k] = None"
proof -
  obtain j js where "ks = j # js" using assms(1) by (cases ks) auto
  then show ?thesis
    using assms(2) by (cases js) (auto simp: Let_def map_of_replace_kid split: option.splits)
qed

lemma put_path_same: "map_option conf_text (walk (put_path [k] v t) [k]) = Some v"
  by (simp add: Let_def map_of_replace_kid)

lemma copy_entries_keeps:
  assumes "copy_entries pt prefix entries sub = Inr sub'" "prefix @ k \<notin> fst ` set entries"
    and "map_option conf_text (walk sub [k]) = Some v"
  shows "map_option conf_text (walk sub' [k]) = Some v"
  using assms
proof (induction pt prefix entries sub rule: copy_entries.induct)
  case (2 pt prefix key c entries sub)
  show ?case
  proof (cases "take (length prefix) key = prefix")
    case True
    let ?rest = "drop (length prefix) key"
    obtain n where n: "walk pt (split_on (CHR '';'') key) = Some n"
        "copy_entries pt prefix entries (put_text ?rest (conf_text n) sub) = Inr sub'"
      using 2(3) True by (auto split: option.splits)
    have "key = prefix @ ?rest" using True append_take_drop_id [of "length prefix" key] by simp
    then have "split_on (CHR ''.'') ?rest \<noteq> [k]" using 2(4) split_on_inj by force
    then have "map_option conf_text (walk (put_text ?rest (conf_text n) sub) [k]) = Some v"
      using put_path_text [OF split_on_not_Nil, of "CHR ''.''" ?rest k "conf_text n" sub] 2(5)
      unfolding put_text_def by auto
    then show ?thesis using 2(1) True n 2(4) by simp
  next
    case False
    then show ?thesis using 2 by simp
  qed
qed simp

lemma copy_entries_copies:
  assumes "copy_entries pt prefix entries sub = Inr sub'" "(prefix @ k, c) \<in> set entries"
    and "distinct (map fst entries)" "map_of (conf_kids pt) (prefix @ k) = Some c"
    and "CHR ''.'' \<notin> set k" "CHR '';'' \<notin> set (prefix @ k)"
  shows "map_option conf_text (walk sub' [k]) = Some (conf_text c)"
  using assms
proof (induction pt prefix entries sub rule: copy_entries.induct)
  case (2 pt prefix key d entries sub)
  show ?case
  proof (cases "key = prefix @ k")
    case True
    then have "walk pt (split_on (CHR '';'') key) = Some c" using 2(6,8) by (simp add: split_on_plain)
    then have e: "copy_entries pt prefix entries (put_text k (conf_text c) sub) = Inr sub'"
      using 2(3) True by simp
    have "map_option conf_text (walk (put_text k (conf_text c) sub) [k]) = Some (conf_text c)"
      using put_path_same 2(7) by (simp add: put_text_def split_on_plain)
    then show ?thesis using copy_entries_keeps [OF e] 2(5) True by simp
  next
    case False
    show ?thesis
    proof (cases "take (length prefix) key = prefix")
      case True
      then obtain n where "walk pt (split_on (CHR '';'') key) = Some n"
          "copy_entries pt prefix entries (put_text (drop (length prefix) key) (conf_text n) sub) = Inr sub'"
        using 2(3) by (auto split: option.splits)
      then show ?thesis using 2(1) True False 2(4-8) by simp
    next
      case False': False
      then show ?thesis using 2(2-8) False by simp
    qed
  qed
qed simp

text \<open>
  What a sub-storage finds: if the section of a composed storage has the entry \<open>name.key\<close>, for a
  key without a dot, then the sub-storage called \<open>name\<close> is made from a configuration in which \<open>key\<close> has the
  value of that entry, whatever the other entries are. Keys are distinct and free of the comment character.
\<close>

theorem subtree_has_entry:
  assumes "get_subtree pt name = Inr sub" "(name @ ''.'' @ key, c) \<in> set (conf_kids pt)"
    and "distinct (map fst (conf_kids pt))" "CHR ''.'' \<notin> set key" "CHR '';'' \<notin> set (name @ key)"
  shows "get_text sub key = Some (conf_text c)"
proof -
  have "map_of (conf_kids pt) ((name @ ''.'') @ key) = Some c" using assms(2,3) by simp
  then have "map_option conf_text (walk sub [key]) = Some (conf_text c)"
    using copy_entries_copies [OF assms(1) [unfolded get_subtree_def], of key c] assms by simp
  then show ?thesis using assms(4) by (simp add: get_text_def get_child_def split_on_plain)
qed

definition ex_section :: conf_tree where
  "ex_section = Conf '''' [(''type'', Conf ''union'' []), (''storages'', Conf ''a'' []),
     (''a.type'', Conf ''disk'' []), (''a.tile_dir'', Conf ''/t'' [])]"

theorem subtree_has_entry_witness:
  "\<exists>sub. get_subtree ex_section ''a'' = Inr sub \<and> get_text sub ''type'' = Some ''disk''"
proof -
  obtain sub where s: "get_subtree ex_section ''a'' = Inr sub"
    by (simp add: get_subtree_def get_child_def ex_section_def)
  then show ?thesis
    using subtree_has_entry [OF s, of "''type''" "Conf ''disk'' []"] by (simp add: ex_section_def)
qed

end
