(* ===== verification/Disk_Storage.thy ===== *)
theory Disk_Storage
  imports Storage_Config Meta_Tile_Props
begin

text \<open>
  Metatiles in files (\<^verbatim>\<open>storage/disk_storage.cpp\<close>). The file system is a map from paths to contents and
  modification times. What the operating system may do is a parameter: which calls throw, how much of a
  file is really written, the time, the unique name of a temporary file, and the results of \<^verbatim>\<open>read\<close>.
\<close>

subsection \<open>State\<close>

datatype fs_call = Fs_Exists | Fs_Time | Fs_Read | Fs_Directories | Fs_Rename | Fs_Set_Time

record fs_env =
  fs_fails :: "fs_call \<Rightarrow> bool"
  fs_written :: "string \<Rightarrow> string"
  fs_clock :: int
  fs_unique_path :: string
  fs_read_ret :: "string \<Rightarrow> nat \<Rightarrow> nat \<Rightarrow> int"

record disk =
  dir :: string
  files :: "string \<rightharpoonup> string \<times> int"
  data_locked :: bool
  data_cache :: string
  leaked_fds :: nat

definition CACHE_SIZE :: nat where
  "CACHE_SIZE = 1024 * 1024"

definition mk_disk :: "string \<Rightarrow> (string \<rightharpoonup> string \<times> int) \<Rightarrow> disk" where
  "mk_disk d fs = \<lparr>dir = d, files = fs, data_locked = False, data_cache = '''', leaked_fds = 0\<rparr>"

subsection \<open>Handles\<close>

record disk_handle =
  timestamp :: int
  dh_size :: nat

definition dh_expired :: "disk_handle \<Rightarrow> bool" where
  "dh_expired h \<longleftrightarrow> timestamp h = 0"

definition dh_data :: "disk \<Rightarrow> disk_handle \<Rightarrow> string" where
  "dh_data d h = take (dh_size h) (data_cache d)"

text \<open>The constructor takes the lock of the parent, the destructor gives it back.\<close>

definition mk_disk_handle :: "int \<Rightarrow> nat \<Rightarrow> disk \<Rightarrow> disk_handle \<times> disk" where
  "mk_disk_handle t s d = (\<lparr>timestamp = t, dh_size = s\<rparr>, d\<lparr>data_locked := True\<rparr>)"

definition release_disk_handle :: "disk \<Rightarrow> disk" where
  "release_disk_handle d = d\<lparr>data_locked := False\<rparr>"

subsection \<open>Operations\<close>

definition tile_path :: "disk \<Rightarrow> tile_protocol \<Rightarrow> string \<times> int" where
  "tile_path d tile = xyz_to_meta (dir d) (tp_x tile) (tp_y tile) (tp_z tile) (style tile)"

definition open_files :: "fs_env \<Rightarrow> disk \<Rightarrow> string \<Rightarrow> meta_file option" where
  "open_files env d p = map_option (\<lambda>(b, t). \<lparr>file_bytes = b, read_ret = fs_read_ret env b\<rparr>) (files d p)"

text \<open>\<open>None\<close> is the null handle.\<close>

definition disk_get :: "fs_env \<Rightarrow> tile_protocol \<Rightarrow> disk \<Rightarrow> disk \<times> (cpp_error + disk_handle option)" where
  "disk_get env tile d =
     (if data_locked d then (d, Inl (Runtime_Error ''Multiple use of disk_storage::data_cache not allowed.''))
      else if fs_fails env Fs_Exists then (d, Inr None)
      else case files d (fst (tile_path d tile)) of
        None \<Rightarrow> (d, Inr None)
      | Some (b, t) \<Rightarrow>
        (if fs_fails env Fs_Time then (d, Inr None)
         else let r = read_from_meta (open_files env d) (dir d) (tp_x tile) (tp_y tile) (tp_z tile) (style tile)
                        CACHE_SIZE (format tile);
                  d' = d\<lparr>data_cache := buf_bytes r, leaked_fds := leaked_fds d + (if fd_open r then 1 else 0)\<rparr>
              in if ret r > 0 then (let (h, d'') = mk_disk_handle t (nat (ret r)) d' in (d'', Inr (Some h)))
                 else (d', Inr None)))"

definition disk_get_meta :: "fs_env \<Rightarrow> tile_protocol \<Rightarrow> disk \<Rightarrow> disk \<times> (cpp_error + string option)" where
  "disk_get_meta env tile d =
     (if fs_fails env Fs_Exists then (d, Inr None)
      else case files d (fst (tile_path d tile)) of
        None \<Rightarrow> (d, Inr None)
      | Some (b, t) \<Rightarrow>
        (if fs_fails env Fs_Time \<or> t = 0 \<or> fs_fails env Fs_Read then (d, Inr None) else (d, Inr (Some b))))"

text \<open>The outcome of writing the temporary file is not checked before it is renamed.\<close>

definition disk_put_meta :: "fs_env \<Rightarrow> tile_protocol \<Rightarrow> string \<Rightarrow> disk \<Rightarrow> disk \<times> (cpp_error + bool)" where
  "disk_put_meta env tile buf d =
     (let (p, offset) = tile_path d tile; tmp = fs_unique_path env; f = (fs_written env buf, fs_clock env)
      in if offset \<noteq> 0 then (d, Inr False)
         else if fs_fails env Fs_Directories then (d, Inr False)
         else if fs_fails env Fs_Rename then (d\<lparr>files := (files d)(tmp \<mapsto> f)\<rparr>, Inr False)
         else (d\<lparr>files := (files d)(tmp := None, p \<mapsto> f)\<rparr>, Inr True))"

definition disk_expire :: "fs_env \<Rightarrow> tile_protocol \<Rightarrow> disk \<Rightarrow> disk \<times> (cpp_error + bool)" where
  "disk_expire env tile d =
     (let p = fst (tile_path d tile)
      in if fs_fails env Fs_Exists then (d, Inr False)
         else case files d p of
           None \<Rightarrow> (d, Inr False)
         | Some (b, t) \<Rightarrow> if fs_fails env Fs_Set_Time then (d, Inr False) else (d\<lparr>files := (files d)(p \<mapsto> (b, 0))\<rparr>, Inr True))"

text \<open>
  The disk as a tile storage. The data of a handle is read when it is made: as long as the handle lives,
  the lock keeps \<^verbatim>\<open>get\<close> from filling the cache again.
\<close>

definition disk_tile_get :: "fs_env \<Rightarrow> tile_protocol \<Rightarrow> disk \<Rightarrow> disk \<times> (cpp_error + handle)" where
  "disk_tile_get env tile d =
     (case disk_get env tile d of
        (d', Inl e) \<Rightarrow> (d', Inl e)
      | (d', Inr None) \<Rightarrow> (d', Inr null_handle)
      | (d', Inr (Some h)) \<Rightarrow> (d', Inr \<lparr>h_exists = True, h_last_modified = timestamp h,
           h_data = Some (dh_data d' h), h_expired = dh_expired h\<rparr>))"

definition disk_storage :: "fs_env \<Rightarrow> disk tile_storage" where
  "disk_storage env = \<lparr>st_get = disk_tile_get env, st_get_meta = disk_get_meta env,
     st_put_meta = disk_put_meta env, st_expire = disk_expire env\<rparr>"

subsection \<open>The disk is a metatile store\<close>

definition disk_content :: "disk \<Rightarrow> string \<rightharpoonup> string" where
  "disk_content d p = (case files d p of None \<Rightarrow> None | Some (b, t) \<Rightarrow> if t = 0 then None else Some b)"

text \<open>
  Without faults: no call throws, files are written in full, the clock is not at the epoch, and the name
  of the temporary file is not in use and not the path of a metatile.
\<close>

definition disk_ok :: "fs_env \<Rightarrow> string \<Rightarrow> disk \<Rightarrow> bool" where
  "disk_ok env dr d \<longleftrightarrow> dir d = dr \<and> (\<forall>c. \<not> fs_fails env c) \<and> (\<forall>b. fs_written env b = b) \<and> fs_clock env \<noteq> 0 \<and>
     files d (fs_unique_path env) = None \<and> (\<forall>x y z sty. fs_unique_path env \<noteq> fst (xyz_to_meta dr x y z sty))"

definition disk_key :: "string \<Rightarrow> tile_protocol \<Rightarrow> string" where
  "disk_key dr tile = fst (xyz_to_meta dr (tp_x tile) (tp_y tile) (tp_z tile) (style tile))"

definition meta_aligned :: "tile_protocol \<Rightarrow> bool" where
  "meta_aligned tile \<longleftrightarrow> xyz_to_meta_offset (tp_x tile) (tp_y tile) (tp_z tile) = 0"

lemma tile_path_key: "dir d = dr \<Longrightarrow> fst (tile_path d tile) = disk_key dr tile"
  by (simp add: tile_path_def disk_key_def)

lemma tile_path_offset: "meta_aligned tile \<longleftrightarrow> snd (tile_path d tile) = 0"
  by (simp add: tile_path_def meta_aligned_def xyz_to_meta_def xyz_to_meta_offset_def Let_def)

interpretation disk: meta_store "disk_get_meta env" "disk_put_meta env" "disk_expire env" "disk_key dr" disk_content
  "disk_ok env dr" meta_aligned for env dr
proof (unfold_locales, goal_cases)
  case (1 d t)
  then show ?case
    by (auto simp: disk_get_meta_def disk_ok_def disk_content_def tile_path_key split: option.splits)
next
  case (2 d t b)
  obtain p where p: "tile_path d t = (p, 0)" "p = disk_key dr t"
    using 2 tile_path_offset [of t d] tile_path_key [of d dr t] by (metis disk_ok_def prod.collapse)
  then have "p \<noteq> fs_unique_path env" using 2(1) by (metis disk_ok_def disk_key_def)
  then show ?case
    using 2(1) p by (auto simp: disk_put_meta_def disk_ok_def disk_content_def fun_eq_iff)
next
  case (3 d t)
  have "disk_key dr t \<noteq> fs_unique_path env" using 3 by (metis disk_ok_def disk_key_def)
  then show ?case
    using 3 by (auto simp: disk_expire_def disk_ok_def disk_content_def tile_path_key Let_def fun_eq_iff split: option.splits)
qed

end
