(* ===== verification/Disk_Props.thy ===== *)
theory Disk_Props
  imports Disk_Storage
begin

text \<open>
  Properties of the disk storage: different metatiles are kept in different files, what was saved last is
  what is read, a tile of a saved metatile is served with its bytes, and what happens when a write is cut short.
\<close>

subsection \<open>Paths\<close>

lemma segment_inj:
  assumes "CHR ''/'' \<notin> set a" "CHR ''/'' \<notin> set b"
  shows "a @ ''/'' @ r = b @ ''/'' @ s \<longleftrightarrow> a = b \<and> r = s"
  using assms by (induction a arbitrary: b) (auto simp: Cons_eq_append_conv, (case_tac b; auto)+)

lemma nibbles:
  fixes x y :: int
  shows "drop_bit 4 (push_bit 4 (x AND 15) OR (y AND 15)) = x mod 16"
    and "take_bit 4 (push_bit 4 (x AND 15) OR (y AND 15)) = y mod 16"
proof -
  have 15: "a AND 15 = take_bit 4 a" for a :: int by (simp add: take_bit_eq_mask mask_numeral)
  show "drop_bit 4 (push_bit 4 (x AND 15) OR (y AND 15)) = x mod 16"
    by (simp add: 15 drop_bit_or drop_bit_take_bit) (simp add: take_bit_eq_mod drop_bit_eq_div push_bit_eq_mult)
  show "take_bit 4 (push_bit 4 (x AND 15) OR (y AND 15)) = y mod 16"
    by (simp add: 15 take_bit_or take_bit_push_bit) (simp add: take_bit_eq_mod)
qed

lemma meta_hash_inj:
  "meta_hash n x y = meta_hash n x' y' \<Longrightarrow> x mod 16 ^ n = x' mod 16 ^ n \<and> y mod 16 ^ n = y' mod 16 ^ n"
proof (induction n arbitrary: x y x' y')
  case (Suc n)
  have h: "push_bit 4 (x AND 15) OR (y AND 15) = push_bit 4 (x' AND 15) OR (y' AND 15)"
      "meta_hash n (drop_bit 4 x) (drop_bit 4 y) = meta_hash n (drop_bit 4 x') (drop_bit 4 y')"
    using Suc.prems by (simp_all only: meta_hash.simps list.inject)
  have "x mod 16 = x' mod 16 \<and> y mod 16 = y' mod 16"
    using nibbles [of x y] nibbles [of x' y'] by (simp only: h(1))
  moreover have "(x div 16) mod 16 ^ n = (x' div 16) mod 16 ^ n \<and> (y div 16) mod 16 ^ n = (y' div 16) mod 16 ^ n"
    using Suc.IH [OF h(2)] by (simp add: drop_bit_eq_div)
  moreover have "a mod 16 ^ Suc n = 16 * ((a div 16) mod 16 ^ n) + a mod 16" for a :: int
    using zmod_zmult2_eq [of "16 ^ n" a 16] by simp
  ultimately show ?case by metis
qed simp

lemma meta_xy_small: "0 \<le> x \<Longrightarrow> x < 2 ^ 20 \<Longrightarrow> (x AND NOT 7) mod 16 ^ 5 = (x AND NOT 7 :: int)"
  using and_not_7 [of x] pos_mod_bound [of 8 x] pos_mod_sign [of 8 x] minus_mod_eq_mult_div [of x 8]
  by (intro mod_pos_pos_trivial) auto

text \<open>
  C20. Two tiles are kept in the same file exactly if they are in the same metatile: for styles without
  a slash and coordinates below \<open>2 ^ 20\<close>, the paths are equal only if style, zoom and metatile are.
\<close>

theorem metatile_path_injective:
  assumes "CHR ''/'' \<notin> set sty" "CHR ''/'' \<notin> set sty'"
    and "0 \<le> x" "x < 2 ^ 20" "0 \<le> y" "y < 2 ^ 20" "0 \<le> x'" "x' < 2 ^ 20" "0 \<le> y'" "y' < 2 ^ 20"
  shows "fst (xyz_to_meta dr x y z sty) = fst (xyz_to_meta dr x' y' z' sty') \<longleftrightarrow>
    sty = sty' \<and> z = z' \<and> xy_to_meta_xy x y = xy_to_meta_xy x' y'"
proof
  let ?h = "meta_hash 5 (x AND NOT 7) (y AND NOT 7)" and ?h' = "meta_hash 5 (x' AND NOT 7) (y' AND NOT 7)"
  assume "fst (xyz_to_meta dr x y z sty) = fst (xyz_to_meta dr x' y' z' sty')"
  then have "meta_path dr sty z ?h = meta_path dr sty' z' ?h'"
    by (simp add: xyz_to_meta_def METATILE_def Let_def)
  then have "sty = sty' \<and> z = z' \<and> ?h ! 4 = ?h' ! 4 \<and> ?h ! 3 = ?h' ! 3 \<and> ?h ! 2 = ?h' ! 2 \<and> ?h ! 1 = ?h' ! 1 \<and> ?h ! 0 = ?h' ! 0"
    unfolding meta_path_def by (simp only: append_assoc same_append_eq segment_inj assms(1,2) dec_int_plain not_False_eq_True
        append_same_eq dec_int_inj simp_thms)
  moreover have "h = h'" if "h ! 4 = h' ! 4" "h ! 3 = h' ! 3" "h ! 2 = h' ! 2" "h ! 1 = h' ! 1" "h ! 0 = h' ! 0"
      "length h = 5" "length h' = 5" for h h' :: "int list"
    using that by (intro nth_equalityI) (auto simp: less_Suc_eq numeral_eq_Suc)
  moreover have "length (meta_hash n a b) = n" for n a b by (induction n arbitrary: a b) auto
  ultimately have "sty = sty' \<and> z = z' \<and> ?h = ?h'" by metis
  then show "sty = sty' \<and> z = z' \<and> xy_to_meta_xy x y = xy_to_meta_xy x' y'"
    using meta_hash_inj [of 5 "x AND NOT 7" "y AND NOT 7" "x' AND NOT 7" "y' AND NOT 7"] meta_xy_small assms(3-)
    by (simp add: xy_to_meta_xy_def METATILE_def)
next
  assume "sty = sty' \<and> z = z' \<and> xy_to_meta_xy x y = xy_to_meta_xy x' y'"
  then show "fst (xyz_to_meta dr x y z sty) = fst (xyz_to_meta dr x' y' z' sty')"
    by (simp add: xyz_to_meta_def xy_to_meta_xy_def Let_def)
qed

lemma metatile_path_last: "last (fst (xyz_to_meta dr x y z sty)) = CHR ''a''"
  by (simp add: xyz_to_meta_def meta_path_def Let_def)

theorem metatile_path_injective_witness:
  "fst (xyz_to_meta ''/t'' 1 2 10 ''osm'') = fst (xyz_to_meta ''/t'' 3 4 10 ''osm'') \<and>
   fst (xyz_to_meta ''/t'' 1 2 10 ''osm'') \<noteq> fst (xyz_to_meta ''/t'' 8 2 10 ''osm'')"
  using metatile_path_injective [of "''osm''" "''osm''" 1 2 3 4 "''/t''" 10 10]
    metatile_path_injective [of "''osm''" "''osm''" 1 2 8 2 "''/t''" 10 10]
  by (simp add: xy_to_meta_xy_def METATILE_def)

subsection \<open>Saving and reading\<close>

fun disk_run :: "fs_env \<Rightarrow> tile_protocol store_op \<Rightarrow> disk \<Rightarrow> disk" where
  "disk_run env (Put t b) d = fst (disk_put_meta env t b d)"
| "disk_run env (Expire t) d = fst (disk_expire env t d)"

fun op_tile :: "tile_protocol store_op \<Rightarrow> tile_protocol" where
  "op_tile (Put t b) = t"
| "op_tile (Expire t) = t"

fun is_put :: "tile_protocol store_op \<Rightarrow> bool" where
  "is_put (Put t b) \<longleftrightarrow> True"
| "is_put (Expire t) \<longleftrightarrow> False"

lemma disk_run_eq: "disk.run_op env = disk_run env"
  by (intro ext, case_tac x) simp_all

lemma disk_op_key: "disk.op_key dr op = disk_key dr (op_tile op)" "disk.op_allowed op \<longleftrightarrow> (is_put op \<longrightarrow> meta_aligned (op_tile op))"
  by (cases op; simp)+

text \<open>
  C19. On a disk without faults, after any sequence of saves and expiries, reading a metatile gives what was
  saved last for it, under whichever of its tiles it is asked for, if it was not expired since; and once
  expired it is not found. Operations on other metatiles do not matter.
\<close>

theorem disk_last_put_wins:
  assumes "disk_ok env dr d" "\<forall>op \<in> set (before @ after). is_put op \<longrightarrow> meta_aligned (op_tile op)" "meta_aligned t"
    and "\<forall>op \<in> set after. disk_key dr (op_tile op) \<noteq> disk_key dr t" "disk_key dr t' = disk_key dr t"
  shows "snd (disk_get_meta env t' (fold (disk_run env) (before @ Put t b # after) d)) = Inr (Some b) \<and>
    snd (disk_get_meta env t' (fst (disk_expire env t (fold (disk_run env) (before @ Put t b # after) d)))) = Inr None"
proof -
  have allowed: "\<forall>op \<in> set (before @ Put t b # after). disk.op_allowed op"
    using assms(2,3) by (auto simp: disk_op_key)
  have "disk_ok env dr (fold (disk.run_op env) (before @ Put t b # after) d)"
    using disk.run_ops_spec [OF assms(1) allowed] by blast
  moreover have "snd (disk_get_meta env t' (fold (disk.run_op env) (before @ Put t b # after) d)) = Inr (Some b)"
    by (rule disk.last_put_wins [OF assms(1) _ assms(3) _ assms(5)]) (use assms(2,4) in \<open>auto simp: disk_op_key\<close>)
  ultimately show ?thesis
    using disk.expired_not_found [OF _ assms(5)] by (simp add: disk_run_eq)
qed

definition ex_fs :: fs_env where
  "ex_fs = \<lparr>fs_fails = (\<lambda>c. False), fs_written = (\<lambda>b. b), fs_clock = 1000, fs_unique_path = ''/t/x'',
     fs_read_ret = (\<lambda>b p n. int (min n (length b - p)))\<rparr>"

lemma ex_fs_ok: "disk_ok ex_fs ''/t'' (mk_disk ''/t'' Map.empty)"
proof -
  have "''/t/x'' \<noteq> fst (xyz_to_meta ''/t'' x y z sty)" for x y z sty
  proof -
    have "last ''/t/x'' \<noteq> CHR ''a''" by simp
    then show ?thesis using metatile_path_last [of "''/t''" x y z sty] by metis
  qed
  then show ?thesis by (simp add: disk_ok_def ex_fs_def mk_disk_def)
qed

definition ex_meta :: "int \<Rightarrow> int \<Rightarrow> tile_protocol" where
  "ex_meta x y = default_tile\<lparr>tp_x := x, tp_y := y, tp_z := 3, style := ''osm'', format := fmtPNG\<rparr>"

lemma ex_meta_props: "meta_aligned (ex_meta 0 0)" "disk_key ''/t'' (ex_meta 1 2) = disk_key ''/t'' (ex_meta 0 0)"
  by (simp_all add: meta_aligned_def ex_meta_def xyz_to_meta_offset_def disk_key_def xyz_to_meta_def METATILE_def Let_def)

theorem disk_last_put_wins_witness:
  "snd (disk_get_meta ex_fs (ex_meta 1 2) (fold (disk_run ex_fs) ([] @ Put (ex_meta 0 0) ''data'' # []) (mk_disk ''/t'' Map.empty))) =
     Inr (Some ''data'')"
  using disk_last_put_wins [OF ex_fs_ok, of "[]" "[]" "ex_meta 0 0" "ex_meta 1 2" "''data''"] ex_meta_props by simp

text \<open>A tile of a metatile file that is in place: \<open>tm\<close> is the time of the file.\<close>

lemma disk_get_written:
  assumes w: "write_headers x y z formats (map (\<lambda>t. int (length t)) tiles) = Inr headers"
    and f: "distinct formats" "\<forall>f \<in> set formats. int32 f" "int32 x" "int32 y" "int32 z"
      "length formats * header_size + length (concat tiles) < 2 ^ 31"
    and i: "i < length formats" "i < 7" "format tile = formats ! i"
    and ok: "\<forall>c. \<not> fs_fails env c" "dir d = dr" "\<not> data_locked d"
      "files d (disk_key dr tile) = Some (headers @ concat tiles, tm)"
      "\<forall>b. posix_read \<lparr>file_bytes = b, read_ret = fs_read_ret env b\<rparr>"
    and t: "t = tiles ! (64 * i + nat (xyz_to_meta_offset (tp_x tile) (tp_y tile) (tp_z tile)))" "t \<noteq> []" "length t \<le> CACHE_SIZE"
  shows "disk_tile_get env tile d = (d\<lparr>data_cache := t, data_locked := True\<rparr>,
    Inr \<lparr>h_exists = True, h_last_modified = tm, h_data = Some t, h_expired = (tm = 0)\<rparr>)"
proof -
  let ?r = "\<lparr>ret = int (length t), buf_bytes = t, fd_open = False\<rparr>"
  have "read_from_meta (open_files env d) dr (tp_x tile) (tp_y tile) (tp_z tile) (style tile) CACHE_SIZE (formats ! i) = ?r"
    by (rule read_from_meta_written [OF w f i(1,2), where f = "\<lparr>file_bytes = headers @ concat tiles, read_ret = fs_read_ret env (headers @ concat tiles)\<rparr>"])
       (use ok(4,5) t in \<open>simp_all add: open_files_def disk_key_def\<close>)
  then have "disk_get env tile d = (d\<lparr>data_cache := t, data_locked := True\<rparr>, Inr (Some \<lparr>timestamp = tm, dh_size = length t\<rparr>))"
    using ok i(3) t(2) by (simp add: disk_get_def tile_path_key Let_def mk_disk_handle_def)
  then show ?thesis by (simp add: disk_tile_get_def dh_data_def dh_expired_def)
qed

lemma disk_put_stores:
  assumes "disk_ok env dr d" "meta_aligned m" "disk_put_meta env m buf d = (d', Inr saved)"
  shows "saved \<and> d' = d\<lparr>files := (files d)(fs_unique_path env := None, disk_key dr m \<mapsto> (buf, fs_clock env))\<rparr>"
proof -
  have dr: "dir d = dr" using assms(1) by (simp add: disk_ok_def)
  show ?thesis
    using assms tile_path_key [OF dr, of m] tile_path_offset [of m d]
    by (auto simp: disk_ok_def disk_put_meta_def Let_def split: prod.splits if_splits)
qed

text \<open>
  C16. A tile of a metatile that was saved is served. Write the tiles behind the headers of \<^const>\<open>write_headers\<close>,
  with at most seven formats, and save that under the metatile's first tile: then \<^verbatim>\<open>get\<close>
  for any of its tiles and formats finds it, with the bytes of that tile, the time of the save and not
  expired. Until the handle is released, the next \<^verbatim>\<open>get\<close> throws.
\<close>

theorem disk_serves_saved_tile:
  assumes w: "write_headers x y z formats (map (\<lambda>t. int (length t)) tiles) = Inr headers"
    and f: "distinct formats" "\<forall>f \<in> set formats. int32 f" "int32 x" "int32 y" "int32 z"
      "length formats * header_size + length (concat tiles) < 2 ^ 31"
    and i: "i < length formats" "i < 7" "format tile = formats ! i"
    and ok: "disk_ok env dr d" "\<not> data_locked d" "meta_aligned m" "disk_key dr tile = disk_key dr m"
      "\<forall>b. posix_read \<lparr>file_bytes = b, read_ret = fs_read_ret env b\<rparr>"
    and t: "t = tiles ! (64 * i + nat (xyz_to_meta_offset (tp_x tile) (tp_y tile) (tp_z tile)))" "t \<noteq> []" "length t \<le> CACHE_SIZE"
    and put: "disk_put_meta env m (headers @ concat tiles) d = (d', Inr saved)"
  shows "saved \<and> (\<exists>d''. disk_tile_get env tile d' =
      (d'', Inr \<lparr>h_exists = True, h_last_modified = fs_clock env, h_data = Some t, h_expired = False\<rparr>) \<and>
    (\<exists>e. snd (disk_tile_get env u d'') = Inl e) \<and> \<not> data_locked (release_disk_handle d''))"
proof -
  have dr: "dir d = dr" and nf: "\<forall>c. \<not> fs_fails env c" "fs_clock env \<noteq> 0" using ok(1) by (simp_all add: disk_ok_def)
  note saved = disk_put_stores [OF ok(1,3) put]
  have "disk_tile_get env tile d' = (d'\<lparr>data_cache := t, data_locked := True\<rparr>,
      Inr \<lparr>h_exists = True, h_last_modified = fs_clock env, h_data = Some t, h_expired = (fs_clock env = 0)\<rparr>)"
    by (rule disk_get_written [OF w f i nf(1) _ _ _ ok(5) t, where dr = dr]) (use saved ok(2,4) dr in auto)
  then show ?thesis using saved nf by (simp add: disk_tile_get_def disk_get_def release_disk_handle_def)
qed

theorem disk_serves_saved_tile_witness:
  "\<exists>d' d''. disk_put_meta ex_fs (ex_meta 0 0) (example_headers @ concat (replicate 64 ''p'')) (mk_disk ''/t'' Map.empty) = (d', Inr True) \<and>
     disk_tile_get ex_fs (ex_meta 1 2) d' =
       (d'', Inr \<lparr>h_exists = True, h_last_modified = 1000, h_data = Some ''p'', h_expired = False\<rparr>)"
proof -
  have w: "write_headers 0 0 3 [fmtPNG] (map (\<lambda>t. int (length t)) (replicate 64 ''p'')) = Inr example_headers"
    by (subst write_headers_ok) (simp add: example_headers_def)
  obtain d' saved where put: "disk_put_meta ex_fs (ex_meta 0 0) (example_headers @ concat (replicate 64 ''p'')) (mk_disk ''/t'' Map.empty) = (d', Inr saved)"
    using disk.put_meta_content [OF ex_fs_ok ex_meta_props(1), of "example_headers @ concat (replicate 64 ''p'')"] by blast
  have off: "nat (xyz_to_meta_offset 1 2 3) = 17"
    by (simp add: xyz_to_meta_offset_def METATILE_def and_7_eq_mod)
  have posix: "\<forall>b. posix_read \<lparr>file_bytes = b, read_ret = fs_read_ret ex_fs b\<rparr>"
    by (auto simp: posix_read_def ex_fs_def)
  have "saved \<and> (\<exists>d''. disk_tile_get ex_fs (ex_meta 1 2) d' =
      (d'', Inr \<lparr>h_exists = True, h_last_modified = fs_clock ex_fs, h_data = Some ''p'', h_expired = False\<rparr>) \<and>
    (\<exists>e. snd (disk_tile_get ex_fs (ex_meta 0 0) d'') = Inl e) \<and> \<not> data_locked (release_disk_handle d''))"
    by (rule disk_serves_saved_tile [OF w _ _ _ _ _ _ _ _ _ ex_fs_ok _ ex_meta_props posix _ _ _ put, of 0])
       (simp_all add: off int32_def fmt_defs header_size_def mk_disk_def ex_meta_def CACHE_SIZE_def)
  then show ?thesis using put by (auto simp: ex_fs_def)
qed

text \<open>
  A write that is cut short, for instance because the disk is full, is reported as a success, and
  what reached the file replaces the metatile that was there.
\<close>

theorem disk_short_write_reported_ok:
  assumes "\<forall>c. \<not> fs_fails env c" "fs_clock env \<noteq> 0" "meta_aligned t" "fs_unique_path env \<noteq> disk_key (dir d) t"
  shows "\<exists>d'. disk_put_meta env t buf d = (d', Inr True) \<and> snd (disk_get_meta env t d') = Inr (Some (fs_written env buf))"
proof -
  obtain p where p: "tile_path d t = (p, 0)" "p = disk_key (dir d) t"
    using assms(3) tile_path_offset [of t d] tile_path_key [of d "dir d" t] by (metis prod.collapse)
  let ?d = "d\<lparr>files := (files d)(fs_unique_path env := None, p \<mapsto> (fs_written env buf, fs_clock env))\<rparr>"
  have "tile_path ?d t = (p, 0)" using p by (simp add: tile_path_def)
  then show ?thesis using assms(1,2) p by (simp add: disk_put_meta_def disk_get_meta_def)
qed

theorem disk_short_write_reported_ok_witness:
  "\<exists>d'. disk_put_meta (ex_fs\<lparr>fs_written := take 2\<rparr>) (ex_meta 0 0) ''data'' (mk_disk ''/t'' Map.empty) = (d', Inr True) \<and>
     snd (disk_get_meta (ex_fs\<lparr>fs_written := take 2\<rparr>) (ex_meta 0 0) d') = Inr (Some ''da'')"
proof -
  have "fs_unique_path (ex_fs\<lparr>fs_written := take 2\<rparr>) \<noteq> disk_key (dir (mk_disk ''/t'' Map.empty)) (ex_meta 0 0)"
    using ex_fs_ok by (auto simp: disk_ok_def disk_key_def mk_disk_def)
  then show ?thesis
    using disk_short_write_reported_ok [of "ex_fs\<lparr>fs_written := take 2\<rparr>" "ex_meta 0 0" "mk_disk ''/t'' Map.empty" "''data''"] ex_meta_props(1)
    by (simp add: ex_fs_def)
qed

end
