(* ===== verification/Expiry.thy ===== *)
theory Expiry
  imports Storage
begin

text \<open>
  The expiry servers (\<^verbatim>\<open>storage/expiry_server.cpp\<close>), which remember which metatiles are expired, a primary and a
  backup watching each other, and their client (\<^verbatim>\<open>storage/expiry_service.cpp\<close>).
\<close>

subsection \<open>Metatiles in 32 bits\<close>

text \<open>A shift by a negative count, or by the width or more, is undefined.\<close>

definition tile_to_frag :: "tile_protocol \<Rightarrow> cpp_error + 32 word" where
  "tile_to_frag tile =
     (let z = tp_z tile in
      if z < 3 \<or> 35 \<le> z then Inl Undefined_Behaviour
      else (let xy_frag = push_bit (nat (z - 3)) (word_of_int (drop_bit 3 (tp_x tile))) OR word_of_int (drop_bit 3 (tp_y tile)) :: 32 word
            in if z = 18 then Inr xy_frag
               else if z > 13 then Inr (push_bit 28 (word_of_int (4 OR (17 - z))) OR xy_frag)
               else Inr (push_bit 26 (word_of_int (32 OR (13 - z))) OR xy_frag)))"

definition frag_to_tile :: "32 word \<Rightarrow> tile_protocol \<Rightarrow> cpp_error + tile_protocol" where
  "frag_to_tile frag tile =
     (let high_bits = drop_bit 30 frag;
          z = (if high_bits = 0 then 18
               else if high_bits = 1 then sint (17 - (drop_bit 28 frag AND 3))
               else sint (13 - (drop_bit 16 frag AND 15)))
      in if z < 0 then Inl Undefined_Behaviour
         else (let mask = word_of_int (push_bit (nat z) 1 - 1) :: 32 word
               in Inr (tile\<lparr>tp_z := z, tp_x := sint (drop_bit (nat z) frag AND mask), tp_y := sint (frag AND mask)\<rparr>)))"

subsection \<open>The expired metatiles\<close>

type_synonym expiry_data = "string \<times> int \<rightharpoonup> 32 word set"

definition style_and_format :: "tile_protocol \<Rightarrow> string \<times> int" where
  "style_and_format tile = (style tile, format tile)"

definition expiry_lookup :: "tile_protocol \<Rightarrow> expiry_data \<Rightarrow> cpp_error + bool" where
  "expiry_lookup t d =
     (case d (style_and_format t) of
        Some s \<Rightarrow> (case tile_to_frag t of Inl e \<Rightarrow> Inl e | Inr f \<Rightarrow> Inr (f \<in> s))
      | None \<Rightarrow> Inr False)"

definition expiry_insert :: "tile_protocol \<Rightarrow> expiry_data \<Rightarrow> cpp_error + expiry_data" where
  "expiry_insert t d =
     (case tile_to_frag t of
        Inl e \<Rightarrow> Inl e
      | Inr f \<Rightarrow>
        (case d (style_and_format t) of
           None \<Rightarrow> Inr (d(style_and_format t \<mapsto> {f}))
         | Some s \<Rightarrow> Inr (d(style_and_format t \<mapsto> insert f s))))"

definition expiry_erase :: "tile_protocol \<Rightarrow> expiry_data \<Rightarrow> cpp_error + expiry_data" where
  "expiry_erase t d =
     (case d (style_and_format t) of
        None \<Rightarrow> Inr d
      | Some s \<Rightarrow> (case tile_to_frag t of Inl e \<Rightarrow> Inl e | Inr f \<Rightarrow> Inr (d(style_and_format t \<mapsto> s - {f}))))"

subsection \<open>Primary and backup\<close>

datatype state_t = state_primary | state_backup | state_active | state_passive

datatype event_t =
  event_peer_primary | event_peer_backup | event_peer_active | event_peer_passive | event_client_request

record fsm =
  m_state :: state_t
  m_peer_expiry :: int

definition HEARTBEAT :: int where
  "HEARTBEAT = 1000000"

definition fsm_transition :: "int \<Rightarrow> event_t \<Rightarrow> fsm \<Rightarrow> state_t \<times> bool" where
  "fsm_transition now ev m =
     (case m_state m of
        state_primary \<Rightarrow>
          if ev = event_peer_backup then (state_active, True)
          else if ev = event_peer_active then (state_passive, True)
          else (state_primary, True)
      | state_backup \<Rightarrow>
          if ev = event_peer_active then (state_passive, True)
          else if ev = event_client_request then (state_backup, False)
          else (state_backup, True)
      | state_active \<Rightarrow> (state_active, ev \<noteq> event_peer_active)
      | state_passive \<Rightarrow>
          if ev = event_peer_primary \<or> ev = event_peer_backup then (state_active, True)
          else if ev = event_peer_passive then (state_passive, False)
          else if ev = event_client_request then
            (if now \<ge> m_peer_expiry m then (state_active, True) else (state_passive, False))
          else (state_passive, True))"

definition fsm_event :: "int \<Rightarrow> event_t \<Rightarrow> fsm \<Rightarrow> fsm \<times> bool" where
  "fsm_event now ev m =
     (let (st, status_ok) = fsm_transition now ev m
      in (m\<lparr>m_state := st, m_peer_expiry := (if status_ok \<and> ev \<noteq> event_client_request then now + 2 * HEARTBEAT else m_peer_expiry m)\<rparr>,
          status_ok))"

subsection \<open>The server's loop\<close>

record expiry_server =
  sv_fsm :: fsm
  sv_expired :: expiry_data
  sv_next_heartbeat :: int

text \<open>A client's message: a query, or a value to set. \<open>None\<close> is a query.\<close>

record client_request =
  cr_addresses :: "string list"
  cr_tile :: tile_protocol
  cr_value :: "32 word option"

datatype server_out = Response "string list" bool | State_Pub state_t

fun event_of_word :: "state_t \<Rightarrow> event_t" where
  "event_of_word state_primary = event_peer_primary"
| "event_of_word state_backup = event_peer_backup"
| "event_of_word state_active = event_peer_active"
| "event_of_word state_passive = event_peer_passive"

definition answer_request :: "client_request \<Rightarrow> expiry_data \<Rightarrow> cpp_error + (bool \<times> expiry_data)" where
  "answer_request r d =
     (case cr_value r of
        None \<Rightarrow> (case expiry_lookup (cr_tile r) d of Inl e \<Rightarrow> Inl e | Inr b \<Rightarrow> Inr (b, d))
      | Some v \<Rightarrow>
        (case (if v \<noteq> 0 then expiry_insert (cr_tile r) d else expiry_erase (cr_tile r) d) of
           Inl e \<Rightarrow> Inl e | Inr d' \<Rightarrow> Inr (True, d')))"

text \<open>One pass; the flag tells that the loop is left.\<close>

definition serve_client :: "int \<Rightarrow> client_request \<Rightarrow> expiry_server \<Rightarrow> cpp_error + (server_out list \<times> expiry_server \<times> bool)" where
  "serve_client now r s =
     (let (m, ok) = fsm_event now event_client_request (sv_fsm s); s' = s\<lparr>sv_fsm := m\<rparr>
      in if ok then
           (case answer_request r (sv_expired s) of
              Inl e \<Rightarrow> Inl e
            | Inr (response, d) \<Rightarrow> Inr ([Response (cr_addresses r) response], s'\<lparr>sv_expired := d\<rparr>, False))
         else Inr ([], s', True))"

definition serve_peer :: "int \<Rightarrow> state_t \<Rightarrow> expiry_server \<Rightarrow> expiry_server \<times> bool" where
  "serve_peer now peer s =
     (let (m, ok) = fsm_event now (event_of_word peer) (sv_fsm s) in (s\<lparr>sv_fsm := m\<rparr>, \<not> ok))"

definition heartbeat_due :: "int \<Rightarrow> expiry_server \<Rightarrow> server_out list \<times> expiry_server" where
  "heartbeat_due now s =
     (if now \<ge> sv_next_heartbeat s
      then ([State_Pub (m_state (sv_fsm s))], s\<lparr>sv_next_heartbeat := sv_next_heartbeat s + HEARTBEAT\<rparr>) else ([], s))"

text \<open>The clock is read for the client, for the peer and for the heartbeat.\<close>

definition server_iteration :: "int \<Rightarrow> int \<Rightarrow> int \<Rightarrow> client_request option \<Rightarrow> state_t option \<Rightarrow> expiry_server \<Rightarrow>
    cpp_error + (server_out list \<times> expiry_server \<times> bool)" where
  "server_iteration t1 t2 t3 client peer s =
     (case (case client of None \<Rightarrow> Inr ([], s, False) | Some r \<Rightarrow> serve_client t1 r s) of
        Inl e \<Rightarrow> Inl e
      | Inr (out1, s1, stop1) \<Rightarrow>
        if stop1 then Inr (out1, s1, True)
        else (let (s2, stop2) = (case peer of None \<Rightarrow> (s1, False) | Some p \<Rightarrow> serve_peer t2 p s1)
              in if stop2 then Inr (out1, s2, True)
                 else (let (out3, s3) = heartbeat_due t3 s2 in Inr (out1 @ out3, s3, False))))"

subsection \<open>The client\<close>

text \<open>What a poll of the request socket gives.\<close>

datatype poll_outcome = Poll_Error | Reply "32 word" | Timeout

text \<open>
  The request is sent, and sent again to the other server after every timeout. The result is the
  response, the servers the request was sent to, and the server now connected; nothing while no reply has come.
\<close>

fun await_reply :: "poll_outcome list \<Rightarrow> nat \<Rightarrow> nat list \<Rightarrow> (bool \<times> nat list \<times> nat) option" where
  "await_reply [] server sent = None"
| "await_reply (Poll_Error # os) server sent = await_reply os server sent"
| "await_reply (Reply data # os) server sent = Some (data \<noteq> 0, sent, server)"
| "await_reply (Timeout # os) server sent =
     (let server' = (server + 1) mod 2 in await_reply os server' (sent @ [server']))"

definition request_with_failover :: "poll_outcome list \<Rightarrow> nat \<Rightarrow> (bool \<times> nat list \<times> nat) option" where
  "request_with_failover os server = await_reply os server [server]"

text \<open>The service as the storages see it, with the expired metatiles kept by one server that answers.\<close>

definition local_service :: "('s \<Rightarrow> expiry_data) \<Rightarrow> (expiry_data \<Rightarrow> 's \<Rightarrow> 's) \<Rightarrow> 's expiry_service" where
  "local_service data upd =
     \<lparr>svc_is_expired = (\<lambda>tile s. (case answer_request \<lparr>cr_addresses = [], cr_tile = tile, cr_value = None\<rparr> (data s) of
         Inl e \<Rightarrow> (s, Inl e) | Inr (b, d) \<Rightarrow> (upd d s, Inr b))),
      svc_set_expired = (\<lambda>tile st s. (case answer_request \<lparr>cr_addresses = [], cr_tile = tile, cr_value = Some (if st then 1 else 0)\<rparr> (data s) of
         Inl e \<Rightarrow> (s, Inl e) | Inr (b, d) \<Rightarrow> (upd d s, Inr b)))\<rparr>"

end
