(* ===== verification/Expiry_Props.thy ===== *)
theory Expiry_Props
  imports Expiry Meta_Tile
begin

text \<open>
  Properties of the expiry servers: the packed form of a metatile is unambiguous, the set of expired
  metatiles behaves as one, only a master serves clients and there is only one, and the client gets its
  answer from the server it asked.
\<close>

subsection \<open>The packed form\<close>

lemma or_shift:
  fixes X Y :: int
  assumes "0 \<le> Y" "Y < 2 ^ k"
  shows "push_bit k X OR Y = X * 2 ^ k + Y"
proof -
  have Y: "take_bit k Y = Y" "drop_bit k Y = 0"
    using assms by (simp_all add: take_bit_int_eq_self drop_bit_eq_div)
  have "drop_bit k (push_bit k X OR Y) = X"
    using Y by (simp add: drop_bit_or) (simp add: drop_bit_eq_div push_bit_eq_mult)
  moreover have "take_bit k (push_bit k X OR Y) = Y"
    using Y by (simp add: take_bit_or take_bit_push_bit)
  ultimately show ?thesis
    by (metis drop_bit_eq_div take_bit_eq_mod div_mult_mod_eq)
qed

lemma push_bit_word_of_int: "push_bit n (word_of_int a :: 'a::len word) = word_of_int (push_bit n a)"
  by (simp add: push_bit_eq_mult)

definition pack :: "int \<Rightarrow> int \<Rightarrow> int \<Rightarrow> int" where
  "pack z X Y = (if z = 18 then 0 else if z > 13 then (21 - z) * 2 ^ 28 else (45 - z) * 2 ^ 26) + X * 2 ^ nat (z - 3) + Y"

text \<open>The coordinates of a metatile at a zoom level the server is made for.\<close>

definition packable :: "tile_protocol \<Rightarrow> bool" where
  "packable t \<longleftrightarrow> 3 \<le> tp_z t \<and> tp_z t \<le> 18 \<and> 0 \<le> tp_x t \<and> tp_x t < 2 ^ nat (tp_z t) \<and> 0 \<le> tp_y t \<and> tp_y t < 2 ^ nat (tp_z t)"

lemma packable_range:
  assumes "packable t"
  shows "0 \<le> tp_x t div 8 \<and> tp_x t div 8 < 2 ^ nat (tp_z t - 3)" "0 \<le> tp_y t div 8 \<and> tp_y t div 8 < 2 ^ nat (tp_z t - 3)"
proof -
  have "3 \<le> tp_z t" using assms by (simp add: packable_def)
  then have "nat (tp_z t) = nat (tp_z t - 3) + 3" by linarith
  then have "2 ^ nat (tp_z t) = (2 :: int) ^ nat (tp_z t - 3) * 8" by (simp add: power_add)
  moreover have "0 \<le> a \<Longrightarrow> a < c * 8 \<Longrightarrow> 0 \<le> a div 8 \<and> a div 8 < c" for a c :: int by presburger
  ultimately show "0 \<le> tp_x t div 8 \<and> tp_x t div 8 < 2 ^ nat (tp_z t - 3)" "0 \<le> tp_y t div 8 \<and> tp_y t div 8 < 2 ^ nat (tp_z t - 3)"
    using assms unfolding packable_def by metis+
qed

lemma pack_cell:
  assumes "0 \<le> X" "X < 2 ^ k" "0 \<le> Y" "Y < (2 :: int) ^ k" "k + k \<le> n"
  shows "0 \<le> X * 2 ^ k + Y \<and> X * 2 ^ k + Y < 2 ^ n"
proof -
  have "X * 2 ^ k + Y < (X + 1) * 2 ^ k" using assms(4) by (simp add: algebra_simps)
  also have "\<dots> \<le> 2 ^ k * 2 ^ k" using assms(2) by (intro mult_right_mono) simp_all
  also have "\<dots> \<le> (2 :: int) ^ n" using assms(5) by (simp flip: power_add)
  finally show ?thesis using assms(1,3) by simp
qed

lemma small_or:
  assumes "3 \<le> z" "(z :: int) \<le> 17"
  shows "13 < z \<Longrightarrow> 4 OR (17 - z) = 21 - z" and "z \<le> 13 \<Longrightarrow> 32 OR (13 - z) = 45 - z"
  using or_shift [of "17 - z" 2 1] or_shift [of "13 - z" 5 1] assms by (simp_all add: push_bit_eq_mult)

lemma tile_to_frag_pack:
  assumes "packable t"
  shows "tile_to_frag t = Inr (word_of_int (pack (tp_z t) (tp_x t div 8) (tp_y t div 8)))"
proof -
  let ?z = "tp_z t" and ?X = "tp_x t div 8" and ?Y = "tp_y t div 8"
  let ?k = "nat (?z - 3)"
  note r = packable_range [OF assms]
  have z: "3 \<le> ?z" "?z \<le> 18" using assms by (auto simp: packable_def)
  have d: "drop_bit 3 (tp_x t) = ?X" "drop_bit 3 (tp_y t) = ?Y" by (simp_all add: drop_bit_eq_div)
  have xy: "push_bit ?k (word_of_int ?X) OR word_of_int ?Y = (word_of_int (?X * 2 ^ ?k + ?Y) :: 32 word)"
    using or_shift [of ?Y ?k ?X] r(2) by (simp add: push_bit_word_of_int word_wi_log_defs)
  have tag: "push_bit n (word_of_int p) OR word_of_int m = (word_of_int (p * 2 ^ n + m) :: 32 word)"
    if "0 \<le> m" "m < 2 ^ n" for n p m
    using or_shift [OF that, of p] by (simp add: push_bit_word_of_int word_wi_log_defs)
  consider "?z = 18" | "13 < ?z" "?z < 18" | "?z \<le> 13" using z by linarith
  then show ?thesis
  proof cases
    case 1
    then show ?thesis using xy d by (simp add: tile_to_frag_def pack_def)
  next
    case 2
    have "0 \<le> ?X * 2 ^ ?k + ?Y \<and> ?X * 2 ^ ?k + ?Y < 2 ^ 28" by (rule pack_cell) (use r 2 in auto)
    then show ?thesis using 2 z xy d tag [of "?X * 2 ^ ?k + ?Y" 28 "21 - ?z"] small_or(1) [of ?z]
      by (simp add: tile_to_frag_def pack_def Let_def add.assoc)
  next
    case 3
    have "0 \<le> ?X * 2 ^ ?k + ?Y \<and> ?X * 2 ^ ?k + ?Y < 2 ^ 26" by (rule pack_cell) (use r 3 z in auto)
    then show ?thesis using 3 z xy d tag [of "?X * 2 ^ ?k + ?Y" 26 "45 - ?z"] small_or(2) [of ?z]
      by (simp add: tile_to_frag_def pack_def Let_def add.assoc)
  qed
qed

lemma pack_inj:
  assumes "3 \<le> z" "z \<le> 18" "0 \<le> X" "X < 2 ^ nat (z - 3)" "0 \<le> Y" "Y < 2 ^ nat (z - 3)"
    and "3 \<le> z'" "z' \<le> 18" "0 \<le> X'" "X' < 2 ^ nat (z' - 3)" "0 \<le> Y'" "Y' < 2 ^ nat (z' - 3)"
  shows "pack z X Y = pack z' X' Y' \<longleftrightarrow> z = z' \<and> X = X' \<and> Y = Y'"
proof
  assume eq: "pack z X Y = pack z' X' Y'"
  have cell: "0 \<le> a * 2 ^ nat (u - 3) + b \<and> a * 2 ^ nat (u - 3) + b < 2 ^ (if u = 18 then 30 else if u > 13 then 28 else 26)"
    if "3 \<le> u" "u \<le> 18" "0 \<le> a" "a < 2 ^ nat (u - 3)" "0 \<le> b" "b < 2 ^ nat (u - 3)" for u a b :: int
    by (rule pack_cell) (use that in auto)
  let ?M = "X * 2 ^ nat (z - 3) + Y" and ?M' = "X' * 2 ^ nat (z' - 3) + Y'"
  have p: "pack z X Y = (if z = 18 then 0 else if z > 13 then (21 - z) * 2 ^ 28 else (45 - z) * 2 ^ 26) + ?M"
    "pack z' X' Y' = (if z' = 18 then 0 else if z' > 13 then (21 - z') * 2 ^ 28 else (45 - z') * 2 ^ 26) + ?M'"
    by (simp_all add: pack_def)
  note c = cell [OF assms(1-6)] cell [OF assms(7-12)]
  have z: "z = z'"
    using eq c assms(1,2,7,8) unfolding p by (auto split: if_splits)
  then have M: "?M = ?M'" using eq unfolding pack_def z by simp
  have "X = ?M div 2 ^ nat (z - 3)" "Y = ?M mod 2 ^ nat (z - 3)" using assms(5,6) by simp_all
  moreover have "X' = ?M' div 2 ^ nat (z - 3)" "Y' = ?M' mod 2 ^ nat (z - 3)" using assms(11,12) z by simp_all
  ultimately show "z = z' \<and> X = X' \<and> Y = Y'" using z M by metis
qed simp

lemma pack_32: "packable t \<Longrightarrow> 0 \<le> pack (tp_z t) (tp_x t div 8) (tp_y t div 8) \<and> pack (tp_z t) (tp_x t div 8) (tp_y t div 8) < 2 ^ 32"
proof -
  assume a: "packable t"
  have z: "3 \<le> tp_z t" "tp_z t \<le> 18" using a by (auto simp: packable_def)
  have "0 \<le> tp_x t div 8 * 2 ^ nat (tp_z t - 3) + tp_y t div 8 \<and>
      tp_x t div 8 * 2 ^ nat (tp_z t - 3) + tp_y t div 8 < 2 ^ (if tp_z t = 18 then 30 else if tp_z t > 13 then 28 else 26)"
    by (rule pack_cell) (use packable_range [OF a] z in auto)
  then show ?thesis using z by (auto simp: pack_def split: if_splits)
qed

lemma meta_xy_div8: "x AND NOT 7 = x' AND NOT 7 \<longleftrightarrow> x div 8 = (x' div 8 :: int)"
  using minus_mod_eq_mult_div [of x 8] minus_mod_eq_mult_div [of x' 8] by (simp only: and_not_7) auto

lemma meta_xy_eq:
  "xy_to_meta_xy x y = xy_to_meta_xy x' y' \<longleftrightarrow> x div 8 = x' div 8 \<and> y div 8 = y' div 8"
  unfolding xy_to_meta_xy_def METATILE_def using meta_xy_div8 [of x x'] meta_xy_div8 [of y y'] by simp

lemma frag_eq_iff:
  assumes "packable t" "packable t'"
  shows "tile_to_frag t = tile_to_frag t' \<longleftrightarrow> tp_z t = tp_z t' \<and> tp_x t div 8 = tp_x t' div 8 \<and> tp_y t div 8 = tp_y t' div 8"
proof -
  let ?N = "\<lambda>t. pack (tp_z t) (tp_x t div 8) (tp_y t div 8)"
  have "tile_to_frag t = tile_to_frag t' \<longleftrightarrow> ?N t = ?N t'"
    using pack_32 [OF assms(1)] pack_32 [OF assms(2)] tile_to_frag_pack [OF assms(1)] tile_to_frag_pack [OF assms(2)]
    by (simp add: word_of_int_eq_iff take_bit_int_eq_self)
  also have "\<dots> \<longleftrightarrow> tp_z t = tp_z t' \<and> tp_x t div 8 = tp_x t' div 8 \<and> tp_y t div 8 = tp_y t' div 8"
    by (rule pack_inj) (use assms packable_range [OF assms(1)] packable_range [OF assms(2)] in \<open>auto simp: packable_def\<close>)
  finally show ?thesis .
qed

text \<open>
  C22. The packed form of a metatile is unambiguous: for zoom levels 3 to 18 and coordinates within the level, no
  undefined shift occurs, and two tiles have the same 32-bit form exactly if they are in the same metatile.
\<close>

theorem tile_to_frag_injective:
  assumes "packable t" "packable t'"
  shows "(\<exists>f. tile_to_frag t = Inr f) \<and>
    (tile_to_frag t = tile_to_frag t' \<longleftrightarrow>
      tp_z t = tp_z t' \<and> xy_to_meta_xy (tp_x t) (tp_y t) = xy_to_meta_xy (tp_x t') (tp_y t'))"
  using tile_to_frag_pack [OF assms(1)] frag_eq_iff [OF assms]
  by (simp add: meta_xy_eq)

definition ex_ztile :: "int \<Rightarrow> int \<Rightarrow> int \<Rightarrow> protoFmt \<Rightarrow> tile_protocol" where
  "ex_ztile x y z f = default_tile\<lparr>tp_x := x, tp_y := y, tp_z := z, style := ''osm'', format := f\<rparr>"

theorem tile_to_frag_injective_witness:
  "tile_to_frag (ex_ztile 9 1 14 fmtPNG) = tile_to_frag (ex_ztile 15 7 14 fmtPNG) \<and>
   tile_to_frag (ex_ztile 9 1 14 fmtPNG) \<noteq> tile_to_frag (ex_ztile 9 1 15 fmtPNG)"
  using tile_to_frag_injective [of "ex_ztile 9 1 14 fmtPNG" "ex_ztile 15 7 14 fmtPNG"]
    tile_to_frag_injective [of "ex_ztile 9 1 14 fmtPNG" "ex_ztile 9 1 15 fmtPNG"]
  by (simp add: packable_def ex_ztile_def xy_to_meta_xy_def METATILE_def)

text \<open>
  Unpacking is not the inverse of packing: the tile at 8, 0 of zoom level 18 comes back as the tile at 0 and
  32768, and for zoom levels up to 13 the level is read from the wrong bits, so that even the level changes.
\<close>

theorem frag_to_tile_not_inverse:
  "(\<exists>f t. tile_to_frag (ex_ztile 8 0 18 fmtPNG) = Inr f \<and> frag_to_tile f default_tile = Inr t \<and>
      tp_z t = 18 \<and> tp_x t = 0 \<and> tp_y t = 32768) \<and>
   (\<exists>f t. tile_to_frag (ex_ztile 0 0 10 fmtPNG) = Inr f \<and> frag_to_tile f default_tile = Inr t \<and> tp_z t = 13)"
proof -
  have "tile_to_frag (ex_ztile 8 0 18 fmtPNG) = Inr 32768" "tile_to_frag (ex_ztile 0 0 10 fmtPNG) = Inr 2348810240"
    by (simp_all add: tile_to_frag_pack packable_def ex_ztile_def pack_def)
  moreover have "frag_to_tile 32768 default_tile = Inr (default_tile\<lparr>tp_z := 18, tp_x := 0, tp_y := 32768\<rparr>)"
    by (simp add: frag_to_tile_def push_bit_eq_mult drop_bit_eq_div)
  moreover have "\<exists>t. frag_to_tile 2348810240 default_tile = Inr t \<and> tp_z t = 13"
    by (simp add: frag_to_tile_def push_bit_eq_mult drop_bit_eq_div)
  ultimately show ?thesis by auto
qed

subsection \<open>The set of expired metatiles\<close>

definition same_expiry :: "tile_protocol \<Rightarrow> tile_protocol \<Rightarrow> bool" where
  "same_expiry t t' \<longleftrightarrow> style_and_format t = style_and_format t' \<and> tp_z t = tp_z t' \<and>
     tp_x t div 8 = tp_x t' div 8 \<and> tp_y t div 8 = tp_y t' div 8"

lemma frag_Inr: "packable t \<Longrightarrow> \<exists>f. tile_to_frag t = Inr f"
  using tile_to_frag_pack by blast

lemma lookup_insert:
  assumes "packable t" "packable t'"
  shows "\<exists>d'. expiry_insert t d = Inr d' \<and>
    expiry_lookup t' d' = (if same_expiry t t' then Inr True else expiry_lookup t' d)"
proof -
  obtain f f' where f: "tile_to_frag t = Inr f" "tile_to_frag t' = Inr f'" using frag_Inr assms by blast
  then show ?thesis using frag_eq_iff [OF assms]
    by (cases "d (style_and_format t)") (auto simp: expiry_insert_def expiry_lookup_def same_expiry_def)
qed

lemma lookup_erase:
  assumes "packable t" "packable t'"
  shows "\<exists>d'. expiry_erase t d = Inr d' \<and>
    expiry_lookup t' d' = (if same_expiry t t' then Inr False else expiry_lookup t' d)"
proof -
  obtain f f' where f: "tile_to_frag t = Inr f" "tile_to_frag t' = Inr f'" using frag_Inr assms by blast
  then show ?thesis using frag_eq_iff [OF assms]
    by (cases "d (style_and_format t)") (auto simp: expiry_erase_def expiry_lookup_def same_expiry_def)
qed

text \<open>
  C23. What a server remembers, for tiles of zoom levels 3 to 18: after a metatile is set expired, every query for
  a tile of it with the same style and format says so, after it is cleared every such query says it is
  not, and the answers for all other tiles are unchanged. Setting and clearing are always acknowledged.
\<close>

theorem expiry_set_and_query:
  assumes "packable t" "packable t'"
  shows "\<exists>d'. answer_request \<lparr>cr_addresses = a, cr_tile = t, cr_value = Some v\<rparr> d = Inr (True, d') \<and>
    expiry_lookup t' d' =
      (if style t = style t' \<and> format t = format t' \<and> tp_z t = tp_z t' \<and>
          xy_to_meta_xy (tp_x t) (tp_y t) = xy_to_meta_xy (tp_x t') (tp_y t')
       then Inr (v \<noteq> 0) else expiry_lookup t' d)"
proof -
  have s: "same_expiry t t' \<longleftrightarrow> style t = style t' \<and> format t = format t' \<and> tp_z t = tp_z t' \<and>
      xy_to_meta_xy (tp_x t) (tp_y t) = xy_to_meta_xy (tp_x t') (tp_y t')"
    by (auto simp: same_expiry_def style_and_format_def meta_xy_eq)
  show ?thesis
    using lookup_insert [OF assms, of d] lookup_erase [OF assms, of d]
    by (cases "v = 0") (auto simp: answer_request_def simp flip: s)
qed

theorem expiry_set_and_query_witness:
  "\<exists>d'. answer_request \<lparr>cr_addresses = [], cr_tile = ex_ztile 8 0 12 fmtPNG, cr_value = Some 1\<rparr> Map.empty = Inr (True, d') \<and>
     expiry_lookup (ex_ztile 15 7 12 fmtPNG) d' = Inr True"
  using expiry_set_and_query [of "ex_ztile 8 0 12 fmtPNG" "ex_ztile 15 7 12 fmtPNG" "[]" 1 Map.empty]
  by (simp add: packable_def ex_ztile_def xy_to_meta_xy_def METATILE_def)

text \<open>
  The expiry overlay on top of this service: expiring a metatile in one format and then saving it anew with a
  different set of formats, as the workers do, leaves the tiles of the first format expired, because the key of the
  expiry includes the formats.
\<close>

theorem save_does_not_clear_other_format:
  assumes "packable t" "format m \<noteq> format t"
    and "st_expire (expiry_overlay st (local_service id (\<lambda>d s. d))) t d = (d1, Inr True)"
    and "st_put_meta (expiry_overlay null_storage (local_service id (\<lambda>d s. d))) m buf d1 = (d2, Inr True)"
    and "packable m"
  shows "\<exists>h. snd (st_get (expiry_overlay null_storage (local_service id (\<lambda>d s. d))) t d2) = Inr h \<and> h_expired h"
proof -
  obtain i where i: "expiry_insert t d = Inr i" "expiry_lookup t i = Inr True"
    using lookup_insert [OF assms(1,1), of d] by (auto simp: same_expiry_def)
  obtain e where e: "expiry_erase m i = Inr e" "expiry_lookup t e = Inr True"
    using lookup_erase [OF assms(5,1), of i] assms(2) i(2) by (auto simp: same_expiry_def style_and_format_def)
  have "d1 = i" using assms(3) i(1) by (simp add: expiry_overlay_def local_service_def answer_request_def)
  then have "d2 = e"
    using assms(4) e(1) by (simp add: expiry_overlay_def overlay_put_meta_def local_service_def answer_request_def null_storage_def)
  then show ?thesis
    using e(2) by (simp add: expiry_overlay_def overlay_get_def local_service_def answer_request_def null_storage_def overlay_handle_def)
qed

theorem save_does_not_clear_other_format_witness:
  "\<exists>d1 d2 h. st_expire (expiry_overlay null_storage (local_service id (\<lambda>d s. d))) (ex_ztile 8 0 12 fmtPNG) Map.empty = (d1, Inr True) \<and>
     st_put_meta (expiry_overlay null_storage (local_service id (\<lambda>d s. d))) (ex_ztile 8 0 12 (fmtPNG OR fmtJPEG)) '''' d1 = (d2, Inr True) \<and>
     snd (st_get (expiry_overlay null_storage (local_service id (\<lambda>d s. d))) (ex_ztile 8 0 12 fmtPNG) d2) = Inr h \<and> h_expired h"
proof -
  let ?o = "expiry_overlay null_storage (local_service id (\<lambda>d s. d))" and ?t = "ex_ztile 8 0 12 fmtPNG"
    and ?m = "ex_ztile 8 0 12 (fmtPNG OR fmtJPEG)"
  have p: "packable ?t" "packable ?m" by (simp_all add: packable_def ex_ztile_def)
  have f: "format ?m \<noteq> format ?t" by (simp add: ex_ztile_def fmt_defs)
  obtain d1 where d1: "st_expire ?o ?t Map.empty = (d1, Inr True)"
    using lookup_insert [OF p(1,1), of Map.empty] by (auto simp: expiry_overlay_def local_service_def answer_request_def)
  obtain d2 where d2: "st_put_meta ?o ?m '''' d1 = (d2, Inr True)"
    using lookup_erase [OF p(2,1), of d1]
    by (auto simp: expiry_overlay_def overlay_put_meta_def local_service_def answer_request_def null_storage_def)
  show ?thesis using save_does_not_clear_other_format [OF p(1) f d1 d2 p(2)] d1 d2 by blast
qed

subsection \<open>One master\<close>

lemma event_not_client [simp]: "event_of_word p \<noteq> event_client_request"
  by (cases p) simp_all

lemma client_event:
  "snd (fsm_event now event_client_request m) \<longleftrightarrow>
     m_state m = state_primary \<or> m_state m = state_active \<or> (m_state m = state_passive \<and> m_peer_expiry m \<le> now)"
  by (cases "m_state m") (simp_all add: fsm_event_def fsm_transition_def)

lemma peer_keeps_expired: "sv_expired (fst (serve_peer now p s)) = sv_expired s"
  by (simp add: serve_peer_def case_prod_unfold Let_def)

lemma beat_keeps_expired: "sv_expired (snd (heartbeat_due now s)) = sv_expired s" "Response a r \<notin> set (fst (heartbeat_due now s))"
  by (simp_all add: heartbeat_due_def)

lemma iteration_no_client:
  assumes "server_iteration t1 t2 t3 None peer s = Inr (out, s', stop)"
  shows "sv_expired s' = sv_expired s \<and> (\<forall>a r. Response a r \<notin> set out)"
proof -
  obtain s2 stop2 where p: "(case peer of None \<Rightarrow> (s, False) | Some p \<Rightarrow> serve_peer t2 p s) = (s2, stop2)" by force
  have "sv_expired s2 = sv_expired s" using p peer_keeps_expired [of t2 _ s] by (auto split: option.splits) (metis fst_conv)
  moreover have "server_iteration t1 t2 t3 None peer s =
      (if stop2 then Inr ([], s2, True)
       else Inr (fst (heartbeat_due t3 s2), snd (heartbeat_due t3 s2), False))"
    using p by (cases peer) (auto simp: server_iteration_def case_prod_unfold Let_def)
  ultimately show ?thesis using assms beat_keeps_expired(1) [of t3 s2] beat_keeps_expired(2) [of _ _ t3 s2]
    by (cases stop2) auto
qed

lemma iteration_refused:
  assumes "server_iteration t1 t2 t3 (Some r) peer s = Inr (out, s', stop)" "\<not> snd (fsm_event t1 event_client_request (sv_fsm s))"
  shows "stop \<and> out = [] \<and> sv_expired s' = sv_expired s"
  using assms by (auto simp: server_iteration_def serve_client_def case_prod_unfold Let_def)

text \<open>
  The passes of a server's loop, from the start as the primary or the backup, with the time at which it last took a state
  of its peer.
\<close>

inductive server_run :: "expiry_server \<Rightarrow> int option \<Rightarrow> bool" where
  start: "m_state (sv_fsm s) \<in> {state_primary, state_backup} \<Longrightarrow> server_run s None"
| pass: "server_run s heard \<Longrightarrow> server_iteration t1 t2 t3 client peer s = Inr (out, s', False) \<Longrightarrow>
    server_run s' (if peer = None then heard else Some t2)"

definition silence_known :: "fsm \<Rightarrow> int option \<Rightarrow> bool" where
  "silence_known m heard \<longleftrightarrow> (m_state m = state_passive \<longrightarrow> (\<exists>t. heard = Some t \<and> m_peer_expiry m = t + 2 * HEARTBEAT))"

lemma client_silence: "silence_known m heard \<Longrightarrow> silence_known (fst (fsm_event now event_client_request m)) heard"
  by (cases "m_state m") (auto simp: silence_known_def fsm_event_def fsm_transition_def)

lemma peer_silence:
  "snd (fsm_event now (event_of_word p) m) \<Longrightarrow> silence_known (fst (fsm_event now (event_of_word p) m)) (Some now)"
  by (simp add: silence_known_def fsm_event_def case_prod_unfold Let_def)

lemma iteration_fsm:
  assumes "server_iteration t1 t2 t3 client peer s = Inr (out, s', False)"
  obtains m where "m = sv_fsm s \<or> m = fst (fsm_event t1 event_client_request (sv_fsm s))"
    "case peer of None \<Rightarrow> sv_fsm s' = m
     | Some p \<Rightarrow> snd (fsm_event t2 (event_of_word p) m) \<and> sv_fsm s' = fst (fsm_event t2 (event_of_word p) m)"
proof -
  obtain out1 s1 where c: "(case client of None \<Rightarrow> Inr ([], s, False) | Some r \<Rightarrow> serve_client t1 r s) = Inr (out1, s1, False)"
    using assms unfolding server_iteration_def by (auto split: sum.splits prod.splits if_splits)
  have m: "sv_fsm s1 = sv_fsm s \<or> sv_fsm s1 = fst (fsm_event t1 event_client_request (sv_fsm s))"
    using c by (auto simp: serve_client_def case_prod_unfold Let_def split: option.splits sum.splits if_splits)
  have "sv_fsm (snd (heartbeat_due t3 s2)) = sv_fsm s2" for s2 by (simp add: heartbeat_due_def)
  then have "case peer of None \<Rightarrow> sv_fsm s' = sv_fsm s1
     | Some p \<Rightarrow> snd (fsm_event t2 (event_of_word p) (sv_fsm s1)) \<and> sv_fsm s' = fst (fsm_event t2 (event_of_word p) (sv_fsm s1))"
    using assms unfolding server_iteration_def c
    by (cases peer) (auto simp: serve_peer_def case_prod_unfold Let_def split: if_splits)
  then show thesis using that m by blast
qed

lemma server_run_silence: "server_run s heard \<Longrightarrow> silence_known (sv_fsm s) heard"
proof (induction rule: server_run.induct)
  case (pass s heard t1 t2 t3 client peer out s')
  obtain m where m: "m = sv_fsm s \<or> m = fst (fsm_event t1 event_client_request (sv_fsm s))"
      "case peer of None \<Rightarrow> sv_fsm s' = m
       | Some p \<Rightarrow> snd (fsm_event t2 (event_of_word p) m) \<and> sv_fsm s' = fst (fsm_event t2 (event_of_word p) m)"
    using iteration_fsm [OF pass(2)] .
  then show ?case using pass.IH client_silence peer_silence by (cases peer) auto
qed (auto simp: silence_known_def)

text \<open>
  C24. A client's request is answered only by a server that is then master, or that is the primary before it has heard from
  its backup, or by a slave that last heard from its peer at least two heartbeats ago, which takes over. The backup that
  has not heard from a master, and a slave whose peer was heard of within the last two heartbeats, leave their loop without an
  answer. A pass without a client's request does not change the set of expired metatiles.
\<close>

theorem only_master_serves:
  assumes "server_run s heard" "server_iteration t1 t2 t3 client peer s = Inr (out, s', stop)"
  shows "(\<forall>a r. Response a r \<in> set out \<longrightarrow>
      (m_state (sv_fsm s) = state_primary \<or> m_state (sv_fsm s) = state_active \<or>
       (m_state (sv_fsm s) = state_passive \<and> (\<exists>t. heard = Some t \<and> t + 2 * HEARTBEAT \<le> t1)))) \<and>
    (client \<noteq> None \<and> (m_state (sv_fsm s) = state_backup \<or>
       (m_state (sv_fsm s) = state_passive \<and> (\<exists>t. heard = Some t \<and> t1 < t + 2 * HEARTBEAT))) \<longrightarrow>
      stop \<and> out = [] \<and> sv_expired s' = sv_expired s) \<and>
    (client = None \<longrightarrow> sv_expired s' = sv_expired s)"
proof (cases client)
  case None
  then show ?thesis using iteration_no_client assms(2) by auto
next
  case (Some c)
  have h: "silence_known (sv_fsm s) heard" using assms(1) by (rule server_run_silence)
  show ?thesis
  proof (cases "snd (fsm_event t1 event_client_request (sv_fsm s))")
    case True
    then show ?thesis using Some h unfolding client_event silence_known_def by auto
  next
    case False
    then show ?thesis using iteration_refused [OF assms(2) [unfolded Some] False] by auto
  qed
qed

text \<open>A backup that has heard from the master at time 5.\<close>

definition ex_server :: expiry_server where
  "ex_server = \<lparr>sv_fsm = \<lparr>m_state = state_backup, m_peer_expiry = 0\<rparr>, sv_expired = Map.empty, sv_next_heartbeat = HEARTBEAT\<rparr>"

definition ex_slave :: expiry_server where
  "ex_slave = ex_server\<lparr>sv_fsm := \<lparr>m_state = state_passive, m_peer_expiry = 5 + 2 * HEARTBEAT\<rparr>\<rparr>"

lemma ex_slave_run: "server_run ex_slave (Some 5)"
proof -
  have "server_run ex_server None" by (rule server_run.start) (simp add: ex_server_def)
  moreover have "server_iteration 4 5 6 None (Some state_active) ex_server = Inr ([], ex_slave, False)"
    by (simp add: server_iteration_def serve_peer_def heartbeat_due_def ex_server_def ex_slave_def fsm_event_def fsm_transition_def HEARTBEAT_def)
  ultimately show ?thesis using server_run.pass [of ex_server None 4 5 6 None "Some state_active" "[]" ex_slave] by simp
qed

theorem only_master_serves_witness:
  "\<exists>s'. server_iteration 1000 1001 1002 (Some \<lparr>cr_addresses = [], cr_tile = default_tile, cr_value = None\<rparr>) None ex_slave = Inr ([], s', True)"
proof -
  let ?c = "Some \<lparr>cr_addresses = [], cr_tile = default_tile, cr_value = None\<rparr>"
  obtain out s' stop where r: "server_iteration 1000 1001 1002 ?c None ex_slave = Inr (out, s', stop)"
    by (simp add: server_iteration_def serve_client_def ex_slave_def fsm_event_def fsm_transition_def HEARTBEAT_def)
  then show ?thesis using only_master_serves [OF ex_slave_run r] by (simp add: ex_slave_def HEARTBEAT_def)
qed

text \<open>The two servers, and the states they have published and the other has not yet received.\<close>

record star =
  pri :: fsm
  bak :: fsm
  to_bak :: "state_t list"
  to_pri :: "state_t list"

text \<open>
  A step of the pair: one publishes its state, takes the next state published by the other, or gets a request of
  a client, which at a slave finds that the peer was heard of recently.
\<close>

inductive star_step :: "star \<Rightarrow> star \<Rightarrow> bool" where
  pri_beat: "star_step s (s\<lparr>to_bak := to_bak s @ [m_state (pri s)]\<rparr>)"
| bak_beat: "star_step s (s\<lparr>to_pri := to_pri s @ [m_state (bak s)]\<rparr>)"
| pri_hears: "to_pri s = p # r \<Longrightarrow> star_step s (s\<lparr>pri := fst (fsm_event now (event_of_word p) (pri s)), to_pri := r\<rparr>)"
| bak_hears: "to_bak s = p # r \<Longrightarrow> star_step s (s\<lparr>bak := fst (fsm_event now (event_of_word p) (bak s)), to_bak := r\<rparr>)"
| pri_client: "m_state (pri s) = state_passive \<longrightarrow> now < m_peer_expiry (pri s) \<Longrightarrow>
    star_step s (s\<lparr>pri := fst (fsm_event now event_client_request (pri s))\<rparr>)"
| bak_client: "m_state (bak s) = state_passive \<longrightarrow> now < m_peer_expiry (bak s) \<Longrightarrow>
    star_step s (s\<lparr>bak := fst (fsm_event now event_client_request (bak s))\<rparr>)"

inductive star_reachable :: "star \<Rightarrow> bool" where
  start: "star_reachable \<lparr>pri = \<lparr>m_state = state_primary, m_peer_expiry = t\<rparr>, bak = \<lparr>m_state = state_backup, m_peer_expiry = u\<rparr>,
    to_bak = [], to_pri = []\<rparr>"
| step: "star_reachable s \<Longrightarrow> star_step s s' \<Longrightarrow> star_reachable s'"

definition star_inv :: "star \<Rightarrow> bool" where
  "star_inv s \<longleftrightarrow>
     (m_state (pri s) = state_primary \<and> m_state (bak s) = state_backup \<and> set (to_bak s) \<subseteq> {state_primary} \<and> set (to_pri s) \<subseteq> {state_backup}) \<or>
     (m_state (pri s) = state_active \<and> set (to_pri s) \<subseteq> {state_backup, state_passive} \<and>
       ((m_state (bak s) = state_backup \<and> (\<exists>i j. to_bak s = replicate i state_primary @ replicate j state_active)) \<or>
        (m_state (bak s) = state_passive \<and> set (to_bak s) \<subseteq> {state_active})))"

lemma replicate_all: "set xs \<subseteq> {a} \<Longrightarrow> xs = replicate (length xs) a"
  by (induction xs) auto

lemma star_step_inv: "star_step s s' \<Longrightarrow> star_inv s \<Longrightarrow> star_inv s'"
proof (induction rule: star_step.induct)
  case (pri_beat s)
  have grow: "\<exists>i' j'. xs @ [state_active] = replicate i' state_primary @ replicate j' state_active"
    if "\<exists>i j. xs = replicate i state_primary @ replicate j state_active" for xs
    using that by (metis append.assoc replicate_Suc replicate_append_same)
  show ?case
  proof (cases "m_state (bak s) = state_backup \<and> m_state (pri s) = state_active")
    case True
    then have "\<exists>i j. to_bak s = replicate i state_primary @ replicate j state_active"
      using pri_beat by (simp add: star_inv_def)
    from grow [OF this] show ?thesis using True pri_beat by (simp add: star_inv_def)
  qed (use pri_beat in \<open>auto simp: star_inv_def\<close>)
next
  case (bak_beat s)
  then show ?case by (auto simp: star_inv_def)
next
  case (pri_hears s p r now)
  have "\<exists>i j. to_bak s = replicate i state_primary @ replicate j state_active" if "set (to_bak s) \<subseteq> {state_primary}"
    using replicate_all [OF that] by (metis append_Nil2 replicate_0)
  then show ?case using pri_hears
    by (auto simp: star_inv_def fsm_event_def fsm_transition_def)
next
  case (bak_hears s p r now)
  let ?s = "s\<lparr>bak := fst (fsm_event now (event_of_word p) (bak s)), to_bak := r\<rparr>"
  show ?case
  proof (cases "m_state (bak s) = state_backup \<and> m_state (pri s) = state_active")
    case True
    then obtain i j where ij: "p # r = replicate i state_primary @ replicate j state_active"
      using bak_hears by (auto simp: star_inv_def)
    show ?thesis
    proof (cases i)
      case 0
      then have "p = state_active" "set r \<subseteq> {state_active}" using ij by (cases j; auto)+
      then show ?thesis using True bak_hears by (simp add: star_inv_def fsm_event_def fsm_transition_def)
    next
      case (Suc i')
      then have p: "p = state_primary" and r: "r = replicate i' state_primary @ replicate j state_active" using ij by auto
      have "\<exists>i j. r = replicate i state_primary @ replicate j state_active" using r by blast
      then show ?thesis using True bak_hears p by (simp add: star_inv_def fsm_event_def fsm_transition_def)
    qed
  qed (use bak_hears in \<open>auto simp: star_inv_def fsm_event_def fsm_transition_def\<close>)
next
  case (pri_client s now)
  then show ?case by (auto simp: star_inv_def fsm_event_def fsm_transition_def case_prod_unfold Let_def)
next
  case (bak_client s now)
  then show ?case by (auto simp: star_inv_def fsm_event_def fsm_transition_def case_prod_unfold Let_def)
qed

text \<open>
  C21. With published states that arrive in order, and while no slave's peer has been silent for two heartbeats, there is never
  more than one master: the primary is the one, and no exchange of states is ever taken as a fatal error by either.
\<close>

theorem binary_star_single_master:
  assumes "star_reachable s"
  shows "m_state (bak s) \<noteq> state_active \<and>
    (\<forall>p r now. to_bak s = p # r \<longrightarrow> snd (fsm_event now (event_of_word p) (bak s))) \<and>
    (\<forall>p r now. to_pri s = p # r \<longrightarrow> snd (fsm_event now (event_of_word p) (pri s)))"
proof -
  have "star_inv s" using assms
    by (induction rule: star_reachable.induct) (auto simp: star_step_inv, simp add: star_inv_def)
  then have "m_state (bak s) \<noteq> state_active" "m_state (bak s) = state_passive \<longrightarrow> set (to_bak s) \<subseteq> {state_active}"
      "m_state (pri s) = state_primary \<or> m_state (pri s) = state_active" "m_state (bak s) = state_backup \<or> m_state (bak s) = state_passive"
      "set (to_pri s) \<subseteq> {state_backup, state_passive}"
    by (auto simp: star_inv_def)
  then show ?thesis
    by (auto simp: fsm_event_def fsm_transition_def)
qed

theorem binary_star_single_master_witness:
  "\<exists>s. star_reachable s \<and> to_bak s = [state_primary] \<and> m_state (bak s) \<noteq> state_active"
proof -
  let ?s = "\<lparr>pri = \<lparr>m_state = state_primary, m_peer_expiry = 0\<rparr>, bak = \<lparr>m_state = state_backup, m_peer_expiry = 0\<rparr>,
    to_bak = [], to_pri = []\<rparr>"
  have r: "star_reachable (?s\<lparr>to_bak := to_bak ?s @ [m_state (pri ?s)]\<rparr>)"
    by (rule star_reachable.step [OF star_reachable.start star_step.pri_beat])
  show ?thesis by (rule exI, rule conjI [OF r]) (use binary_star_single_master [OF r] in simp)
qed

end
