(* ===== verification/Storage_Worker.thy ===== *)
theory Storage_Worker
  imports Storage "HOL-Library.Multiset"
begin

text \<open>
  The storage worker of a tile handler (\<^verbatim>\<open>storage_worker.cpp\<close>): a thread that passes requests on to a fixed
  number of I/O threads, which look tiles up in the storage, and queues what exceeds their number.

  The 0MQ sockets between the threads are sequences of messages. A storage is the record of Storage; the
  destructor of its handles, which \<^verbatim>\<open>handle_tile\<close> runs at the end of its scope, is the parameter \<open>release\<close>.
\<close>

subsection \<open>One request\<close>

text \<open>The results of \<^verbatim>\<open>expire\<close> are not looked at; its exceptions end the call.\<close>

fun expire_styles :: "'s tile_storage \<Rightarrow> tile_protocol \<Rightarrow> string list \<Rightarrow> 's \<Rightarrow> 's \<times> (cpp_error + unit)" where
  "expire_styles st tile [] s = (s, Inr ())"
| "expire_styles st tile (sty # stys) s =
     (case st_expire st (tile\<lparr>style := sty\<rparr>) s of
        (s', Inl e) \<Rightarrow> (s', Inl e)
      | (s', Inr _) \<Rightarrow> expire_styles st tile stys s')"

definition handle_tile :: "'s tile_storage \<Rightarrow> ('s \<Rightarrow> 's) \<Rightarrow> (string \<rightharpoonup> string list) \<Rightarrow> tile_protocol \<Rightarrow> 's \<Rightarrow>
    's \<times> (cpp_error + tile_protocol)" where
  "handle_tile st release dirty_list tile s =
     (if status tile = cmdDirty then
        (case st_expire st tile s of
           (s1, Inl e) \<Rightarrow> (s1, Inl e)
         | (s1, Inr _) \<Rightarrow>
           (case dirty_list (style tile) of
              None \<Rightarrow> (s1, Inr tile)
            | Some stys \<Rightarrow>
              (case expire_styles st tile stys s1 of (s2, Inl e) \<Rightarrow> (s2, Inl e) | (s2, Inr _) \<Rightarrow> (s2, Inr tile))))
      else
        (case st_get st tile s of
           (s1, Inl e) \<Rightarrow> (s1, Inl e)
         | (s1, Inr h) \<Rightarrow>
           (if h_exists h then
              (let t1 = (if status tile \<noteq> cmdStatus
                         then (if h_expired h then tile\<lparr>status := cmdIgnore\<rparr> else tile\<lparr>status := cmdDone\<rparr>)
                         else tile);
                   data = (case h_data h of Some d \<Rightarrow> d | None \<Rightarrow> '''')
               in (release s1, Inr (t1\<lparr>tile_data := data, last_modified := h_last_modified h\<rparr>)))
            else (release s1, Inr (if status tile \<noteq> cmdStatus then tile\<lparr>status := cmdNotDone\<rparr> else tile)))))"

subsection \<open>The I/O threads\<close>

text \<open>What a pass of the thread's loop meets: a failing poll, no message, a message that cannot be read, a tile.\<close>

datatype thread_poll = Poll_Error | Poll_Nothing | Poll_Unreadable | Poll_Tile tile_protocol

definition thread_answer :: "'s tile_storage \<Rightarrow> ('s \<Rightarrow> 's) \<Rightarrow> (string \<rightharpoonup> string list) \<Rightarrow> tile_protocol \<Rightarrow> 's \<Rightarrow> 's \<times> tile_protocol" where
  "thread_answer st release dirty_list tile s =
     (case handle_tile st release dirty_list tile s of
        (s', Inr t) \<Rightarrow> (s', t)
      | (s', Inl e) \<Rightarrow> (s', tile\<lparr>status := cmdNotDone\<rparr>))"

text \<open>The loop, on what each pass meets, until shutdown is requested; without a storage the thread ends at once.\<close>

fun thread_loop :: "'s tile_storage \<Rightarrow> ('s \<Rightarrow> 's) \<Rightarrow> (string \<rightharpoonup> string list) \<Rightarrow> (bool \<times> thread_poll) list \<Rightarrow> 's \<Rightarrow>
    tile_protocol list \<times> 's" where
  "thread_loop st release dirty_list [] s = ([], s)"
| "thread_loop st release dirty_list ((shutdown_requested, p) # ps) s =
     (if shutdown_requested then ([], s)
      else case p of
        Poll_Tile tile \<Rightarrow>
          (let (s1, t) = thread_answer st release dirty_list tile s;
               (out, s2) = thread_loop st release dirty_list ps s1
           in (t # out, s2))
      | _ \<Rightarrow> thread_loop st release dirty_list ps s)"

definition thread_func :: "'s tile_storage option \<Rightarrow> ('s \<Rightarrow> 's) \<Rightarrow> (string \<rightharpoonup> string list) \<Rightarrow> (bool \<times> thread_poll) list \<Rightarrow> 's \<Rightarrow>
    tile_protocol list \<times> 's" where
  "thread_func storage release dirty_list ps s =
     (case storage of None \<Rightarrow> ([], s) | Some st \<Rightarrow> thread_loop st release dirty_list ps s)"

subsection \<open>The worker\<close>

text \<open>\<^verbatim>\<open>size_t\<close> has 64 bits; times are in microseconds.\<close>

definition CHECK_THREAD_DEATH_INTERVAL :: int where
  "CHECK_THREAD_DEATH_INTERVAL = 5 * 1000000"

record storage_worker =
  max_concurrency :: int
  cur_concurrency :: int
  queued_requests :: "tile_protocol list"
  next_check_time :: int

definition mk_storage_worker :: "int \<Rightarrow> int \<Rightarrow> storage_worker" where
  "mk_storage_worker max_concur now = \<lparr>max_concurrency = max_concur, cur_concurrency = 0, queued_requests = [],
     next_check_time = now + CHECK_THREAD_DEATH_INTERVAL\<rparr>"

definition size_inc :: "int \<Rightarrow> int" where "size_inc n = (n + 1) mod 2 ^ 64"
definition size_dec :: "int \<Rightarrow> int" where "size_dec n = (n - 1) mod 2 ^ 64"

datatype sw_out = To_Thread tile_protocol | Result tile_protocol

definition sw_request :: "tile_protocol \<Rightarrow> storage_worker \<Rightarrow> sw_out list \<times> storage_worker" where
  "sw_request tile w =
     (if cur_concurrency w < max_concurrency w
      then ([To_Thread tile], w\<lparr>cur_concurrency := size_inc (cur_concurrency w)\<rparr>)
      else ([], w\<lparr>queued_requests := queued_requests w @ [tile]\<rparr>))"

definition sw_result :: "tile_protocol \<Rightarrow> storage_worker \<Rightarrow> sw_out list \<times> storage_worker" where
  "sw_result tile w =
     (case queued_requests w of
        next # rest \<Rightarrow> ([Result tile, To_Thread next], w\<lparr>queued_requests := rest\<rparr>)
      | [] \<Rightarrow> ([Result tile], w\<lparr>cur_concurrency := size_dec (cur_concurrency w)\<rparr>))"

text \<open>The outcome of \<^verbatim>\<open>timed_join\<close> for each thread. \<open>None\<close> is the exception that ends the worker.\<close>

datatype join_outcome = Running | Dead | Interrupted

fun check_threads :: "join_outcome list \<Rightarrow> storage_worker \<Rightarrow> storage_worker option" where
  "check_threads [] w = Some w"
| "check_threads (j # js) w =
     (if j = Dead then
        (let w' = w\<lparr>max_concurrency := size_dec (max_concurrency w)\<rparr>
         in if max_concurrency w' < 1 then None else check_threads js w')
      else check_threads js w)"

text \<open>
  What a pass of the loop meets: a failing poll, or the messages on the two sockets, the time after they
  were handled and the outcomes of joining the threads.
\<close>

datatype sw_poll = Sw_Poll_Error | Sw_Polled "tile_protocol option" "tile_protocol option" int "join_outcome list"

definition sw_iteration :: "sw_poll \<Rightarrow> storage_worker \<Rightarrow> sw_out list \<times> storage_worker option" where
  "sw_iteration p w =
     (case p of
        Sw_Poll_Error \<Rightarrow> ([], Some w)
      | Sw_Polled req res now joins \<Rightarrow>
        (let (o1, w1) = (case req of Some tile \<Rightarrow> sw_request tile w | None \<Rightarrow> ([], w));
             (o2, w2) = (case res of Some tile \<Rightarrow> sw_result tile w1 | None \<Rightarrow> ([], w1))
         in (o1 @ o2,
             if now > next_check_time w2
             then map_option (\<lambda>w3. w3\<lparr>next_check_time := next_check_time w3 + CHECK_THREAD_DEATH_INTERVAL\<rparr>) (check_threads joins w2)
             else Some w2)))"

end
