(* ===== verification/Storage_Worker_Props.thy ===== *)
theory Storage_Worker_Props
  imports Storage_Worker
begin

text \<open>
  The storage worker and its I/O threads together: no request is lost or answered twice, and requests are
  started in the order in which they arrive; what the answer to a request says about the tile.
\<close>

subsection \<open>Counting\<close>

fun dispatched :: "sw_out list \<Rightarrow> tile_protocol list" where
  "dispatched [] = []"
| "dispatched (To_Thread t # os) = t # dispatched os"
| "dispatched (Result t # os) = dispatched os"

fun results :: "sw_out list \<Rightarrow> tile_protocol list" where
  "results [] = []"
| "results (To_Thread t # os) = results os"
| "results (Result t # os) = t # results os"

lemma dispatched_append [simp]: "dispatched (a @ b) = dispatched a @ dispatched b"
  by (induction a rule: dispatched.induct) auto

lemma results_append [simp]: "results (a @ b) = results a @ results b"
  by (induction a rule: results.induct) auto

text \<open>The counters agree with the \<open>f\<close> tiles that are with the threads, and nothing waits while a thread is free.\<close>

definition counters_ok :: "int \<Rightarrow> nat \<Rightarrow> storage_worker \<Rightarrow> bool" where
  "counters_ok n f w \<longleftrightarrow> cur_concurrency w = int f \<and> int f \<le> n \<and> n < 2 ^ 64 \<and> 1 \<le> max_concurrency w \<and>
     max_concurrency w \<le> n \<and> (queued_requests w \<noteq> [] \<longrightarrow> max_concurrency w \<le> int f)"

lemma sw_request_ok:
  assumes "counters_ok n f w" "sw_request t w = (out, w')"
  shows "counters_ok n (f + length (dispatched out)) w'"
    and "results out = []" and "dispatched out @ queued_requests w' = queued_requests w @ [t]"
  using assms by (auto simp: counters_ok_def sw_request_def size_inc_def split: if_splits)

lemma sw_result_ok:
  assumes "counters_ok n (Suc f) w" "sw_result t w = (out, w')"
  shows "counters_ok n (f + length (dispatched out)) w'"
    and "results out = [t]" and "dispatched out @ queued_requests w' = queued_requests w"
  using assms by (auto simp: counters_ok_def sw_result_def size_dec_def split: list.splits)

lemma check_threads_ok:
  "counters_ok n f w \<Longrightarrow> check_threads joins w = Some w' \<Longrightarrow>
    counters_ok n f w' \<and> queued_requests w' = queued_requests w"
proof (induction joins arbitrary: w)
  case (Cons j joins)
  show ?case
  proof (cases "j = Dead")
    case True
    let ?w = "w\<lparr>max_concurrency := size_dec (max_concurrency w)\<rparr>"
    have "check_threads joins ?w = Some w'" "1 \<le> max_concurrency ?w"
      using Cons.prems(2) True by (auto simp: Let_def split: if_splits)
    moreover have "counters_ok n f ?w"
      using Cons.prems(1) calculation(2) by (auto simp: counters_ok_def size_dec_def)
    ultimately show ?thesis using Cons.IH [of ?w] by simp
  qed (use Cons in simp)
qed simp

lemma sw_iteration_ok:
  assumes "counters_ok n f w" "sw_iteration (Sw_Polled req res now joins) w = (out, Some w')"
    and "res \<noteq> None \<Longrightarrow> 0 < f"
  shows "counters_ok n (f + length (dispatched out) - length (results out)) w'"
    and "results out = (case res of Some t \<Rightarrow> [t] | None \<Rightarrow> [])"
    and "dispatched out @ queued_requests w' = queued_requests w @ (case req of Some t \<Rightarrow> [t] | None \<Rightarrow> [])"
proof -
  define r1 where "r1 = (case req of Some tile \<Rightarrow> sw_request tile w | None \<Rightarrow> ([], w))"
  obtain o1 w1 where r1: "r1 = (o1, w1)" by force
  define r2 where "r2 = (case res of Some tile \<Rightarrow> sw_result tile w1 | None \<Rightarrow> ([], w1))"
  obtain o2 w2 where r2: "r2 = (o2, w2)" by force
  have a: "counters_ok n (f + length (dispatched o1)) w1" "results o1 = []"
      "dispatched o1 @ queued_requests w1 = queued_requests w @ (case req of Some t \<Rightarrow> [t] | None \<Rightarrow> [])"
    using r1 assms(1) sw_request_ok [OF assms(1)] by (auto simp: r1_def split: option.splits)
  have "counters_ok n (f + length (dispatched o1) + length (dispatched o2) - length (results o2)) w2 \<and>
      results o2 = (case res of Some t \<Rightarrow> [t] | None \<Rightarrow> []) \<and> dispatched o2 @ queued_requests w2 = queued_requests w1"
  proof (cases res)
    case None
    then show ?thesis using r2 a(1) by (simp add: r2_def)
  next
    case (Some t)
    have "counters_ok n (Suc (f - 1 + length (dispatched o1))) w1" using a(1) assms(3) Some by simp
    then show ?thesis
      using sw_result_ok [of n "f - 1 + length (dispatched o1)" w1 t o2 w2] r2 assms(3) Some by (auto simp: r2_def)
  qed
  then have b: "counters_ok n (f + length (dispatched o1) + length (dispatched o2) - length (results o2)) w2"
      "results o2 = (case res of Some t \<Rightarrow> [t] | None \<Rightarrow> [])" "dispatched o2 @ queued_requests w2 = queued_requests w1"
    by auto
  have out: "out = o1 @ o2" and w': "w' = w2 \<or> (\<exists>w3. check_threads joins w2 = Some w3 \<and>
      w' = w3\<lparr>next_check_time := next_check_time w3 + CHECK_THREAD_DEATH_INTERVAL\<rparr>)"
    using assms(2) r1 r2 by (auto simp: sw_iteration_def r1_def r2_def split: if_splits)
  have "counters_ok n (f + length (dispatched o1) + length (dispatched o2) - length (results o2)) w' \<and>
      queued_requests w' = queued_requests w2"
    using w' b(1) check_threads_ok [OF b(1), of joins] by (auto simp: counters_ok_def)
  then show "counters_ok n (f + length (dispatched out) - length (results out)) w'"
    and "results out = (case res of Some t \<Rightarrow> [t] | None \<Rightarrow> [])"
    and "dispatched out @ queued_requests w' = queued_requests w @ (case req of Some t \<Rightarrow> [t] | None \<Rightarrow> [])"
    using a b by (simp_all add: out add.assoc)
qed

subsection \<open>The worker with its threads\<close>

text \<open>
  The tiles with the threads, the answers on their way back, the storage, and what happened so far: the requests
  received, started and returned, and those lost with a thread.
\<close>

record 's sw_system =
  sys_worker :: storage_worker
  to_threads :: "tile_protocol list"
  answers :: "tile_protocol list"
  sys_store :: 's
  received :: "tile_protocol list"
  started :: "tile_protocol list"
  returned :: "tile_protocol list"
  lost :: "tile_protocol list"

definition sw_start :: "int \<Rightarrow> int \<Rightarrow> 's \<Rightarrow> 's sw_system" where
  "sw_start n now s = \<lparr>sys_worker = mk_storage_worker n now, to_threads = [], answers = [], sys_store = s,
     received = [], started = [], returned = [], lost = []\<rparr>"

text \<open>
  A step: a pass of the worker's loop, an I/O thread that answers one of the tiles, in any order, or one
  that dies with a tile.
\<close>

inductive sw_step :: "'s tile_storage \<Rightarrow> ('s \<Rightarrow> 's) \<Rightarrow> (string \<rightharpoonup> string list) \<Rightarrow> 's sw_system \<Rightarrow> 's sw_system \<Rightarrow> bool"
  for st release dirty_list where
  pass: "sw_iteration (Sw_Polled req res now joins) (sys_worker y) = (out, Some w') \<Longrightarrow>
    res = None \<or> (\<exists>t. res = Some t \<and> t \<in> set (answers y)) \<Longrightarrow>
    sw_step st release dirty_list y
      (y\<lparr>sys_worker := w', to_threads := to_threads y @ dispatched out,
         answers := (case res of Some t \<Rightarrow> remove1 t (answers y) | None \<Rightarrow> answers y),
         received := received y @ (case req of Some t \<Rightarrow> [t] | None \<Rightarrow> []),
         started := started y @ dispatched out, returned := returned y @ results out\<rparr>)"
| thread: "to_threads y = us @ t # vs \<Longrightarrow> thread_answer st release dirty_list t (sys_store y) = (s', t') \<Longrightarrow>
    sw_step st release dirty_list y (y\<lparr>to_threads := us @ vs, sys_store := s', answers := answers y @ [t']\<rparr>)"
| dies: "to_threads y = us @ t # vs \<Longrightarrow>
    sw_step st release dirty_list y (y\<lparr>to_threads := us @ vs, lost := lost y @ [t]\<rparr>)"

text \<open>What a request asks for and who asked.\<close>

definition request_key :: "tile_protocol \<Rightarrow> int \<times> int \<times> int \<times> int \<times> string \<times> protoFmt" where
  "request_key t = (tp_x t, tp_y t, tp_z t, tp_id t, style t, format t)"

lemma thread_answer_key:
  "thread_answer st release dirty_list t s = (s', t') \<Longrightarrow> request_key t' = request_key t"
  by (auto simp: thread_answer_def handle_tile_def request_key_def Let_def
      split: if_splits prod.splits sum.splits option.splits)

definition sw_inv :: "int \<Rightarrow> 's sw_system \<Rightarrow> bool" where
  "sw_inv n y \<longleftrightarrow>
     counters_ok n (length (to_threads y) + length (answers y) + length (lost y)) (sys_worker y) \<and>
     started y @ queued_requests (sys_worker y) = received y \<and>
     image_mset request_key (mset (started y)) =
       image_mset request_key (mset (returned y) + mset (answers y) + mset (to_threads y) + mset (lost y))"

lemma sw_inv_start: "1 \<le> n \<Longrightarrow> n < 2 ^ 64 \<Longrightarrow> sw_inv n (sw_start n now s)"
  by (simp add: sw_inv_def sw_start_def mk_storage_worker_def counters_ok_def)

lemma sw_inv_step:
  assumes "sw_step st release dirty_list y y'" "sw_inv n y"
  shows "sw_inv n y'"
  using assms
proof cases
  case (pass req res now joins out w')
  let ?f = "length (to_threads y) + length (answers y) + length (lost y)"
  have f: "res \<noteq> None \<Longrightarrow> 0 < ?f" using pass(3) by (auto simp: length_pos_if_in_set)
  have c: "counters_ok n ?f (sys_worker y)" using assms(2) by (simp add: sw_inv_def)
  note it = sw_iteration_ok [OF c pass(2) f]
  have pos: "t \<in> set xs \<Longrightarrow> Suc (length xs - Suc 0) = length xs" for t and xs :: "tile_protocol list"
    by (cases xs) auto
  have l: "length (to_threads y) + length (dispatched out) +
      length (case res of Some t \<Rightarrow> remove1 t (answers y) | None \<Rightarrow> answers y) + length (lost y) =
      ?f + length (dispatched out) - length (results out)"
    using pass(3) it(2) by (cases "answers y") (auto simp: length_remove1 pos split: option.splits)
  have m: "mset (answers y) = mset (results out) + mset (case res of Some t \<Rightarrow> remove1 t (answers y) | None \<Rightarrow> answers y)"
    using pass(3) it(2) by (auto split: option.splits)
  show ?thesis
    using assms(2) it(1,3) l m pass(1) by (simp add: sw_inv_def ac_simps flip: append_assoc)
next
  case (thread us t vs s' t')
  then show ?thesis using assms(2) thread_answer_key [OF thread(3)] by (simp add: sw_inv_def)
next
  case (dies us t vs)
  then show ?thesis using assms(2) by (simp add: sw_inv_def)
qed

lemma sw_inv_reachable:
  assumes "(sw_step st release dirty_list)\<^sup>*\<^sup>* (sw_start n now s) y" "1 \<le> n" "n < 2 ^ 64"
  shows "sw_inv n y"
  using assms(1) by (induction rule: rtranclp_induct) (auto intro: sw_inv_start sw_inv_step assms)

text \<open>
  C6. The storage worker with its I/O threads, in every interleaving: requests are started in the order in which
  they arrive; every request is returned exactly once, is still inside, or went down with a thread; at most
  \<^verbatim>\<open>max_concur\<close> are with the threads; and as soon as the threads have nothing left, either everything was answered
  or some thread died with a request.
\<close>

theorem storage_worker_answers_all:
  assumes "(sw_step st release dirty_list)\<^sup>*\<^sup>* (sw_start n now s) y" "1 \<le> n" "n < 2 ^ 64"
  shows "started y @ queued_requests (sys_worker y) = received y \<and>
    image_mset request_key (mset (received y)) =
      image_mset request_key (mset (returned y) + mset (answers y) + mset (to_threads y) + mset (lost y) +
        mset (queued_requests (sys_worker y))) \<and>
    int (length (to_threads y) + length (answers y)) \<le> n \<and>
    (to_threads y = [] \<and> answers y = [] \<and> lost y = [] \<longrightarrow>
      image_mset request_key (mset (returned y)) = image_mset request_key (mset (received y)))"
proof -
  note inv = sw_inv_reachable [OF assms]
  have r: "received y = started y @ queued_requests (sys_worker y)" using inv by (simp add: sw_inv_def)
  moreover have "queued_requests (sys_worker y) = []" if "to_threads y = []" "answers y = []" "lost y = []"
    using inv that by (auto simp: sw_inv_def counters_ok_def)
  ultimately show ?thesis using inv by (auto simp: sw_inv_def counters_ok_def)
qed

text \<open>A request that waits for the only thread: it is started when the first one returns.\<close>

theorem storage_worker_answers_all_witness:
  "\<exists>y. (sw_step null_storage id Map.empty)\<^sup>*\<^sup>* (sw_start 1 0 ()) y \<and> received y = [default_tile, default_tile\<lparr>tp_id := 1\<rparr>] \<and>
     image_mset request_key (mset (returned y)) = image_mset request_key (mset (received y))"
proof -
  let ?t = "default_tile" and ?u = "default_tile\<lparr>tp_id := 1\<rparr>" and ?R = "sw_step (null_storage :: unit tile_storage) id Map.empty"
  let ?nd = "\<lambda>t. t\<lparr>status := cmdNotDone\<rparr>"
  let ?w = "\<lambda>c q. \<lparr>max_concurrency = 1, cur_concurrency = c, queued_requests = q, next_check_time = 5000000\<rparr>"
  let ?y = "\<lambda>c q to an rc sd rt. \<lparr>sys_worker = ?w c q, to_threads = to, answers = an, sys_store = (), received = rc, started = sd, returned = rt, lost = []\<rparr>"
  note defs = sw_iteration_def sw_request_def sw_result_def size_inc_def size_dec_def
  have ans: "thread_answer null_storage id Map.empty t () = ((), ?nd t)" if "status t = cmdRenderPrio" for t
    using that by (simp add: thread_answer_def handle_tile_def null_storage_def null_handle_def)
  have s0: "sw_start 1 0 () = ?y 0 [] [] [] [] [] []"
    by (simp add: sw_start_def mk_storage_worker_def CHECK_THREAD_DEATH_INTERVAL_def)
  have 1: "?R (?y 0 [] [] [] [] [] []) (?y 1 [] [?t] [] [?t] [?t] [])"
    using sw_step.pass [of "Some ?t" None 0 "[]" "?y 0 [] [] [] [] [] []" "[To_Thread ?t]" "?w 1 []" null_storage id Map.empty] by (simp add: defs)
  have 2: "?R (?y 1 [] [?t] [] [?t] [?t] []) (?y 1 [?u] [?t] [] [?t, ?u] [?t] [])"
    using sw_step.pass [of "Some ?u" None 0 "[]" "?y 1 [] [?t] [] [?t] [?t] []" "[]" "?w 1 [?u]" null_storage id Map.empty] by (simp add: defs)
  have 3: "?R (?y 1 [?u] [?t] [] [?t, ?u] [?t] []) (?y 1 [?u] [] [?nd ?t] [?t, ?u] [?t] [])"
    using sw_step.thread [of "?y 1 [?u] [?t] [] [?t, ?u] [?t] []" "[]" ?t "[]" null_storage id Map.empty "()" "?nd ?t"] ans [of ?t]
    by (simp add: default_tile_def)
  have 4: "?R (?y 1 [?u] [] [?nd ?t] [?t, ?u] [?t] []) (?y 1 [] [?u] [] [?t, ?u] [?t, ?u] [?nd ?t])"
    using sw_step.pass [of None "Some (?nd ?t)" 0 "[]" "?y 1 [?u] [] [?nd ?t] [?t, ?u] [?t] []" "[Result (?nd ?t), To_Thread ?u]" "?w 1 []" null_storage id Map.empty]
    by (simp add: defs)
  have 5: "?R (?y 1 [] [?u] [] [?t, ?u] [?t, ?u] [?nd ?t]) (?y 1 [] [] [?nd ?u] [?t, ?u] [?t, ?u] [?nd ?t])"
    using sw_step.thread [of "?y 1 [] [?u] [] [?t, ?u] [?t, ?u] [?nd ?t]" "[]" ?u "[]" null_storage id Map.empty "()" "?nd ?u"] ans [of ?u]
    by (simp add: default_tile_def)
  have 6: "?R (?y 1 [] [] [?nd ?u] [?t, ?u] [?t, ?u] [?nd ?t]) (?y 0 [] [] [] [?t, ?u] [?t, ?u] [?nd ?t, ?nd ?u])"
    using sw_step.pass [of None "Some (?nd ?u)" 0 "[]" "?y 1 [] [] [?nd ?u] [?t, ?u] [?t, ?u] [?nd ?t]" "[Result (?nd ?u)]" "?w 0 []" null_storage id Map.empty]
    by (simp add: defs)
  have "?R\<^sup>*\<^sup>* (sw_start 1 0 ()) (?y 0 [] [] [] [?t, ?u] [?t, ?u] [?nd ?t, ?nd ?u])"
    unfolding s0 using 1 2 3 4 5 6 by (meson converse_rtranclp_into_rtranclp rtranclp.rtrancl_refl)
  then show ?thesis using storage_worker_answers_all by fastforce
qed

end
