(* ===== verification/Tile_Path.thy ===== *)
theory Tile_Path
  imports Tile_Types Decimal
begin

text \<open>
  The paths of tile requests: the grammar of \<^verbatim>\<open>tile_path_grammar.hpp\<close> and \<^verbatim>\<open>tile_path_parser.cpp\<close>. A parser
  of Boost.Spirit is a function from the input to the attribute and the rest of the input, or \<open>None\<close> if it does
  not match; alternatives are tried in order and repetitions take as much as they can.
\<close>

subsection \<open>Literals, letters and tables\<close>

definition qi_lit :: "string \<Rightarrow> string \<Rightarrow> string option" where
  "qi_lit p s = (if take (length p) s = p then Some (drop (length p) s) else None)"

definition is_alpha :: "char \<Rightarrow> bool" where
  "is_alpha c \<longleftrightarrow> 65 \<le> (of_char c :: nat) \<and> (of_char c :: nat) \<le> 90 \<or> 97 \<le> (of_char c :: nat) \<and> (of_char c :: nat) \<le> 122"

definition is_alnum :: "char \<Rightarrow> bool" where
  "is_alnum c \<longleftrightarrow> is_alpha c \<or> is_digit c"

text \<open>A symbol table in which no name is a prefix of another.\<close>

fun qi_symbols :: "(string \<times> 'a) list \<Rightarrow> string \<Rightarrow> ('a \<times> string) option" where
  "qi_symbols [] s = None"
| "qi_symbols ((n, v) # tab) s =
     (case qi_lit n s of Some r \<Rightarrow> Some (v, r) | None \<Rightarrow> qi_symbols tab s)"

definition formats_table :: "(string \<times> protoFmt) list" where
  "formats_table = [(''png'', fmtPNG), (''jpg'', fmtJPEG), (''jpeg'', fmtJPEG), (''gif'', fmtGIF), (''json'', fmtJSON)]"

definition commands_rule :: "string \<Rightarrow> (protoCmd \<times> string) option" where
  "commands_rule s =
     (if s = [] then Some (cmdRender, [])
      else case qi_lit ''/dirty'' s of
        Some r \<Rightarrow> Some (cmdDirty, r)
      | None \<Rightarrow> (case qi_lit ''/status'' s of Some r \<Rightarrow> Some (cmdStatus, r) | None \<Rightarrow> None))"

subsection \<open>The style\<close>

text \<open>\<^verbatim>\<open>alpha >> *alnum\<close>, then the same again after every slash. What follows is returned.\<close>

definition style_segment :: "string \<Rightarrow> string option" where
  "style_segment s = (case s of c # r \<Rightarrow> if is_alpha c then Some (dropWhile is_alnum r) else None | [] \<Rightarrow> None)"

lemma style_segment_shorter: "style_segment s = Some r \<Longrightarrow> length r < length s"
  by (auto simp: style_segment_def le_imp_less_Suc length_dropWhile_le split: list.splits if_splits)

function style_more :: "string \<Rightarrow> string" where
  "style_more s =
     (case s of
        c # r \<Rightarrow> if c = CHR ''/'' then (case style_segment r of Some r' \<Rightarrow> style_more r' | None \<Rightarrow> s) else s
      | [] \<Rightarrow> [])"
  by auto
termination
  by (relation "measure length") (auto dest: style_segment_shorter)

declare style_more.simps [simp del]

definition style_list :: "string \<Rightarrow> (string \<times> string) option" where
  "style_list s =
     (case style_segment s of
        None \<Rightarrow> None
      | Some r \<Rightarrow> (let r' = style_more r in Some (take (length s - length r') s, r')))"

subsection \<open>Paths\<close>

definition then_parse :: "'a option \<Rightarrow> ('a \<Rightarrow> 'b option) \<Rightarrow> 'b option" where
  "then_parse = Option.bind"

definition tile_path_grammar :: "string \<Rightarrow> tile_protocol \<Rightarrow> tile_protocol option" where
  "tile_path_grammar s tile =
     then_parse (qi_lit ''/'' s) (\<lambda>s. then_parse (style_list s) (\<lambda>(sty, s).
     then_parse (qi_lit ''/'' s) (\<lambda>s. then_parse (qi_int s) (\<lambda>(z, s).
     then_parse (qi_lit ''/'' s) (\<lambda>s. then_parse (qi_int s) (\<lambda>(x, s).
     then_parse (qi_lit ''/'' s) (\<lambda>s. then_parse (qi_int s) (\<lambda>(y, s).
     then_parse (qi_lit ''.'' s) (\<lambda>s. then_parse (qi_symbols formats_table s) (\<lambda>(f, s).
     then_parse (commands_rule s) (\<lambda>(cmd, s).
       Some (tile\<lparr>style := style tile @ sty, tp_z := z, tp_x := x, tp_y := y, format := f, status := cmd\<rparr>))))))))))))"

text \<open>\<^verbatim>\<open>find_nth\<close>: the input from its \<open>n\<close>-th slash on, counting from zero, or its empty end.\<close>

fun from_slash :: "nat \<Rightarrow> string \<Rightarrow> string" where
  "from_slash n [] = []"
| "from_slash n (c # s) =
     (if c = CHR ''/'' then (case n of 0 \<Rightarrow> c # s | Suc m \<Rightarrow> from_slash m s) else from_slash n s)"

text \<open>The parse succeeds when a prefix of the input matches.\<close>

definition tile_path_parser :: "tile_protocol \<Rightarrow> string \<Rightarrow> tile_protocol option" where
  "tile_path_parser tile path = tile_path_grammar (from_slash 2 path) tile"

subsection \<open>Parsing what was printed\<close>

lemma then_parse_simps [simp]: "then_parse None f = None" "then_parse (Some a) f = f a"
  by (simp_all add: then_parse_def)

lemma then_parse_Some: "then_parse m f = Some b \<longleftrightarrow> (\<exists>a. m = Some a \<and> f a = Some b)"
  by (cases m) auto

lemma qi_lit_append [simp]: "qi_lit p (p @ s) = Some s"
  by (simp add: qi_lit_def)

lemma qi_lit_Cons [simp]: "qi_lit [c] (d # s) = (if c = d then Some s else None)" "qi_lit [c] [] = None"
  by (auto simp: qi_lit_def)

definition segment_ok :: "string \<Rightarrow> bool" where
  "segment_ok s \<longleftrightarrow> (case s of c # r \<Rightarrow> is_alpha c \<and> (\<forall>d \<in> set r. is_alnum d) | [] \<Rightarrow> False)"

text \<open>The segments of a style, each behind a slash.\<close>

definition slashed :: "string list \<Rightarrow> string" where
  "slashed segs = concat (map (Cons (CHR ''/'')) segs)"

lemma slashed_simps [simp]: "slashed [] = []" "slashed (s # ss) = CHR ''/'' # s @ slashed ss"
  by (simp_all add: slashed_def)

definition stops :: "string \<Rightarrow> bool" where
  "stops s \<longleftrightarrow> (case s of [] \<Rightarrow> True | c # _ \<Rightarrow> \<not> is_alnum c)"

lemma style_segment_append: "segment_ok g \<Longrightarrow> stops s \<Longrightarrow> style_segment (g @ s) = Some s"
  by (cases g; cases s) (auto simp: segment_ok_def style_segment_def stops_def dropWhile_append)

lemma not_alnum_slash [simp]: "\<not> is_alnum (CHR ''/'')"
  by (simp add: is_alnum_def is_alpha_def is_digit_def)

lemma stops_slash [simp]: "stops (CHR ''/'' # s)"
  by (simp add: stops_def)

lemma stops_slashed [simp]: "stops (slashed gs @ CHR ''/'' # s)"
  by (cases gs) (simp_all)

definition no_alpha :: "string \<Rightarrow> bool" where
  "no_alpha s \<longleftrightarrow> (case s of [] \<Rightarrow> True | c # _ \<Rightarrow> \<not> is_alpha c)"

lemma style_more_slashed:
  assumes "\<forall>g \<in> set gs. segment_ok g" "no_alpha s"
  shows "style_more (slashed gs @ CHR ''/'' # s) = CHR ''/'' # s"
  using assms(1)
proof (induction gs)
  case Nil
  have "style_segment s = None" using assms(2) by (auto simp: style_segment_def no_alpha_def split: list.splits)
  then show ?case by (subst style_more.simps) simp
next
  case (Cons g gs)
  then show ?case by (subst style_more.simps) (simp add: style_segment_append)
qed

lemma style_list_slashed:
  assumes "\<forall>h \<in> set (g # gs). segment_ok h" "no_alpha s"
  shows "style_list (g @ slashed gs @ CHR ''/'' # s) = Some (g @ slashed gs, CHR ''/'' # s)"
  using style_segment_append [of g "slashed gs @ CHR ''/'' # s"] style_more_slashed [of gs s] assms
  by (simp add: style_list_def)

lemma no_alpha_dec: "no_alpha (dec_int n @ s)"
proof -
  have "\<not> is_alpha c" if "is_digit c" for c using that by (auto simp: is_digit_def is_alpha_def)
  then show ?thesis
    using is_digit_dec_nat [of "nat n"] dec_nat_Nil [of "nat n"]
    by (cases "dec_nat (nat n)") (auto simp: no_alpha_def dec_int_def is_alpha_def)
qed

lemma from_slash_skip: "CHR ''/'' \<notin> set a \<Longrightarrow> from_slash n (a @ s) = from_slash n s"
  by (induction a) auto

text \<open>The path of a tile below two leading segments.\<close>

definition request_path :: "string \<Rightarrow> string \<Rightarrow> string list \<Rightarrow> int \<Rightarrow> int \<Rightarrow> int \<Rightarrow> string \<Rightarrow> string \<Rightarrow> string" where
  "request_path a b segs z x y ext cmd =
     ''/'' @ a @ ''/'' @ b @ slashed segs @ ''/'' @ dec_int z @ ''/'' @ dec_int x @ ''/'' @ dec_int y @ ''.'' @ ext @ cmd"

lemma formats_prefix_free:
  "(ext, f) \<in> set formats_table \<Longrightarrow> qi_symbols formats_table (ext @ s) = Some (f, s)"
  by (auto simp: formats_table_def fmt_defs qi_lit_def)

lemma no_digit_path [simp]: "\<not> is_digit (CHR ''/'')" "\<not> is_digit (CHR ''.'')"
  by (simp_all add: is_digit_def)

text \<open>The path of a tile.\<close>

definition tile_path_text :: "string list \<Rightarrow> int \<Rightarrow> int \<Rightarrow> int \<Rightarrow> string \<Rightarrow> string \<Rightarrow> string" where
  "tile_path_text segs z x y ext cmd =
     slashed segs @ ''/'' @ dec_int z @ ''/'' @ dec_int x @ ''/'' @ dec_int y @ ''.'' @ ext @ cmd"

lemma grammar_parsed:
  assumes "segs \<noteq> []" "\<forall>g \<in> set segs. segment_ok g"
    and "int32 x" "int32 y" "int32 z" "(ext, f) \<in> set formats_table"
    and "commands_rule cmd = Some (c, junk)"
  shows "tile_path_grammar (tile_path_text segs z x y ext cmd) default_tile =
    Some (default_tile\<lparr>style := tl (slashed segs), tp_z := z, tp_x := x, tp_y := y, format := f, status := c\<rparr>)"
proof -
  obtain g gs where segs: "segs = g # gs" using assms(1) by (cases segs) auto
  let ?d = "\<lambda>n s. CHR ''/'' # dec_int n @ s" and ?e = "CHR ''.'' # ext @ cmd"
  have "style_list (g @ slashed gs @ ?d z (?d x (?d y ?e))) = Some (g @ slashed gs, ?d z (?d x (?d y ?e)))"
    by (rule style_list_slashed) (use assms(2) segs no_alpha_dec in auto)
  then show ?thesis
    using assms(3-7) by (simp add: tile_path_grammar_def tile_path_text_def qi_int_dec formats_prefix_free segs default_tile_def)
qed

lemma path_parsed:
  assumes "CHR ''/'' \<notin> set a" "CHR ''/'' \<notin> set b" "segs \<noteq> []" "\<forall>g \<in> set segs. segment_ok g"
    and "int32 x" "int32 y" "int32 z" "(ext, f) \<in> set formats_table"
    and "commands_rule cmd = Some (c, junk)"
  shows "tile_path_parser default_tile (request_path a b segs z x y ext cmd) =
    Some (default_tile\<lparr>style := tl (slashed segs), tp_z := z, tp_x := x, tp_y := y, format := f, status := c\<rparr>)"
proof -
  have "from_slash 2 (request_path a b segs z x y ext cmd) = tile_path_text segs z x y ext cmd"
    using assms(3) by (cases segs) (simp_all add: request_path_def tile_path_text_def from_slash_skip assms(1,2) numeral_2_eq_2)
  then show ?thesis using grammar_parsed [OF assms(3-9)] by (simp add: tile_path_parser_def)
qed

text \<open>
  C8. Every tile has a path that parses to it: with any two leading segments, a style of alphanumeric segments that
  begin with a letter, coordinates that are C++ integers, one of the five extensions, and nothing, \<^verbatim>\<open>/dirty\<close> or
  \<^verbatim>\<open>/status\<close> as command, the parser returns exactly the style, the coordinates, the format and the command. The
  commands may have anything behind them.
\<close>

theorem tile_path_roundtrip:
  assumes "CHR ''/'' \<notin> set a" "CHR ''/'' \<notin> set b" "segs \<noteq> []" "\<forall>g \<in> set segs. segment_ok g"
    and "int32 x" "int32 y" "int32 z" "(ext, f) \<in> set formats_table"
    and "(cmd, c) \<in> {('''', cmdRender), (''/dirty'' @ junk, cmdDirty), (''/status'' @ junk, cmdStatus)}"
  shows "tile_path_parser default_tile (request_path a b segs z x y ext cmd) =
    Some (default_tile\<lparr>style := tl (slashed segs), tp_z := z, tp_x := x, tp_y := y, format := f, status := c\<rparr>)"
proof -
  obtain j where "commands_rule cmd = Some (c, j)"
    using assms(9) by (auto simp: commands_rule_def qi_lit_def)
  from path_parsed [OF assms(1-8) this] show ?thesis .
qed

theorem tile_path_roundtrip_witness:
  "tile_path_parser default_tile (request_path ''tiles'' ''1.0.0'' [''vx'', ''osm''] 13 2353 3085 ''png'' ''/dirty'') =
     Some (default_tile\<lparr>style := ''vx/osm'', tp_z := 13, tp_x := 2353, tp_y := 3085, format := fmtPNG, status := cmdDirty\<rparr>)"
  using tile_path_roundtrip [of "''tiles''" "''1.0.0''" "[''vx'', ''osm'']" 2353 3085 13 "''png''" fmtPNG "''/dirty''" cmdDirty "''''"]
  by (simp add: segment_ok_def is_alnum_def is_alpha_def int32_def formats_table_def)

end
