(* ===== verification/Style_Rules.thy ===== *)
theory Style_Rules
  imports Tile_Types Decimal
begin

text \<open>
  Which tiles a handler serves: the rules of \<^verbatim>\<open>style_rules\<close> in \<^verbatim>\<open>tile_handler.cpp\<close>, that rewrite styles and check zoom,
  coordinates and formats, and how they and the list of dependent styles (\<^verbatim>\<open>dirty_list_from_conf\<close> in
  \<^verbatim>\<open>tile_handler_main.cpp\<close>) are read from the configuration.

  A section of an INI file is the list of its entries in order. A \<^verbatim>\<open>std::map\<close> is an association list with
  different keys; \<^verbatim>\<open>insert\<close> keeps what is there.
\<close>

subsection \<open>Reading the configuration\<close>

type_synonym ini_section = "(string \<times> string) list"
type_synonym ini_file = "string \<rightharpoonup> ini_section"

text \<open>\<^verbatim>\<open>get<string>\<close> takes the key as a path, so that a key with a dot is not found.\<close>

definition section_get :: "ini_section \<Rightarrow> string \<Rightarrow> cpp_error + string" where
  "section_get sect k =
     (if CHR ''.'' \<in> set k then Inl (Runtime_Error ''No such node'')
      else case map_of sect k of Some v \<Rightarrow> Inr v | None \<Rightarrow> Inl (Runtime_Error ''No such node''))"

definition map_insert :: "'k \<Rightarrow> 'v \<Rightarrow> ('k \<times> 'v) list \<Rightarrow> ('k \<times> 'v) list" where
  "map_insert k v m = (if map_of m k = None then m @ [(k, v)] else m)"

text \<open>The loop over a section, with the conversion of a value.\<close>

fun load_entries :: "(string \<Rightarrow> string \<Rightarrow> cpp_error + 'v) \<Rightarrow> ini_section \<Rightarrow> string list \<Rightarrow> (string \<times> 'v) list \<Rightarrow>
    cpp_error + (string \<times> 'v) list" where
  "load_entries conv sect [] m = Inr m"
| "load_entries conv sect (k # ks) m =
     (case section_get sect k of
        Inl e \<Rightarrow> Inl e
      | Inr s \<Rightarrow> (case conv k s of Inl e \<Rightarrow> Inl e | Inr v \<Rightarrow> load_entries conv sect ks (map_insert k v m)))"

definition load_section :: "(string \<Rightarrow> string \<Rightarrow> cpp_error + 'v) \<Rightarrow> ini_section option \<Rightarrow> cpp_error + (string \<times> 'v) list" where
  "load_section conv sect = (case sect of None \<Rightarrow> Inr [] | Some s \<Rightarrow> load_entries conv s (map fst s) [])"

subsection \<open>Lists of names\<close>

text \<open>\<^verbatim>\<open>boost::split\<close> at commas and spaces with \<^verbatim>\<open>token_compress_on\<close>.\<close>

definition is_sep :: "char \<Rightarrow> bool" where
  "is_sep c \<longleftrightarrow> c = CHR '','' \<or> c = CHR '' ''"

function split_compress :: "string \<Rightarrow> string list" where
  "split_compress s =
     (let tok = takeWhile (\<lambda>c. \<not> is_sep c) s; rest = dropWhile (\<lambda>c. \<not> is_sep c) s
      in if rest = [] then [tok] else tok # split_compress (dropWhile is_sep rest))"
  by auto
termination
proof (relation "measure length")
  fix s :: string and tok rest
  assume r: "rest = dropWhile (\<lambda>c. \<not> is_sep c) s" "rest \<noteq> []"
  then have "is_sep (hd rest)" using hd_dropWhile [of "\<lambda>c. \<not> is_sep c" s] by auto
  then have "length (dropWhile is_sep rest) < length rest"
    using r(2) by (cases rest) (auto simp: le_imp_less_Suc length_dropWhile_le)
  then show "(dropWhile is_sep rest, s) \<in> measure length"
    using r(1) length_dropWhile_le [of "\<lambda>c. \<not> is_sep c" s] by simp
qed simp

declare split_compress.simps [simp del]

definition lower :: "char \<Rightarrow> char" where
  "lower c = (let n = (of_char c :: nat) in if 65 \<le> n \<and> n \<le> 90 then char_of (n + 32) else c)"

fun parse_formats_loop :: "string list \<Rightarrow> protoFmt \<Rightarrow> cpp_error + protoFmt" where
  "parse_formats_loop [] fmts = Inr fmts"
| "parse_formats_loop (t # ts) fmts =
     (let fmt_name = map lower t in
      if fmt_name = ''png'' then parse_formats_loop ts (fmts OR fmtPNG)
      else if fmt_name = ''jpg'' \<or> fmt_name = ''jpeg'' then parse_formats_loop ts (fmts OR fmtJPEG)
      else if fmt_name = ''gif'' then parse_formats_loop ts (fmts OR fmtGIF)
      else if fmt_name = ''json'' then parse_formats_loop ts (fmts OR fmtJSON)
      else Inl (Runtime_Error (''Unrecognised style format '' @ [CHR 0x27] @ fmt_name @ [CHR 0x27] @ ''.'')))"

definition parse_formats :: "string \<Rightarrow> cpp_error + protoFmt" where
  "parse_formats str = parse_formats_loop (split_compress str) fmtNone"

subsection \<open>The rules\<close>

definition DEFAULT_MAX_ZOOM :: int where "DEFAULT_MAX_ZOOM = 18"

record style_rules =
  m_rewrites :: "(string \<times> string) list"
  m_formats :: "(string \<times> protoFmt) list"
  m_forced_formats :: "(string \<times> protoFmt) list"
  m_zoom_limits :: "(string \<times> int) list"

definition forced_format :: "string \<Rightarrow> string \<Rightarrow> cpp_error + protoFmt" where
  "forced_format sty fmt_str =
     (let fmt = get_format_for fmt_str
      in if fmt = fmtNone
         then Inl (Runtime_Error (''In [forced_formats] for style `'' @ sty @ [CHR 0x27] @ '', the string `'' @ fmt_str @
           [CHR 0x27] @ '' is not recognised as a format.''))
         else Inr fmt)"

text \<open>\<^verbatim>\<open>get<int>\<close> reads a number with nothing behind it.\<close>

definition zoom_limit :: "string \<Rightarrow> string \<Rightarrow> cpp_error + int" where
  "zoom_limit sty s =
     (case qi_int s of Some (n, []) \<Rightarrow> Inr n | _ \<Rightarrow> Inl (Runtime_Error ''conversion of data to type failed''))"

definition mk_style_rules :: "ini_file \<Rightarrow> cpp_error + style_rules" where
  "mk_style_rules conf =
     (case load_section (\<lambda>k v. Inr v) (conf ''rewrite'') of
        Inl e \<Rightarrow> Inl e
      | Inr rw \<Rightarrow>
     (case load_section (\<lambda>k. parse_formats) (conf ''formats'') of
        Inl e \<Rightarrow> Inl e
      | Inr fm \<Rightarrow>
     (case load_section forced_format (conf ''forced_formats'') of
        Inl e \<Rightarrow> Inl e
      | Inr ff \<Rightarrow>
     (case load_section zoom_limit (conf ''zoom_limits'') of
        Inl e \<Rightarrow> Inl e
      | Inr zl \<Rightarrow> Inr \<lparr>m_rewrites = rw, m_formats = fm, m_forced_formats = ff, m_zoom_limits = zl\<rparr>))))"

definition dirty_list_from_conf :: "ini_file \<Rightarrow> cpp_error + (string \<times> string list) list" where
  "dirty_list_from_conf conf = load_section (\<lambda>k dep_list. Inr (split_compress dep_list)) (conf ''dirty'')"

subsection \<open>Checking a tile\<close>

text \<open>The shift of an \<^verbatim>\<open>int\<close> is only defined below 31 bits.\<close>

definition check_xyz :: "tile_protocol \<Rightarrow> int \<Rightarrow> cpp_error + bool" where
  "check_xyz tile max_zoom =
     (let bad_coords = (tp_z tile < 0 \<or> tp_z tile > max_zoom)
      in if bad_coords then Inr False
         else if tp_z tile \<ge> 31 then Inl Undefined_Behaviour
         else (let max_xy = push_bit (nat (tp_z tile)) 1 - 1;
                   bad = (tp_x tile < 0 \<or> tp_x tile > max_xy \<or> tp_y tile < 0 \<or> tp_y tile > max_xy)
               in Inr (\<not> bad)))"

definition rewrite_and_check :: "style_rules \<Rightarrow> tile_protocol \<Rightarrow> cpp_error + (bool \<times> tile_protocol)" where
  "rewrite_and_check r tile =
     (let t1 = (case map_of (m_rewrites r) (style tile) of Some s \<Rightarrow> tile\<lparr>style := s\<rparr> | None \<Rightarrow> tile);
          t2 = (case map_of (m_forced_formats r) (style t1) of Some f \<Rightarrow> t1\<lparr>format := f\<rparr> | None \<Rightarrow> t1);
          max_zoom = (case map_of (m_zoom_limits r) (style t2) of Some z \<Rightarrow> z | None \<Rightarrow> DEFAULT_MAX_ZOOM)
      in case check_xyz t2 max_zoom of
           Inl e \<Rightarrow> Inl e
         | Inr False \<Rightarrow> Inr (False, t2)
         | Inr True \<Rightarrow>
           (case map_of (m_formats r) (style t2) of
              None \<Rightarrow> Inr (m_formats r = [], t2)
            | Some fmts \<Rightarrow> Inr (fmts AND format t2 > 0, t2)))"

subsection \<open>Properties\<close>

lemma map_of_map_insert: "map_of (map_insert k v m) = (if map_of m k = None then (map_of m)(k \<mapsto> v) else map_of m)"
  by (auto simp: map_insert_def map_add_def split: option.splits)

lemma load_entries_lookup:
  assumes "load_entries conv sect ks m = Inr m'"
  shows "map_of m' k = (case map_of m k of
      Some v \<Rightarrow> Some v
    | None \<Rightarrow> if k \<in> set ks then (case section_get sect k of Inr s \<Rightarrow> (case conv k s of Inr v \<Rightarrow> Some v | _ \<Rightarrow> None) | _ \<Rightarrow> None) else None)"
  using assms
proof (induction ks arbitrary: m)
  case (Cons j ks)
  then obtain s v where "section_get sect j = Inr s" "conv j s = Inr v" "load_entries conv sect ks (map_insert j v m) = Inr m'"
    by (auto split: sum.splits)
  then show ?case using Cons.IH by (auto simp: map_of_map_insert split: option.splits)
qed (auto split: option.splits)

lemma check_xyz_True:
  "check_xyz tile max_zoom = Inr True \<longleftrightarrow>
     0 \<le> tp_z tile \<and> tp_z tile \<le> max_zoom \<and> tp_z tile < 31 \<and>
     0 \<le> tp_x tile \<and> tp_x tile < 2 ^ nat (tp_z tile) \<and> 0 \<le> tp_y tile \<and> tp_y tile < 2 ^ nat (tp_z tile)"
  by (auto simp: check_xyz_def Let_def push_bit_eq_mult)

lemma check_xyz_returns: "max_zoom < 31 \<Longrightarrow> \<exists>b. check_xyz tile max_zoom = Inr b"
  by (auto simp: check_xyz_def Let_def)

text \<open>
  What \<^verbatim>\<open>rewrite_and_check\<close> does to a tile, and that a tile it accepts is in the world of its zoom level, which is
  within the limit of the style, and in one of the formats listed for the style.
\<close>

definition rewritten :: "style_rules \<Rightarrow> tile_protocol \<Rightarrow> tile_protocol" where
  "rewritten r tile =
     (let sty = (case map_of (m_rewrites r) (style tile) of Some s \<Rightarrow> s | None \<Rightarrow> style tile)
      in tile\<lparr>style := sty, format := (case map_of (m_forced_formats r) sty of Some f \<Rightarrow> f | None \<Rightarrow> format tile)\<rparr>)"

definition zoom_for :: "style_rules \<Rightarrow> string \<Rightarrow> int" where
  "zoom_for r sty = (case map_of (m_zoom_limits r) sty of Some z \<Rightarrow> z | None \<Rightarrow> DEFAULT_MAX_ZOOM)"

lemma rewrite_and_check_unfold:
  "rewrite_and_check r tile =
     (let t = rewritten r tile in
      case check_xyz t (zoom_for r (style t)) of
        Inl e \<Rightarrow> Inl e
      | Inr False \<Rightarrow> Inr (False, t)
      | Inr True \<Rightarrow> Inr (case map_of (m_formats r) (style t) of None \<Rightarrow> m_formats r = [] | Some fs \<Rightarrow> fs AND format t > 0, t))"
proof -
  let ?t1 = "case map_of (m_rewrites r) (style tile) of Some s \<Rightarrow> tile\<lparr>style := s\<rparr> | None \<Rightarrow> tile"
  have e: "(case map_of (m_forced_formats r) (style ?t1) of Some f \<Rightarrow> ?t1\<lparr>format := f\<rparr> | None \<Rightarrow> ?t1) = rewritten r tile"
    by (cases tile) (auto simp: rewritten_def split: option.splits)
  show ?thesis
    unfolding rewrite_and_check_def zoom_for_def Let_def e by (simp split: option.split sum.split bool.split)
qed

lemma accepted_iff:
  "rewrite_and_check r tile = Inr (True, t) \<longleftrightarrow>
     t = rewritten r tile \<and> check_xyz t (zoom_for r (style t)) = Inr True \<and>
     (case map_of (m_formats r) (style t) of None \<Rightarrow> m_formats r = [] | Some fs \<Rightarrow> fs AND format t > 0)"
  by (auto simp: rewrite_and_check_unfold Let_def split: option.splits sum.splits bool.splits)

lemma rewrite_and_check_returns:
  assumes "\<forall>(sty, z) \<in> set (m_zoom_limits r). z < 31"
  shows "\<exists>ok. rewrite_and_check r tile = Inr (ok, rewritten r tile)"
proof -
  have "zoom_for r sty < 31" for sty
    using assms by (auto simp: zoom_for_def DEFAULT_MAX_ZOOM_def dest!: map_of_SomeD split: option.splits)
  then show ?thesis
    using check_xyz_returns [of "zoom_for r (style (rewritten r tile))" "rewritten r tile"]
    by (auto simp: rewrite_and_check_unfold Let_def split: bool.split)
qed

text \<open>
  A tile passes the rules exactly if, with its style rewritten and its format replaced by the forced one of that
  style, the zoom level is within the limit of the style, the coordinates are those of a tile of that level
  and, where formats are listed at all, they list the style with that format. Rules without a zoom limit above
  30 never run into an undefined shift.
\<close>

theorem style_rules_accept:
  "(rewrite_and_check r tile = Inr (True, t) \<longleftrightarrow>
      t = rewritten r tile \<and>
      0 \<le> tp_z t \<and> tp_z t \<le> zoom_for r (style t) \<and> tp_z t < 31 \<and>
      0 \<le> tp_x t \<and> tp_x t < 2 ^ nat (tp_z t) \<and> 0 \<le> tp_y t \<and> tp_y t < 2 ^ nat (tp_z t) \<and>
      (m_formats r = [] \<or> (\<exists>fs. map_of (m_formats r) (style t) = Some fs \<and> fs AND format t > 0))) \<and>
   ((\<forall>(sty, z) \<in> set (m_zoom_limits r). z < 31) \<longrightarrow> (\<exists>ok. rewrite_and_check r tile = Inr (ok, rewritten r tile)))"
  using rewrite_and_check_returns [of r tile] unfolding accepted_iff check_xyz_True by (auto split: option.splits)

definition ex_rules :: style_rules where
  "ex_rules = \<lparr>m_rewrites = [(''osm'', ''map'')], m_formats = [(''map'', 3)], m_forced_formats = [(''map'', fmtJPEG)],
     m_zoom_limits = [(''map'', 5)]\<rparr>"

theorem style_rules_accept_witness:
  "rewrite_and_check ex_rules (default_tile\<lparr>style := ''osm'', tp_z := 2, tp_x := 3, tp_y := 1\<rparr>) =
     Inr (True, default_tile\<lparr>style := ''map'', tp_z := 2, tp_x := 3, tp_y := 1, format := fmtJPEG\<rparr>)"
  using style_rules_accept [of ex_rules "default_tile\<lparr>style := ''osm'', tp_z := 2, tp_x := 3, tp_y := 1\<rparr>"
      "default_tile\<lparr>style := ''map'', tp_z := 2, tp_x := 3, tp_y := 1, format := fmtJPEG\<rparr>"]
  by (simp add: ex_rules_def rewritten_def zoom_for_def default_tile_def fmt_defs)

end
