(* ===== verification/Http_Reply.thy ===== *)
theory Http_Reply
  imports Decimal
begin

text \<open>
  The replies to Mongrel2 (\<^verbatim>\<open>http/http_reply.cpp\<close>). Each function returns the one message it sends: the sender's
  identifier and the client's number as a netstring, then the HTTP response. The date formatter is a parameter.
\<close>

definition crlf :: string where "crlf = [CHR 0x0D, CHR 0x0A]"
definition newline :: string where "newline = [CHR 0x0A]"

definition SERVER :: string where "SERVER = ''Mapnik2/0.8.0''"
definition SUPPORT_ADDRESS :: string where "SUPPORT_ADDRESS = ''http://developer.mapquest.com/web/info/contact''"

text \<open>The parts that all of them write.\<close>

definition envelope :: "string \<Rightarrow> string \<Rightarrow> string" where
  "envelope uuid cid = uuid @ '' '' @ dec_nat (length cid) @ '':'' @ cid @ '', ''"

definition status_line :: "int \<Rightarrow> string \<Rightarrow> string" where
  "status_line code reason = ''HTTP/1.1'' @ '' '' @ dec_int code @ '' '' @ reason @ crlf"

definition text_plain :: "string \<Rightarrow> string" where
  "text_plain output = ''Content-Type: text/plain'' @ crlf @ ''Content-Length: '' @ dec_nat (length output) @ crlf"

definition server_end :: string where
  "server_end = ''Server: '' @ SERVER @ crlf @ crlf"

definition send_reply :: "string \<Rightarrow> string \<Rightarrow> int \<Rightarrow> string \<Rightarrow> string" where
  "send_reply uuid cid code output = envelope uuid cid @ status_line code ''OK'' @ text_plain output @ server_end @ output"

definition send_404 :: "string \<Rightarrow> string \<Rightarrow> string" where
  "send_404 uuid cid =
     (let output = ''Sorry - we haven't been able to serve the content you asked for'' @ newline
      in envelope uuid cid @ status_line 404 ''Not Found'' @ text_plain output @ server_end @ output)"

definition send_304 :: "(int \<Rightarrow> string) \<Rightarrow> string \<Rightarrow> string \<Rightarrow> int \<Rightarrow> string \<Rightarrow> string" where
  "send_304 formatter uuid cid date mime_type =
     envelope uuid cid @ status_line 304 ''Not Modified'' @ ''Content-Type: '' @ mime_type @ crlf @
     ''Date: '' @ formatter date @ crlf @ server_end"

text \<open>\<^verbatim>\<open>max_age\<close> is passed as an unsigned 32-bit number.\<close>

definition send_tile :: "(int \<Rightarrow> string) \<Rightarrow> string \<Rightarrow> string \<Rightarrow> 32 word \<Rightarrow> int \<Rightarrow> int \<Rightarrow> string \<Rightarrow> string \<Rightarrow> string" where
  "send_tile frmt uuid cid max_age last_modified expire_time data mime_type =
     envelope uuid cid @ status_line 200 ''OK'' @ ''Content-Type: '' @ mime_type @ crlf @
     ''Content-Length: '' @ dec_nat (length data) @ crlf @
     ''Cache-Control: max-age='' @ dec_nat (unat max_age) @ crlf @
     ''Edge-Control: downstream-ttl='' @ dec_nat (unat max_age) @ crlf @
     ''Last-Modified: '' @ frmt last_modified @ crlf @
     ''Expires: '' @ frmt expire_time @ crlf @
     ''Server: '' @ SERVER @ crlf @
     ''Access-Control-Allow-Origin: *'' @ crlf @ crlf @ data"

definition send_tile_no_cache :: "string \<Rightarrow> string \<Rightarrow> string \<Rightarrow> string \<Rightarrow> string" where
  "send_tile_no_cache uuid cid data mime_type =
     envelope uuid cid @ status_line 200 ''OK'' @ ''Content-Type: '' @ mime_type @ crlf @
     ''Content-Length: '' @ dec_nat (length data) @ crlf @
     ''Pragma: no-cache'' @ crlf @ ''Cache-Control: no-cache'' @ crlf @
     ''Server: '' @ SERVER @ crlf @
     ''Access-Control-Allow-Origin: *'' @ crlf @ crlf @ data"

definition send_500 :: "string \<Rightarrow> string \<Rightarrow> string" where
  "send_500 uuid cid =
     (let output = ''An unexpected error has occurred. This is a bug, please report it at '' @ SUPPORT_ADDRESS @ newline
      in envelope uuid cid @ status_line 500 ''Server Error'' @ text_plain output @ server_end @ output)"

definition send_503 :: "string \<Rightarrow> string \<Rightarrow> string" where
  "send_503 uuid cid =
     (let output = ''The service is overloaded and cannot presently complete your request. Please try again later.'' @ newline
      in envelope uuid cid @ status_line 503 ''Service Overloaded'' @ text_plain output @ server_end @ output)"

definition send_202 :: "string \<Rightarrow> string \<Rightarrow> string" where
  "send_202 uuid cid =
     (let output = ''The tile you requested is not available at the moment. Please try again later.'' @ newline
      in envelope uuid cid @ status_line 202 ''Accepted'' @ text_plain output @
         ''Cache-Control: no-cache'' @ crlf @ ''Pragma: no-cache'' @ crlf @ server_end @ output)"

subsection \<open>How a server reads them\<close>

text \<open>
  Mongrel2 splits the message at the first space, reads the netstring and sends what follows its comma and space to the
  client.
\<close>

definition read_envelope :: "string \<Rightarrow> (string \<times> string \<times> string) option" where
  "read_envelope msg =
     (let uuid = takeWhile (\<lambda>c. c \<noteq> CHR '' '') msg;
          r = drop (length uuid + 1) msg;
          ds = takeWhile is_digit r;
          n = undec ds;
          body = drop (length ds + 1) r
      in if ds \<noteq> [] \<and> take 1 (drop (length ds) r) = '':'' \<and> take 2 (drop n body) = '', ''
         then Some (uuid, take n body, drop (n + 2) body) else None)"

text \<open>A client reads the lines up to the first empty one, then the body.\<close>

fun read_line :: "string \<Rightarrow> (string \<times> string) option" where
  "read_line (c # d # s) =
     (if c = CHR 0x0D \<and> d = CHR 0x0A then Some ([], s)
      else map_option (\<lambda>(l, r). (c # l, r)) (read_line (d # s)))"
| "read_line _ = None"

lemma read_line_shorter: "read_line s = Some (l, r) \<Longrightarrow> length r < length s"
  by (induction s arbitrary: l rule: read_line.induct) (fastforce split: if_splits)+

function read_lines :: "string \<Rightarrow> (string list \<times> string) option" where
  "read_lines s =
     (case read_line s of
        None \<Rightarrow> None
      | Some ([], r) \<Rightarrow> Some ([], r)
      | Some (l, r) \<Rightarrow> map_option (\<lambda>(ls, b). (l # ls, b)) (read_lines r))"
  by auto
termination
  by (relation "measure length") (auto dest: read_line_shorter)

declare read_lines.simps [simp del]

text \<open>A line: not empty and with no line end in it.\<close>

definition plain_line :: "string \<Rightarrow> bool" where
  "plain_line l \<longleftrightarrow> l \<noteq> [] \<and> CHR 0x0D \<notin> set l"

lemma read_line_plain: "CHR 0x0D \<notin> set l \<Longrightarrow> read_line (l @ crlf @ s) = Some (l, s)"
proof (induction l)
  case (Cons c l)
  then show ?case by (cases l) (auto simp: crlf_def)
qed (simp add: crlf_def)

lemma read_lines_plain:
  assumes "\<forall>l \<in> set ls. plain_line l"
  shows "read_lines (concat (map (\<lambda>l. l @ crlf) ls) @ crlf @ body) = Some (ls, body)"
  using assms
proof (induction ls)
  case Nil
  then show ?case by (subst read_lines.simps) (use read_line_plain [of "[]"] in simp)
next
  case (Cons l ls)
  then show ?case
    by (subst read_lines.simps) (auto simp: plain_line_def read_line_plain neq_Nil_conv)
qed

lemma read_envelope_ok:
  assumes "CHR '' '' \<notin> set uuid"
  shows "read_envelope (envelope uuid cid @ resp) = Some (uuid, cid, resp)"
proof -
  let ?r = "dec_nat (length cid) @ CHR '':'' # cid @ '', '' @ resp"
  have u: "takeWhile (\<lambda>c. c \<noteq> CHR '' '') (uuid @ CHR '' '' # ?r) = uuid"
    using assms by (induction uuid) auto
  have d: "takeWhile is_digit ?r = dec_nat (length cid)"
    using take_dec_nat [of "CHR '':'' # cid @ '', '' @ resp" "length cid"] by (simp add: is_digit_def)
  have e: "envelope uuid cid @ resp = uuid @ CHR '' '' # ?r" by (simp add: envelope_def)
  have r: "drop (length uuid + 1) (uuid @ CHR '' '' # ?r) = ?r" by simp
  show ?thesis unfolding e read_envelope_def Let_def u r d undec_dec_nat by simp
qed

text \<open>The HTTP response of a reply, as lines and body.\<close>

definition response_ok :: "string \<Rightarrow> string \<Rightarrow> int \<Rightarrow> string \<Rightarrow> string \<Rightarrow> string \<Rightarrow> bool" where
  "response_ok uuid cid code mime body msg \<longleftrightarrow>
     (\<exists>resp ls. read_envelope msg = Some (uuid, cid, resp) \<and> read_lines resp = Some (ls, body) \<and>
        (\<exists>reason. hd ls = ''HTTP/1.1 '' @ dec_int code @ '' '' @ reason) \<and>
        ''Content-Type: '' @ mime \<in> set ls \<and>
        (\<forall>n. ''Content-Length: '' @ n \<in> set ls \<longrightarrow> n = dec_nat (length body)) \<and>
        (body \<noteq> [] \<longrightarrow> ''Content-Length: '' @ dec_nat (length body) \<in> set ls))"

lemma lines_response:
  assumes "CHR '' '' \<notin> set uuid" "\<forall>l \<in> set (first # ls). plain_line l"
    and "first = ''HTTP/1.1 '' @ dec_int code @ '' '' @ reason" "''Content-Type: '' @ mime \<in> set ls"
    and "\<forall>n. ''Content-Length: '' @ n \<in> set ls \<longrightarrow> n = dec_nat (length body)"
    and "body \<noteq> [] \<longrightarrow> ''Content-Length: '' @ dec_nat (length body) \<in> set ls"
  shows "response_ok uuid cid code mime body (envelope uuid cid @ concat (map (\<lambda>l. l @ crlf) (first # ls)) @ crlf @ body)"
  unfolding response_ok_def read_envelope_ok [OF assms(1)]
  using read_lines_plain [OF assms(2), of body] assms(3-) by auto

lemma dec_nat_plain [simp]: "CHR 0x0D \<notin> set (dec_nat n)"
  using is_digit_dec_nat [of n] by (auto simp: is_digit_def)

lemma dec_int_no_cr [simp]: "CHR 0x0D \<notin> set (dec_int n)"
  by (simp add: dec_int_def)

lemma text_reply_ok:
  assumes "CHR '' '' \<notin> set uuid" "CHR 0x0D \<notin> set reason" "\<forall>l \<in> set extra. plain_line l \<and> take 9 l \<noteq> ''Content-L''"
  shows "response_ok uuid cid code ''text/plain'' output
    (envelope uuid cid @ status_line code reason @ text_plain output @ concat (map (\<lambda>l. l @ crlf) extra) @ server_end @ output)"
proof -
  let ?ls = "[''Content-Type: text/plain'', ''Content-Length: '' @ dec_nat (length output)] @ extra @ [''Server: '' @ SERVER]"
  have "response_ok uuid cid code ''text/plain'' output (envelope uuid cid @
      concat (map (\<lambda>l. l @ crlf) ((''HTTP/1.1 '' @ dec_int code @ '' '' @ reason) # ?ls)) @ crlf @ output)"
    by (rule lines_response) (use assms in \<open>auto simp: plain_line_def SERVER_def\<close>)
  then show ?thesis by (simp add: status_line_def text_plain_def server_end_def)
qed

lemma send_tile_ok:
  assumes "CHR '' '' \<notin> set uuid" "CHR 0x0D \<notin> set mime" "\<And>t. CHR 0x0D \<notin> set (frmt t)"
  shows "response_ok uuid cid 200 mime data (send_tile frmt uuid cid max_age lm ex data mime)"
proof -
  let ?ls = "[''Content-Type: '' @ mime, ''Content-Length: '' @ dec_nat (length data),
    ''Cache-Control: max-age='' @ dec_nat (unat max_age), ''Edge-Control: downstream-ttl='' @ dec_nat (unat max_age),
    ''Last-Modified: '' @ frmt lm, ''Expires: '' @ frmt ex, ''Server: '' @ SERVER, ''Access-Control-Allow-Origin: *'']"
  have "response_ok uuid cid 200 mime data (envelope uuid cid @
      concat (map (\<lambda>l. l @ crlf) ((''HTTP/1.1 '' @ dec_int 200 @ '' '' @ ''OK'') # ?ls)) @ crlf @ data)"
    by (rule lines_response) (use assms in \<open>auto simp: plain_line_def SERVER_def\<close>)
  then show ?thesis by (simp add: status_line_def send_tile_def)
qed

lemma send_304_ok:
  assumes "CHR '' '' \<notin> set uuid" "CHR 0x0D \<notin> set mime" "\<And>t. CHR 0x0D \<notin> set (frmt t)"
  shows "response_ok uuid cid 304 mime [] (send_304 frmt uuid cid date mime)"
proof -
  let ?ls = "[''Content-Type: '' @ mime, ''Date: '' @ frmt date, ''Server: '' @ SERVER]"
  have "response_ok uuid cid 304 mime [] (envelope uuid cid @
      concat (map (\<lambda>l. l @ crlf) ((''HTTP/1.1 '' @ dec_int 304 @ '' '' @ ''Not Modified'') # ?ls)) @ crlf @ [])"
    by (rule lines_response) (use assms in \<open>auto simp: plain_line_def SERVER_def\<close>)
  then show ?thesis by (simp add: status_line_def server_end_def send_304_def)
qed

lemma plain_replies_ok:
  assumes "CHR '' '' \<notin> set uuid"
  shows "response_ok uuid cid code ''text/plain'' output (send_reply uuid cid code output)"
    and "\<exists>b. response_ok uuid cid 404 ''text/plain'' b (send_404 uuid cid)"
    and "\<exists>b. response_ok uuid cid 500 ''text/plain'' b (send_500 uuid cid)"
    and "\<exists>b. response_ok uuid cid 503 ''text/plain'' b (send_503 uuid cid)"
    and "\<exists>b. response_ok uuid cid 202 ''text/plain'' b (send_202 uuid cid)"
proof -
  have plain: "response_ok uuid cid s ''text/plain'' out (envelope uuid cid @ status_line s reason @ text_plain out @ server_end @ out)"
    if "CHR 0x0D \<notin> set reason" for s reason out
    using text_reply_ok [OF assms that, of "[]" cid s out] by simp
  show "\<exists>b. response_ok uuid cid 202 ''text/plain'' b (send_202 uuid cid)"
    using text_reply_ok [OF assms, of "''Accepted''" "[''Cache-Control: no-cache'', ''Pragma: no-cache'']" cid 202]
    by (auto simp: send_202_def Let_def plain_line_def)
  show "response_ok uuid cid code ''text/plain'' output (send_reply uuid cid code output)"
    unfolding send_reply_def by (rule plain) simp
  show "\<exists>b. response_ok uuid cid 404 ''text/plain'' b (send_404 uuid cid)"
    unfolding send_404_def Let_def by (rule exI, rule plain) simp
  show "\<exists>b. response_ok uuid cid 500 ''text/plain'' b (send_500 uuid cid)"
    unfolding send_500_def Let_def by (rule exI, rule plain) simp
  show "\<exists>b. response_ok uuid cid 503 ''text/plain'' b (send_503 uuid cid)"
    unfolding send_503_def Let_def by (rule exI, rule plain) simp
qed

text \<open>
  C27. Every reply is framed correctly: whatever the client's number, the body and the data hold, Mongrel2 finds the
  recipient, and the client finds the status, the type and exactly the body, whose length the header
  announces. This needs a sender without spaces, and a type and dates without line ends.
\<close>

theorem replies_framed:
  assumes "CHR '' '' \<notin> set uuid" "CHR 0x0D \<notin> set mime" "\<And>t. CHR 0x0D \<notin> set (frmt t)"
  shows "response_ok uuid cid 200 mime data (send_tile frmt uuid cid max_age lm ex data mime) \<and>
    response_ok uuid cid code ''text/plain'' output (send_reply uuid cid code output) \<and>
    response_ok uuid cid 304 mime [] (send_304 frmt uuid cid date mime) \<and>
    (\<exists>b. response_ok uuid cid 404 ''text/plain'' b (send_404 uuid cid)) \<and>
    (\<exists>b. response_ok uuid cid 500 ''text/plain'' b (send_500 uuid cid)) \<and>
    (\<exists>b. response_ok uuid cid 503 ''text/plain'' b (send_503 uuid cid)) \<and>
    (\<exists>b. response_ok uuid cid 202 ''text/plain'' b (send_202 uuid cid))"
  by (intro conjI send_tile_ok send_304_ok plain_replies_ok assms)

theorem replies_framed_witness:
  "response_ok ''m2'' ''17'' 200 ''image/png'' ''data'' (send_tile (\<lambda>t. ''now'') ''m2'' ''17'' 60 5 65 ''data'' ''image/png'')"
  using replies_framed [of "''m2''" "''image/png''" "\<lambda>t. ''now''" "''17''" "''data''" 60 5 65 200 "''''" 0] by simp

end
