(* ===== verification/Http_Date.thy ===== *)
theory Http_Date
  imports Prelude Decimal
begin

text \<open>
  HTTP dates: the grammar of the three forms a date may have (\<^verbatim>\<open>http/http_date_grammar.hpp\<close>), the
  conversion of a date to seconds since the epoch (\<^verbatim>\<open>http/http_date_parser.cpp\<close>) and the printing of a time
  (\<^verbatim>\<open>http/http_date_formatter.hpp\<close>). \<^verbatim>\<open>timegm\<close> of the C library and the calendar of Boost are modelled as far as
  they are used; Boost knows the years up to 9999.
\<close>

subsection \<open>The calendar\<close>

definition leap_year :: "int \<Rightarrow> bool" where
  "leap_year y \<longleftrightarrow> y mod 4 = 0 \<and> (y mod 100 \<noteq> 0 \<or> y mod 400 = 0)"

definition month_lengths :: "int \<Rightarrow> int list" where
  "month_lengths y = [31, if leap_year y then 29 else 28, 31, 30, 31, 30, 31, 31, 30, 31, 30, 31]"

text \<open>The days from the epoch to the first of January.\<close>

definition year_start :: "int \<Rightarrow> int" where
  "year_start y = 365 * (y - 1970) + ((y - 1) div 4 - (y - 1) div 100 + (y - 1) div 400) - 477"

lemma div_pred:
  fixes y k :: int
  assumes "1 < k"
  shows "y div k = (y - 1) div k + (if y mod k = 0 then 1 else 0)"
proof (cases "y mod k = 0")
  case True
  then obtain q where "y = k * q" by auto
  moreover have "(k * q - 1) div k = q - 1"
    using assms by (intro int_div_pos_eq [of _ _ _ "k - 1"]) (auto simp: algebra_simps)
  ultimately show ?thesis using assms True by simp
next
  case False
  have "(y - 1) div k = y div k"
  proof (rule int_div_pos_eq [of _ _ _ "y mod k - 1"])
    show "y - 1 = k * (y div k) + (y mod k - 1)" by simp
    show "0 \<le> y mod k - 1" using False assms pos_mod_sign [of k y] by linarith
    show "y mod k - 1 < k" using assms pos_mod_bound [of k y] by linarith
  qed
  then show ?thesis using False by simp
qed

lemma leap_count:
  fixes y :: int
  assumes "a' = a + (if p then 1 else 0)" "b' = b + (if q then 1 else 0)" "c' = c + (if r then 1 else 0)" "r \<Longrightarrow> q" "q \<Longrightarrow> p"
  shows "365 * (y + 1 - 1970) + (a' - b' + c') - 477 = 365 * (y - 1970) + (a - b + c) - 477 + (if p \<and> (\<not> q \<or> r) then 366 else 365)"
  using assms by auto

lemma year_start_next: "year_start (y + 1) = year_start y + (if leap_year y then 366 else 365)"
proof -
  have h: "y mod 400 = 0 \<Longrightarrow> y mod 100 = 0" unfolding mod_eq_0_iff_dvd by (rule dvd_trans [of 100 400]) simp_all
  have q: "y mod 100 = 0 \<Longrightarrow> y mod 4 = 0" unfolding mod_eq_0_iff_dvd by (rule dvd_trans [of 4 100]) simp_all
  have d: "y div 4 = (y - 1) div 4 + (if y mod 4 = 0 then 1 else 0)" "y div 100 = (y - 1) div 100 + (if y mod 100 = 0 then 1 else 0)"
      "y div 400 = (y - 1) div 400 + (if y mod 400 = 0 then 1 else 0)"
    by (rule div_pred, simp)+
  show ?thesis using leap_count [OF d h q, of y] unfolding year_start_def leap_year_def add_diff_cancel_right' .
qed

lemma year_start_mono: "year_start y < year_start (y + 1)"
  by (simp add: year_start_next)

lemma sum_month_lengths: "sum_list (month_lengths y) = year_start (y + 1) - year_start y"
  by (simp add: month_lengths_def year_start_next)

text \<open>The year of a day, searched from a year that is not after it, and the month of a day of a year.\<close>

function find_year :: "int \<Rightarrow> int \<Rightarrow> int" where
  "find_year d y = (if year_start (y + 1) \<le> d then find_year d (y + 1) else y)"
  by pat_completeness auto
termination
  by (relation "measure (\<lambda>(d, y). nat (d - year_start y))") (use year_start_mono less_le_trans in \<open>auto\<close>)

declare find_year.simps [simp del]

definition year_of :: "int \<Rightarrow> int" where
  "year_of d = find_year d (1970 + (if 0 \<le> d then d div 366 else d div 365))"

fun find_month :: "int list \<Rightarrow> int \<Rightarrow> nat \<times> int" where
  "find_month [] d = (0, d)"
| "find_month (l # ls) d = (if d < l then (0, d) else map_prod Suc id (find_month ls (d - l)))"

record tm =
  tm_sec :: int
  tm_min :: int
  tm_hour :: int
  tm_mday :: int
  tm_mon :: int
  tm_year :: int
  tm_wday :: int

definition gmtime :: "int \<Rightarrow> tm" where
  "gmtime t =
     (let d = t div 86400; r = t mod 86400; y = year_of d; (m, k) = find_month (month_lengths y) (d - year_start y)
      in \<lparr>tm_sec = r mod 60, tm_min = r div 60 mod 60, tm_hour = r div 3600, tm_mday = k + 1, tm_mon = int m,
          tm_year = y - 1900, tm_wday = (d + 4) mod 7\<rparr>)"

text \<open>\<^verbatim>\<open>timegm\<close> takes days, hours, minutes and seconds beyond their ranges as well; it does not look at the day of the week.\<close>

definition timegm :: "tm \<Rightarrow> int" where
  "timegm t =
     (let y = tm_year t + 1900
      in 86400 * (year_start y + sum_list (take (nat (tm_mon t)) (month_lengths y)) + tm_mday t - 1) +
         3600 * tm_hour t + 60 * tm_min t + tm_sec t)"

lemma find_year_spec:
  assumes "year_start y \<le> d"
  shows "year_start (find_year d y) \<le> d \<and> d < year_start (find_year d y + 1)"
  using assms
proof (induction d y rule: find_year.induct)
  case (1 d y)
  then show ?case by (subst (1 2) find_year.simps) auto
qed

lemma year_start_bounds:
  shows "year_start (1970 + int n) \<le> 366 * int n" and "year_start (1970 - int n) \<le> - 365 * int n"
proof -
  show "year_start (1970 + int n) \<le> 366 * int n"
  proof (induction n)
    case (Suc n)
    then show ?case using year_start_next [of "1970 + int n"] by (simp add: algebra_simps split: if_splits)
  qed (simp add: year_start_def)
  show "year_start (1970 - int n) \<le> - 365 * int n"
  proof (induction n)
    case (Suc n)
    then show ?case using year_start_next [of "1970 - int (Suc n)"] by (simp add: algebra_simps split: if_splits)
  qed (simp add: year_start_def)
qed

lemma year_of_spec: "year_start (year_of d) \<le> d \<and> d < year_start (year_of d + 1)"
  unfolding year_of_def
proof (rule find_year_spec, cases "0 \<le> d")
  case True
  then have "year_start (1970 + d div 366) \<le> 366 * (d div 366)"
    using year_start_bounds(1) [of "nat (d div 366)"] pos_imp_zdiv_nonneg_iff [of 366 d] by simp
  also have "\<dots> \<le> d" using mult_div_mod_eq [of 366 d] pos_mod_sign [of 366 d] by linarith
  finally show "year_start (1970 + (if 0 \<le> d then d div 366 else d div 365)) \<le> d" using True by simp
next
  case False
  then have "d div 365 < 0" by (simp add: neg_imp_zdiv_neg_iff)
  then have "year_start (1970 + d div 365) \<le> 365 * (d div 365)"
    using year_start_bounds(2) [of "nat (- (d div 365))"] by simp
  also have "\<dots> \<le> d" using mult_div_mod_eq [of 365 d] pos_mod_sign [of 365 d] by linarith
  finally show "year_start (1970 + (if 0 \<le> d then d div 366 else d div 365)) \<le> d" using False by simp
qed

lemma find_month_spec:
  assumes "0 \<le> d" "d < sum_list ls" "find_month ls d = (m, r)"
  shows "sum_list (take m ls) + r = d \<and> m < length ls \<and> 0 \<le> r \<and> r < ls ! m"
  using assms
proof (induction ls arbitrary: d m)
  case (Cons l ls)
  show ?case
  proof (cases "d < l")
    case False
    then obtain m' where m: "find_month ls (d - l) = (m', r)" "m = Suc m'"
      using Cons.prems(3) by (cases "find_month ls (d - l)") auto
    then show ?thesis using Cons.IH [OF _ _ m(1)] Cons.prems(2) False by auto
  qed (use Cons.prems in auto)
qed simp

text \<open>The fields of a broken-down time are in their ranges.\<close>

definition wf_tm :: "tm \<Rightarrow> bool" where
  "wf_tm t \<longleftrightarrow> 0 \<le> tm_sec t \<and> tm_sec t < 60 \<and> 0 \<le> tm_min t \<and> tm_min t < 60 \<and> 0 \<le> tm_hour t \<and> tm_hour t < 24 \<and>
     1 \<le> tm_mday t \<and> tm_mday t \<le> 31 \<and> 0 \<le> tm_mon t \<and> tm_mon t < 12 \<and> 0 \<le> tm_wday t \<and> tm_wday t < 7"

lemma gmtime_timegm: "timegm (gmtime t) = t \<and> wf_tm (gmtime t)"
proof -
  define d where "d = t div 86400"
  define y where "y = year_of d"
  define r where "r = t mod 86400"
  obtain m k where mk: "find_month (month_lengths y) (d - year_start y) = (m, k)" by (meson surj_pair)
  have "0 \<le> d - year_start y" "d - year_start y < sum_list (month_lengths y)"
    using year_of_spec [of d] by (auto simp: y_def sum_month_lengths)
  from find_month_spec [OF this mk] have m: "sum_list (take m (month_lengths y)) + k = d - year_start y"
      "m < 12" "0 \<le> k" "k < month_lengths y ! m" by (auto simp: month_lengths_def)
  have "\<forall>l \<in> set (month_lengths y). l \<le> 31" by (simp add: month_lengths_def)
  then have k: "k < 31" using m(2,4) nth_mem [of m "month_lengths y"] by (fastforce simp: month_lengths_def)
  have r: "0 \<le> r" "r < 86400" "t = 86400 * d + r" by (auto simp: r_def d_def)
  have split: "3600 * (r div 3600) + 60 * (r div 60 mod 60) + r mod 60 = r"
  proof -
    have "r div 3600 = r div 60 div 60" using zdiv_zmult2_eq [of 60 r 60] by simp
    then show ?thesis using mult_div_mod_eq [of 60 r] mult_div_mod_eq [of 60 "r div 60"] by linarith
  qed
  have g: "gmtime t = \<lparr>tm_sec = r mod 60, tm_min = r div 60 mod 60, tm_hour = r div 3600, tm_mday = k + 1, tm_mon = int m,
          tm_year = y - 1900, tm_wday = (d + 4) mod 7\<rparr>"
    unfolding gmtime_def Let_def d_def [symmetric] r_def [symmetric] y_def [symmetric] mk by simp
  have "r div 3600 < 24" "0 \<le> r div 3600" using r by auto
  then have "wf_tm (gmtime t)" unfolding g wf_tm_def using m k by simp
  moreover have "timegm (gmtime t) = t" unfolding g timegm_def Let_def using m(1) r(3) split by simp
  ultimately show ?thesis by blast
qed

subsection \<open>The grammar\<close>

text \<open>The symbol tables, and the parsers they are used with: each skips white space first and returns the rest of the input.\<close>

definition month_names :: "string list" where
  "month_names = [''Jan'', ''Feb'', ''Mar'', ''Apr'', ''May'', ''Jun'', ''Jul'', ''Aug'', ''Sep'', ''Oct'', ''Nov'', ''Dec'']"

definition wk_day_names :: "string list" where
  "wk_day_names = [''Sun'', ''Mon'', ''Tue'', ''Wed'', ''Thu'', ''Fri'', ''Sat'']"

definition week_day_names :: "string list" where
  "week_day_names = [''Sunday'', ''Monday'', ''Tuesday'', ''Wednesday'', ''Thursday'', ''Friday'', ''Saturday'']"

definition is_space :: "char \<Rightarrow> bool" where
  "is_space c \<longleftrightarrow> c \<in> {CHR 0x20, CHR 0x09, CHR 0x0A, CHR 0x0B, CHR 0x0C, CHR 0x0D}"

definition skip :: "string \<Rightarrow> string" where
  "skip s = dropWhile is_space s"

definition lit :: "string \<Rightarrow> string \<Rightarrow> string option" where
  "lit w s = (let r = skip s in if take (length w) r = w then Some (drop (length w) r) else None)"

fun symbol_from :: "int \<Rightarrow> string list \<Rightarrow> string \<Rightarrow> (int \<times> string) option" where
  "symbol_from n [] s = None"
| "symbol_from n (w # ws) s =
     (if take (length w) s = w then Some (n, drop (length w) s) else symbol_from (n + 1) ws s)"

definition symbol :: "string list \<Rightarrow> string \<Rightarrow> (int \<times> string) option" where
  "symbol ws s = symbol_from 0 ws (skip s)"

definition number :: "nat \<Rightarrow> nat \<Rightarrow> string \<Rightarrow> (int \<times> string) option" where
  "number lo hi s = qi_uint lo hi (skip s)"

text \<open>The time of day, which the three rules spell alike: hours, minutes and seconds.\<close>

definition time_of_day :: "tm \<Rightarrow> string \<Rightarrow> (tm \<times> string) option" where
  "time_of_day t s =
     Option.bind (number 2 2 s) (\<lambda>(h, s). Option.bind (lit '':'' s) (\<lambda>s.
     Option.bind (number 2 2 s) (\<lambda>(mi, s). Option.bind (lit '':'' s) (\<lambda>s.
     Option.bind (number 2 2 s) (\<lambda>(se, s). Some (t\<lparr>tm_hour := h, tm_min := mi, tm_sec := se\<rparr>, s))))))"

definition rfc1123_date :: "tm \<Rightarrow> string \<Rightarrow> (tm \<times> string) option" where
  "rfc1123_date t s =
     Option.bind (symbol wk_day_names s) (\<lambda>(wd, s). Option.bind (lit '','' s) (\<lambda>s.
     Option.bind (number 2 2 s) (\<lambda>(d, s). Option.bind (symbol month_names s) (\<lambda>(m, s).
     Option.bind (number 4 4 s) (\<lambda>(y, s).
     Option.bind (time_of_day (t\<lparr>tm_wday := wd, tm_mday := d, tm_mon := m, tm_year := y - 1900\<rparr>) s) (\<lambda>(t', s).
     Option.bind (lit ''GMT'' s) (\<lambda>s. Some (t', s))))))))"

definition rfc850_date :: "tm \<Rightarrow> string \<Rightarrow> (tm \<times> string) option" where
  "rfc850_date t s =
     Option.bind (symbol week_day_names s) (\<lambda>(wd, s). Option.bind (lit '','' s) (\<lambda>s.
     Option.bind (number 2 2 s) (\<lambda>(d, s). Option.bind (lit ''-'' s) (\<lambda>s.
     Option.bind (symbol month_names s) (\<lambda>(m, s). Option.bind (lit ''-'' s) (\<lambda>s.
     Option.bind (number 2 2 s) (\<lambda>(y, s).
     Option.bind (time_of_day (t\<lparr>tm_wday := wd, tm_mday := d, tm_mon := m, tm_year := if y < 70 then y + 100 else y\<rparr>) s) (\<lambda>(t', s).
     Option.bind (lit ''GMT'' s) (\<lambda>s. Some (t', s))))))))))"

definition asctime_date :: "tm \<Rightarrow> string \<Rightarrow> (tm \<times> string) option" where
  "asctime_date t s =
     Option.bind (symbol wk_day_names s) (\<lambda>(wd, s). Option.bind (symbol month_names s) (\<lambda>(m, s).
     Option.bind (number 1 2 s) (\<lambda>(d, s).
     Option.bind (time_of_day (t\<lparr>tm_wday := wd, tm_mon := m, tm_mday := d\<rparr>) s) (\<lambda>(t', s).
     Option.bind (number 4 4 s) (\<lambda>(y, s). Some (t'\<lparr>tm_year := y - 1900\<rparr>, s))))))"

text \<open>The alternatives are tried in this order, each from the start of the input; each sets all the fields.\<close>

definition http_date :: "tm \<Rightarrow> string \<Rightarrow> (tm \<times> string) option" where
  "http_date t s =
     (case rfc1123_date t s of
        Some r \<Rightarrow> Some r
      | None \<Rightarrow> (case rfc850_date t s of Some r \<Rightarrow> Some r | None \<Rightarrow> asctime_date t s))"

definition zero_tm :: tm where
  "zero_tm = \<lparr>tm_sec = 0, tm_min = 0, tm_hour = 0, tm_mday = 0, tm_mon = 0, tm_year = 0, tm_wday = 0\<rparr>"

text \<open>The text after the date does not matter to \<^verbatim>\<open>phrase_parse\<close>.\<close>

definition parse_http_date :: "string \<Rightarrow> int option" where
  "parse_http_date input = (case http_date zero_tm input of None \<Rightarrow> None | Some (t, _) \<Rightarrow> Some (timegm t))"

subsection \<open>Printing\<close>

definition zeros :: "nat \<Rightarrow> int \<Rightarrow> string" where
  "zeros w n = replicate (w - length (dec_nat (nat n))) CHR ''0'' @ dec_nat (nat n)"

text \<open>Boost refuses years outside of 1400 to 9999 with an exception; the definition covers the times in between.\<close>

definition http_date_formatter :: "int \<Rightarrow> string" where
  "http_date_formatter tt =
     (let t = gmtime tt
      in wk_day_names ! nat (tm_wday t) @ '', '' @ zeros 2 (tm_mday t) @ '' '' @ month_names ! nat (tm_mon t) @ '' '' @
         zeros 4 (tm_year t + 1900) @ '' '' @ zeros 2 (tm_hour t) @ '':'' @ zeros 2 (tm_min t) @ '':'' @ zeros 2 (tm_sec t) @ '' GMT'')"

subsection \<open>Facts\<close>

lemma length_dec_nat: "n < 10 ^ Suc k \<Longrightarrow> length (dec_nat n) \<le> Suc k"
proof (induction k arbitrary: n)
  case (Suc k)
  then have "n div 10 < 10 ^ Suc k" by auto
  then show ?case using Suc.IH [of "n div 10"] by (subst dec_nat.simps) simp
qed (subst dec_nat.simps, simp)

lemma zeros_spec:
  assumes "0 \<le> n" "n < 10 ^ Suc k"
  shows "length (zeros (Suc k) n) = Suc k" "\<forall>c \<in> set (zeros (Suc k) n). is_digit c" "int (undec (zeros (Suc k) n)) = n"
proof -
  have "nat n < 10 ^ Suc k" using assms by (metis nat_less_iff of_nat_numeral of_nat_power)
  then show "length (zeros (Suc k) n) = Suc k" using length_dec_nat [of "nat n" k] by (simp add: zeros_def)
  show "\<forall>c \<in> set (zeros (Suc k) n). is_digit c"
    using is_digit_dec_nat [of "nat n"] by (auto simp: zeros_def is_digit_def)
  have "undec (replicate m CHR ''0'' @ s) = undec s" for m s
    by (induction m) (simp_all add: undec_def)
  then show "int (undec (zeros (Suc k) n)) = n" using assms(1) by (simp add: zeros_def undec_dec_nat)
qed

lemma number_zeros:
  assumes "0 \<le> n" "n < 10 ^ Suc k" "skip sp = []"
  shows "number (Suc k) (Suc k) (sp @ zeros (Suc k) n @ s) = Some (n, s)"
proof -
  note z = zeros_spec [OF assms(1,2)]
  obtain c r where c: "zeros (Suc k) n = c # r" using z(1) by (cases "zeros (Suc k) n") auto
  have "skip (sp @ zeros (Suc k) n @ s) = skip (zeros (Suc k) n @ s)"
    using assms(3) by (simp add: skip_def dropWhile_append1 dropWhile_append2)
  also have "\<dots> = zeros (Suc k) n @ s" using z(2) c by (auto simp: skip_def is_space_def is_digit_def)
  finally have sk: "skip (sp @ zeros (Suc k) n @ s) = zeros (Suc k) n @ s" .
  have t: "take (Suc k) (takeWhile is_digit (zeros (Suc k) n @ s)) = zeros (Suc k) n"
    using z(1,2) by simp
  show ?thesis unfolding number_def qi_uint_def sk t Let_def using z by simp
qed

lemma symbol_wk_day: "n < 7 \<Longrightarrow> symbol wk_day_names (wk_day_names ! n @ s) = Some (int n, s)"
  by (auto simp: symbol_def skip_def is_space_def wk_day_names_def less_Suc_eq numeral_eq_Suc)

lemma symbol_month: "n < 12 \<Longrightarrow> symbol month_names (CHR '' '' # month_names ! n @ s) = Some (int n, s)"
  by (auto simp: symbol_def skip_def is_space_def month_names_def less_Suc_eq numeral_eq_Suc)

lemma lit_simps:
  "lit '','' (CHR '','' # s) = Some s" "lit '':'' (CHR '':'' # s) = Some s" "lit ''GMT'' ('' GMT'' @ s) = Some s"
  by (simp_all add: lit_def skip_def is_space_def)

lemma number_simps:
  "0 \<le> n \<Longrightarrow> n < 100 \<Longrightarrow> number 2 2 (zeros 2 n @ s) = Some (n, s)"
  "0 \<le> n \<Longrightarrow> n < 100 \<Longrightarrow> number 2 2 (CHR '' '' # zeros 2 n @ s) = Some (n, s)"
  "0 \<le> n \<Longrightarrow> n < 10000 \<Longrightarrow> number 4 4 (CHR '' '' # zeros 4 n @ s) = Some (n, s)"
  using number_zeros [of n 1 "[]" s] number_zeros [of n 1 "'' ''" s] number_zeros [of n 3 "'' ''" s]
  by (simp_all add: numeral_eq_Suc skip_def is_space_def)

lemma year_4_digits:
  assumes "0 \<le> tt" "tt < 253402300800"
  shows "1970 \<le> year_of (tt div 86400)" "year_of (tt div 86400) < 10000"
proof -
  let ?d = "tt div 86400" and ?y = "year_of (tt div 86400)"
  have d: "0 \<le> ?d" "?d < 2932897" using assms by auto
  have mono: "year_start a \<le> year_start b" if "a \<le> b" for a b :: int
    using that
  proof (induction b rule: int_ge_induct)
    case (step b)
    then show ?case using year_start_mono [of b] by linarith
  qed simp
  show "1970 \<le> ?y"
  proof (rule ccontr)
    assume "\<not> 1970 \<le> ?y"
    then have "year_start (?y + 1) \<le> year_start 1970" by (intro mono) simp
    then show False using year_of_spec [of ?d] d by (simp add: year_start_def)
  qed
  show "?y < 10000"
  proof (rule ccontr)
    assume "\<not> ?y < 10000"
    then have "year_start 10000 \<le> year_start ?y" by (intro mono) simp
    then show False using year_of_spec [of ?d] d by (simp add: year_start_def)
  qed
qed

lemma gmtime_year: "tm_year (gmtime tt) = year_of (tt div 86400) - 1900"
  by (simp add: gmtime_def Let_def split: prod.splits)

lemma http_date_printed:
  assumes "0 \<le> tt" "tt < 253402300800"
  shows "http_date zero_tm (http_date_formatter tt @ s) = Some (gmtime tt, s)"
proof -
  define t where "t = gmtime tt"
  have w: "wf_tm t" by (simp add: t_def gmtime_timegm)
  then have r: "nat (tm_wday t) < 7" "nat (tm_mon t) < 12" "0 \<le> tm_mday t" "tm_mday t < 100" "0 \<le> tm_hour t" "tm_hour t < 100"
      "0 \<le> tm_min t" "tm_min t < 100" "0 \<le> tm_sec t" "tm_sec t < 100" "0 \<le> tm_wday t" "0 \<le> tm_mon t"
    by (auto simp: wf_tm_def)
  have y: "0 \<le> tm_year t + 1900" "tm_year t + 1900 < 10000"
    using year_4_digits [OF assms] by (auto simp: t_def gmtime_year)
  have "rfc1123_date zero_tm (http_date_formatter tt @ s) = Some (t, s)"
    using r y symbol_wk_day [OF r(1)] symbol_month [OF r(2)]
    unfolding http_date_formatter_def t_def [symmetric] Let_def rfc1123_date_def time_of_day_def
    by (simp add: lit_simps [simplified] number_simps zero_tm_def)
  then show ?thesis by (simp add: http_date_def t_def)
qed

lemma http_date_plain: "CHR 0x0D \<notin> set (http_date_formatter tt)"
proof -
  have "CHR 0x0D \<notin> set (zeros w n)" for w n using is_digit_dec_nat [of "nat n"] by (auto simp: zeros_def is_digit_def)
  moreover have "\<forall>w \<in> set (wk_day_names @ month_names). CHR 0x0D \<notin> set w"
    by (simp add: wk_day_names_def month_names_def)
  moreover have "wk_day_names ! nat (tm_wday (gmtime tt)) \<in> set wk_day_names" "month_names ! nat (tm_mon (gmtime tt)) \<in> set month_names"
  proof -
    have "nat (tm_wday (gmtime tt)) < length wk_day_names" "nat (tm_mon (gmtime tt)) < length month_names"
      using gmtime_timegm [of tt] by (auto simp: wf_tm_def wk_day_names_def month_names_def nat_less_iff)
    then show "wk_day_names ! nat (tm_wday (gmtime tt)) \<in> set wk_day_names" "month_names ! nat (tm_mon (gmtime tt)) \<in> set month_names"
      by (simp_all only: nth_mem)
  qed
  ultimately show ?thesis by (auto simp: http_date_formatter_def Let_def)
qed

lemma parse_printed_date: "0 \<le> tt \<Longrightarrow> tt < 253402300800 \<Longrightarrow> parse_http_date (http_date_formatter tt @ s) = Some tt"
  using http_date_printed gmtime_timegm by (simp add: parse_http_date_def)

text \<open>
  C31. A printed date parses back to the time it was printed for, from the epoch to the end of the year 9999, also when
  more text follows it.
\<close>

theorem http_date_roundtrip:
  assumes "0 \<le> tt" "tt < 253402300800"
  shows "parse_http_date (http_date_formatter tt @ s) = Some tt"
  by (rule parse_printed_date [OF assms])

theorem http_date_roundtrip_witness:
  "parse_http_date (http_date_formatter 784111777) = Some 784111777"
  using http_date_roundtrip [of 784111777 "[]"] by simp

end
