(* ===== verification/Mongrel_Request.thy ===== *)
theory Mongrel_Request
  imports Http_Date
begin

text \<open>
  Requests from Mongrel2: the request object (\<^verbatim>\<open>mongrel_request.hpp\<close>, \<^verbatim>\<open>mongrel_request.cpp\<close>), the grammar of the headers
  (\<^verbatim>\<open>mongrel_request_grammar.hpp\<close>) and the parser of a whole message (\<^verbatim>\<open>mongrel_request_parser.cpp\<close>), whose regular
  expression is translated to the splits it makes.

  Two details of Boost.Spirit are parameters: whether a rule without a skipper skips white space before it
  starts (\<open>preskip\<close>), and the bytes that \<^verbatim>\<open>unicode::char_\<close> accepts (\<open>uok\<close>).
\<close>

subsection \<open>The request\<close>

record mongrel_request =
  mr_uuid :: string
  mr_id :: string
  mr_path :: string
  mr_headers :: "string \<rightharpoonup> string"

definition query_string :: "mongrel_request \<Rightarrow> string" where
  "query_string r = (case mr_headers r ''QUERY'' of Some q \<Rightarrow> q | None \<Rightarrow> '''')"

definition is_disconnect :: "mongrel_request \<Rightarrow> bool" where
  "is_disconnect r = False"

definition if_modified_since :: "mongrel_request \<Rightarrow> int \<Rightarrow> bool" where
  "if_modified_since r modified =
     (case mr_headers r ''if-modified-since'' of
        None \<Rightarrow> True
      | Some v \<Rightarrow> (case parse_http_date v of None \<Rightarrow> True | Some time \<Rightarrow> time > modified))"

subsection \<open>Headers\<close>

text \<open>The escapes of JSON, without the Unicode ones.\<close>

definition escapes :: "char \<Rightarrow> char option" where
  "escapes c =
     (if c = CHR 0x22 then Some (CHR 0x22) else if c = CHR 0x5C then Some (CHR 0x5C)
      else if c = CHR ''/'' then Some (CHR ''/'') else if c = CHR ''b'' then Some (CHR 0x08)
      else if c = CHR ''f'' then Some (CHR 0x0C) else if c = CHR ''n'' then Some (CHR 0x0A)
      else if c = CHR ''r'' then Some (CHR 0x0D) else if c = CHR ''t'' then Some (CHR 0x09) else None)"

text \<open>As many characters as there are, escaped or not; it stops before what is none.\<close>

fun uchars :: "(char \<Rightarrow> bool) \<Rightarrow> string \<Rightarrow> string \<times> string" where
  "uchars uok [] = ([], [])"
| "uchars uok (c # s) =
     (if c \<noteq> CHR 0x22 \<and> c \<noteq> CHR 0x5C then (if uok c then apfst (Cons c) (uchars uok s) else ([], c # s))
      else if c = CHR 0x5C then
        (case s of
           [] \<Rightarrow> ([], c # s)
         | e # r \<Rightarrow> (case escapes e of Some v \<Rightarrow> apfst (Cons v) (uchars uok r) | None \<Rightarrow> ([], c # s)))
      else ([], c # s))"

definition kv_str :: "bool \<Rightarrow> (char \<Rightarrow> bool) \<Rightarrow> string \<Rightarrow> (string \<times> string) option" where
  "kv_str preskip uok s =
     (case (if preskip then skip s else s) of
        [] \<Rightarrow> None
      | c # r \<Rightarrow>
        (if c \<noteq> CHR 0x22 then None
         else case uchars uok r of
           (v, []) \<Rightarrow> None
         | (v, d # rest) \<Rightarrow> if d = CHR 0x22 then Some (v, rest) else None))"

definition kv_pair :: "bool \<Rightarrow> (char \<Rightarrow> bool) \<Rightarrow> string \<Rightarrow> ((string \<times> string) \<times> string) option" where
  "kv_pair preskip uok s =
     Option.bind (kv_str preskip uok s) (\<lambda>(k, s). Option.bind (lit '':'' s) (\<lambda>s.
     Option.bind (kv_str preskip uok s) (\<lambda>(v, s). Some ((k, v), s))))"

lemma uchars_length: "length (snd (uchars uok s)) \<le> length s"
proof (induction s rule: length_induct)
  case (1 s)
  show ?case
  proof (cases s)
    case (Cons c r)
    have "length (snd (uchars uok r)) \<le> Suc (length r)" using 1 Cons by (simp add: le_SucI)
    moreover have "length (snd (uchars uok r')) \<le> Suc (Suc (length r'))" if "r = e # r'" for e r'
      using 1 Cons that by (simp add: le_SucI)
    ultimately show ?thesis by (simp add: Cons split: list.split option.split)
  qed simp
qed

lemma skip_length: "length (skip s) \<le> length s"
  by (simp add: skip_def length_dropWhile_le)

lemma kv_str_length: "kv_str preskip uok s = Some (v, r) \<Longrightarrow> length r < length s"
proof -
  assume a: "kv_str preskip uok s = Some (v, r)"
  define u where "u = (if preskip then skip s else s)"
  have u: "length u \<le> length s" using skip_length by (simp add: u_def)
  obtain t where t: "u = CHR 0x22 # t" "snd (uchars uok t) = CHR 0x22 # r"
    using a unfolding kv_str_def u_def [symmetric] by (auto split: list.splits if_splits prod.splits)
  then show ?thesis using u uchars_length [of uok t] by simp
qed

lemma lit_length: "lit w s = Some r \<Longrightarrow> length r \<le> length s"
  using skip_length [of s] by (auto simp: lit_def Let_def split: if_splits)

lemma kv_pair_length: "kv_pair preskip uok s = Some (p, r) \<Longrightarrow> length r < length s"
  by (auto simp: kv_pair_def Option.bind_eq_Some_conv dest!: kv_str_length lit_length)

text \<open>The list of pairs: after a comma that no pair follows, the comma is given back.\<close>

function kv_more :: "bool \<Rightarrow> (char \<Rightarrow> bool) \<Rightarrow> string \<Rightarrow> (string \<times> string) list \<times> string" where
  "kv_more preskip uok s =
     (case Option.bind (lit '','' s) (kv_pair preskip uok) of
        None \<Rightarrow> ([], s)
      | Some (p, r) \<Rightarrow> apfst (Cons p) (kv_more preskip uok r))"
  by pat_completeness auto
termination
  by (relation "measure (\<lambda>(preskip, uok, s). length s)")
    (auto simp: Option.bind_eq_Some_conv dest!: kv_pair_length lit_length)

declare kv_more.simps [simp del]

definition kv_query :: "bool \<Rightarrow> (char \<Rightarrow> bool) \<Rightarrow> string \<Rightarrow> ((string \<times> string) list \<times> string) option" where
  "kv_query preskip uok s =
     (case kv_pair preskip uok s of None \<Rightarrow> None | Some (p, r) \<Rightarrow> Some (apfst (Cons p) (kv_more preskip uok r)))"

text \<open>Pairs are inserted into the map one after the other; \<^verbatim>\<open>insert\<close> does not replace a key that is there.\<close>

definition kv_insert :: "(string \<rightharpoonup> string) \<Rightarrow> string \<times> string \<Rightarrow> string \<rightharpoonup> string" where
  "kv_insert m p = (if m (fst p) = None then m(fst p \<mapsto> snd p) else m)"

definition parse_headers :: "bool \<Rightarrow> (char \<Rightarrow> bool) \<Rightarrow> string \<Rightarrow> (string \<rightharpoonup> string) \<Rightarrow> bool \<times> (string \<rightharpoonup> string)" where
  "parse_headers preskip uok s m =
     (case kv_query preskip uok s of None \<Rightarrow> (False, m) | Some (ps, _) \<Rightarrow> (True, foldl kv_insert m ps))"

subsection \<open>The message\<close>

text \<open>The classes of the regular expression \<^verbatim>\<open>([\w-]+) (\d+) (.*) \d+:\{(.*)\},\d+:,\<close> in the classic locale.\<close>

definition is_word :: "char \<Rightarrow> bool" where
  "is_word c \<longleftrightarrow> is_digit c \<or> 65 \<le> (of_char c :: nat) \<and> (of_char c :: nat) \<le> 90 \<or> 97 \<le> (of_char c :: nat) \<and> (of_char c :: nat) \<le> 122 \<or>
     c = CHR ''_'' \<or> c = CHR ''-''"

text \<open>A run of characters of a class, followed by a blank, which no class holds.\<close>

definition class_blank :: "(char \<Rightarrow> bool) \<Rightarrow> string \<Rightarrow> (string \<times> string) option" where
  "class_blank cls s =
     (case dropWhile cls s of
        c # r \<Rightarrow> if takeWhile cls s \<noteq> [] \<and> c = CHR '' '' then Some (takeWhile cls s, r) else None
      | [] \<Rightarrow> None)"

text \<open>The end of the message, read backwards: what is in front of the closing \<^verbatim>\<open>},\<close> and the length of the empty body.\<close>

definition strip_tail :: "string \<Rightarrow> string option" where
  "strip_tail s =
     (case rev s of
        c1 # c2 # r \<Rightarrow>
          (if c1 = CHR '','' \<and> c2 = CHR '':'' \<and> takeWhile is_digit r \<noteq> [] then
             (case dropWhile is_digit r of
                c3 # c4 # q \<Rightarrow> if c3 = CHR '','' \<and> c4 = CHR 0x7D then Some (rev q) else None
              | _ \<Rightarrow> None)
           else None)
      | _ \<Rightarrow> None)"

text \<open>A blank, the length of the headers, a colon and the opening brace; the headers start behind them.\<close>

definition headers_at :: "string \<Rightarrow> string option" where
  "headers_at s =
     (case s of
        [] \<Rightarrow> None
      | c # r \<Rightarrow>
        (if c = CHR '' '' \<and> takeWhile is_digit r \<noteq> [] then
           (case dropWhile is_digit r of
              c1 # c2 # q \<Rightarrow> if c1 = CHR '':'' \<and> c2 = CHR 0x7B then Some q else None
            | _ \<Rightarrow> None)
         else None))"

text \<open>The path is greedy: it extends to the last place where the headers can start.\<close>

fun last_headers :: "string \<Rightarrow> (string \<times> string) option" where
  "last_headers [] = None"
| "last_headers (c # s) =
     (case last_headers s of
        Some (p, q) \<Rightarrow> Some (c # p, q)
      | None \<Rightarrow> (case headers_at (c # s) of Some q \<Rightarrow> Some ([], q) | None \<Rightarrow> None))"

definition regex_match :: "string \<Rightarrow> (string \<times> string \<times> string \<times> string) option" where
  "regex_match input =
     Option.bind (class_blank is_word input) (\<lambda>(uuid, s). Option.bind (class_blank is_digit s) (\<lambda>(num, s).
     Option.bind (strip_tail s) (\<lambda>s. Option.bind (last_headers s) (\<lambda>(path, hs). Some (uuid, num, path, hs)))))"

definition empty_request :: mongrel_request where
  "empty_request = \<lparr>mr_uuid = '''', mr_id = '''', mr_path = '''', mr_headers = (\<lambda>_. None)\<rparr>"

definition request_parser :: "bool \<Rightarrow> (char \<Rightarrow> bool) \<Rightarrow> mongrel_request \<Rightarrow> string \<Rightarrow> bool \<times> mongrel_request" where
  "request_parser preskip uok request input =
     (case regex_match input of
        None \<Rightarrow> (False, request)
      | Some (uuid, num, path, hs) \<Rightarrow>
        (case parse_headers preskip uok hs (mr_headers request) of
           (ok, m) \<Rightarrow> (ok, \<lparr>mr_uuid = uuid, mr_id = num, mr_path = path, mr_headers = m\<rparr>)))"

text \<open>A fresh request, and nothing when it does not parse: what the handler sees of the parser.\<close>

definition parse_request :: "bool \<Rightarrow> (char \<Rightarrow> bool) \<Rightarrow> string \<Rightarrow> mongrel_request option" where
  "parse_request preskip uok input =
     (case request_parser preskip uok empty_request input of (True, r) \<Rightarrow> Some r | _ \<Rightarrow> None)"

subsection \<open>What Mongrel2 sends\<close>

text \<open>The message Mongrel2 makes of a request with an empty body, with the headers as JSON.\<close>

fun json_text :: "string \<Rightarrow> string" where
  "json_text [] = []"
| "json_text (c # s) =
     (if c = CHR 0x22 \<or> c = CHR 0x5C then CHR 0x5C # c # json_text s else c # json_text s)"

definition json_pair :: "string \<times> string \<Rightarrow> string" where
  "json_pair p = CHR 0x22 # json_text (fst p) @ CHR 0x22 # CHR '':'' # CHR 0x22 # json_text (snd p) @ [CHR 0x22]"

fun json_pairs :: "(string \<times> string) list \<Rightarrow> string" where
  "json_pairs [] = []"
| "json_pairs (p # ps) = CHR '','' # json_pair p @ json_pairs ps"

definition json_headers :: "(string \<times> string) list \<Rightarrow> string" where
  "json_headers ps = tl (json_pairs ps)"

definition mongrel_message :: "string \<Rightarrow> string \<Rightarrow> string \<Rightarrow> (string \<times> string) list \<Rightarrow> string" where
  "mongrel_message uuid num path ps =
     uuid @ '' '' @ num @ '' '' @ path @ '' '' @ dec_nat (length (json_headers ps) + 2) @ '':'' @ [CHR 0x7B] @
       json_headers ps @ [CHR 0x7D] @ '',0:,''"

lemma uchars_json:
  assumes "\<forall>c \<in> set s. uok c"
  shows "uchars uok (json_text s @ CHR 0x22 # r) = (s, CHR 0x22 # r)"
  using assms by (induction s) (auto simp: escapes_def)

lemma kv_str_json:
  assumes "\<forall>c \<in> set s. uok c"
  shows "kv_str preskip uok (CHR 0x22 # json_text s @ CHR 0x22 # r) = Some (s, r)"
  by (simp add: kv_str_def skip_def is_space_def uchars_json [OF assms])

lemma kv_pair_json:
  assumes "\<forall>c \<in> set (fst p) \<union> set (snd p). uok c"
  shows "kv_pair preskip uok (json_pair p @ r) = Some (p, r)"
  using assms by (simp add: kv_pair_def json_pair_def kv_str_json lit_simps)

lemma kv_more_json:
  assumes "\<forall>p \<in> set ps. \<forall>c \<in> set (fst p) \<union> set (snd p). uok c"
  shows "kv_more preskip uok (json_pairs ps) = (ps, [])"
  using assms
proof (induction ps)
  case Nil
  then show ?case by (subst kv_more.simps) (simp add: lit_def skip_def)
next
  case (Cons p ps)
  then show ?case by (subst kv_more.simps) (simp add: lit_simps kv_pair_json)
qed

lemma kv_query_json:
  assumes "ps \<noteq> []" "\<forall>p \<in> set ps. \<forall>c \<in> set (fst p) \<union> set (snd p). uok c"
  shows "kv_query preskip uok (json_headers ps) = Some (ps, [])"
proof -
  obtain p qs where ps: "ps = p # qs" using assms(1) by (cases ps) auto
  then have "kv_pair preskip uok (json_headers ps) = Some (p, json_pairs qs)"
    using assms(2) by (simp add: json_headers_def kv_pair_json)
  then show ?thesis using assms(2) ps by (simp add: kv_query_def kv_more_json)
qed

text \<open>The first value of a repeated header is kept.\<close>

lemma foldl_kv_insert: "foldl kv_insert m ps = map_of ps ++ m"
proof (induction ps arbitrary: m)
  case (Cons p ps)
  show ?case unfolding foldl_Cons Cons.IH
    by (rule ext) (auto simp: kv_insert_def map_add_def split: option.splits)
qed simp

subsection \<open>Reading the message back\<close>

lemma class_blank_run:
  assumes "w \<noteq> []" "\<forall>c \<in> set w. cls c" "\<not> cls (CHR '' '')"
  shows "class_blank cls (w @ CHR '' '' # s) = Some (w, s)"
  using assms by (simp add: class_blank_def)

lemma strip_tail_end: "strip_tail (s @ CHR 0x7D # '',0:,'') = Some s"
  by (simp add: strip_tail_def is_digit_def)

lemma headers_at_blank: "s = [] \<or> hd s \<noteq> CHR '' '' \<Longrightarrow> headers_at s = None"
  by (cases s) (auto simp: headers_at_def)

lemma last_headers_no_blank:
  "CHR '' '' \<notin> set u \<Longrightarrow> last_headers (u @ s) = (case last_headers s of Some (p, q) \<Rightarrow> Some (u @ p, q) | None \<Rightarrow> None)"
  by (induction u) (auto simp: headers_at_blank split: option.splits)

lemma last_headers_append:
  "last_headers s = Some (p, q) \<Longrightarrow> last_headers (u @ s) = Some (u @ p, q)"
  by (induction u) auto

lemma last_headers_marker:
  assumes "ds \<noteq> []" "\<forall>c \<in> set ds. is_digit c"
  shows "last_headers (path @ CHR '' '' # ds @ '':'' @ CHR 0x7B # hs) =
    Some (case last_headers hs of None \<Rightarrow> (path, hs) | Some (p, q) \<Rightarrow> (path @ CHR '' '' # ds @ '':'' @ CHR 0x7B # p, q))"
proof -
  have "CHR '' '' \<notin> set (ds @ '':'' @ [CHR 0x7B])" using assms(2) by (auto simp: is_digit_def)
  from last_headers_no_blank [OF this, of hs]
  have r: "last_headers (ds @ '':'' @ CHR 0x7B # hs) =
      (case last_headers hs of Some (p, q) \<Rightarrow> Some (ds @ '':'' @ CHR 0x7B # p, q) | None \<Rightarrow> None)"
    by (simp split: option.splits)
  have "takeWhile is_digit (ds @ CHR '':'' # CHR 0x7B # hs) = ds" "dropWhile is_digit (ds @ CHR '':'' # CHR 0x7B # hs) = CHR '':'' # CHR 0x7B # hs"
    using assms(2) by (simp_all add: is_digit_def)
  then have h: "headers_at (CHR '' '' # ds @ '':'' @ CHR 0x7B # hs) = Some hs"
    using assms(1) by (simp add: headers_at_def)
  have "last_headers (CHR '' '' # ds @ '':'' @ CHR 0x7B # hs) =
      Some (case last_headers hs of None \<Rightarrow> ([], hs) | Some (p, q) \<Rightarrow> (CHR '' '' # ds @ '':'' @ CHR 0x7B # p, q))"
    unfolding last_headers.simps(2) r h by (auto split: option.split)
  then show ?thesis
    using last_headers_append [of "CHR '' '' # ds @ '':'' @ CHR 0x7B # hs" _ _ path]
    by (cases "last_headers hs") (auto simp del: last_headers.simps)
qed

lemma regex_match_message:
  assumes "uuid \<noteq> []" "\<forall>c \<in> set uuid. is_word c" "num \<noteq> []" "\<forall>c \<in> set num. is_digit c"
  shows "regex_match (mongrel_message uuid num path ps) = Some (uuid, num,
    case last_headers (json_headers ps) of
      None \<Rightarrow> (path, json_headers ps)
    | Some (p, q) \<Rightarrow> (path @ CHR '' '' # dec_nat (length (json_headers ps) + 2) @ '':'' @ CHR 0x7B # p, q))"
proof -
  let ?h = "json_headers ps" and ?n = "dec_nat (length (json_headers ps) + 2)"
  let ?mid = "path @ CHR '' '' # ?n @ '':'' @ CHR 0x7B # ?h"
  have m: "mongrel_message uuid num path ps = uuid @ CHR '' '' # num @ CHR '' '' # ?mid @ CHR 0x7D # '',0:,''"
    by (simp add: mongrel_message_def)
  have u: "class_blank is_word (uuid @ CHR '' '' # r) = Some (uuid, r)" for r
    by (rule class_blank_run) (use assms in \<open>auto simp: is_word_def is_digit_def\<close>)
  have n: "class_blank is_digit (num @ CHR '' '' # r) = Some (num, r)" for r
    by (rule class_blank_run) (use assms in \<open>auto simp: is_digit_def\<close>)
  have l: "last_headers ?mid = Some (case last_headers ?h of None \<Rightarrow> (path, ?h) | Some (p, q) \<Rightarrow> (path @ CHR '' '' # ?n @ '':'' @ CHR 0x7B # p, q))"
    by (rule last_headers_marker) (use is_digit_dec_nat in auto)
  show ?thesis unfolding m regex_match_def u Option.bind.simps prod.case n strip_tail_end l
    by (cases "last_headers ?h") auto
qed

lemma parse_request_message:
  assumes "uuid \<noteq> []" "\<forall>c \<in> set uuid. is_word c" "num \<noteq> []" "\<forall>c \<in> set num. is_digit c"
    and "ps \<noteq> []" "\<forall>p \<in> set ps. \<forall>c \<in> set (fst p) \<union> set (snd p). uok c"
    and "last_headers (json_headers ps) = None"
  shows "parse_request preskip uok (mongrel_message uuid num path ps) =
    Some \<lparr>mr_uuid = uuid, mr_id = num, mr_path = path, mr_headers = map_of ps\<rparr>"
  using regex_match_message [OF assms(1-4)] kv_query_json [OF assms(5,6)] assms(7)
  by (simp add: parse_request_def request_parser_def parse_headers_def empty_request_def foldl_kv_insert)

end
