(* ===== verification/Tile_Handler.thy ===== *)
theory Tile_Handler
  imports Tile_Path Style_Rules Http_Reply Mongrel_Request Distributed_Queue
begin

text \<open>
  The tile handler (\<^verbatim>\<open>tile_handler.cpp\<close>): it routes messages between Mongrel2, the storage worker and the rendering
  queue. A pass of its loop reads one message and returns the messages it sends and its new state, or the exception
  that ends the loop.

  Parameters: the two details of the parser of requests, the clock, the format of \<^verbatim>\<open>asctime\<close>, and the backend of the queue by its
  \<^verbatim>\<open>send\<close>, which returns the broker that got the job, its \<^verbatim>\<open>queue_length\<close> and its \<^verbatim>\<open>handle_pollitems\<close>.
\<close>

subsection \<open>State and environment\<close>

record ('s, 'i) handler_env =
  he_time :: int
  he_asctime :: "int \<Rightarrow> string"
  he_preskip :: bool
  he_uok :: "char \<Rightarrow> bool"
  he_send :: "tile_protocol \<Rightarrow> 's \<Rightarrow> 's \<times> (cpp_error + string)"
  he_length :: "'s \<Rightarrow> 64 word"
  he_poll :: "'i \<Rightarrow> 's \<Rightarrow> bool \<times> tile_protocol list \<times> 's"

text \<open>The runner of the queue has one handler, the default one, which is \<^verbatim>\<open>reply_with_tile\<close>.\<close>

record 's tile_handler =
  m_max_age :: int
  m_queue_threshold_stale :: "64 word"
  m_queue_threshold_satisfy :: "64 word"
  m_queue_threshold_max :: "64 word"
  m_stale_render_background :: bool
  m_style_rules :: style_rules
  m_queue_runner :: "unit runner \<times> 's"
  m_str_mongrel_id :: string

definition mk_tile_handler :: "int \<Rightarrow> 64 word \<Rightarrow> 64 word \<Rightarrow> 64 word \<Rightarrow> bool \<Rightarrow> style_rules \<Rightarrow> 's \<Rightarrow> 's tile_handler" where
  "mk_tile_handler max_age stale satisfy maxi background rules q =
     \<lparr>m_max_age = max_age, m_queue_threshold_stale = stale, m_queue_threshold_satisfy = satisfy,
      m_queue_threshold_max = maxi, m_stale_render_background = background, m_style_rules = rules,
      m_queue_runner = (\<lparr>message_handlers = [], default_message_handler = ()\<rparr>, q), m_str_mongrel_id = ''''\<rparr>"

datatype th_out = Reply string | To_Storage tile_protocol | To_Broker string tile_protocol

abbreviation qlen :: "('s, 'i) handler_env \<Rightarrow> 's tile_handler \<Rightarrow> 64 word" where
  "qlen env h \<equiv> he_length env (snd (m_queue_runner h))"

subsection \<open>Replies\<close>

definition send_id :: "tile_protocol \<Rightarrow> string" where
  "send_id tile = dec_int (tp_id tile)"

definition reply_with_tile :: "('s, 'i) handler_env \<Rightarrow> 's tile_handler \<Rightarrow> tile_protocol \<Rightarrow> cpp_error + th_out list" where
  "reply_with_tile env h tile =
     (if tp_id tile < 0 then Inr []
      else if (status tile = cmdDone \<or> status tile = cmdIgnore) \<and> length (tile_data tile) > 0 then
        (case mime_type_for (format tile) of
           Inl e \<Rightarrow> Inl e
         | Inr mime_type \<Rightarrow>
           if request_last_modified tile = 0 \<or> last_modified tile < request_last_modified tile
           then Inr [Reply (send_tile http_date_formatter (m_str_mongrel_id h) (send_id tile) (word_of_int (m_max_age h))
                   (last_modified tile) (he_time env + m_max_age h) (tile_data tile) mime_type)]
           else Inr [Reply (send_304 http_date_formatter (m_str_mongrel_id h) (send_id tile) (he_time env) mime_type)])
      else Inr [Reply (send_500 (m_str_mongrel_id h) (send_id tile))])"

subsection \<open>The queue\<close>

text \<open>Every exception of the queue is caught.\<close>

definition send_to_queue :: "('s, 'i) handler_env \<Rightarrow> tile_protocol \<Rightarrow> 's tile_handler \<Rightarrow> th_out list \<times> 's tile_handler" where
  "send_to_queue env tile h =
     (case put_job (he_send env) tile None (m_queue_runner h) of
        (q, Inr broker) \<Rightarrow> ([To_Broker broker tile], h\<lparr>m_queue_runner := q\<rparr>)
      | (q, Inl e) \<Rightarrow>
        ((if tp_id tile > 0 then [Reply (send_404 (m_str_mongrel_id h) (send_id tile))] else []), h\<lparr>m_queue_runner := q\<rparr>))"

text \<open>The job for rendering in the background, which nobody waits for.\<close>

definition bulk_job :: "tile_protocol \<Rightarrow> tile_protocol" where
  "bulk_job tile = tile\<lparr>status := cmdRenderBulk, tile_data := '''', tp_id := -1\<rparr>"

subsection \<open>Requests\<close>

definition handle_request_from_mongrel :: "('s, 'i) handler_env \<Rightarrow> string \<Rightarrow> 's tile_handler \<Rightarrow>
    th_out list \<times> (cpp_error + 's tile_handler)" where
  "handle_request_from_mongrel env txt h =
     (case parse_request (he_preskip env) (he_uok env) txt of
        None \<Rightarrow> ([], Inr h)
      | Some request \<Rightarrow>
        (case (case tile_path_parser default_tile (mr_path request) of
                 None \<Rightarrow> Inr (False, default_tile)
               | Some tile \<Rightarrow> rewrite_and_check (m_style_rules h) tile) of
           Inl e \<Rightarrow> ([], Inl e)
         | Inr (False, _) \<Rightarrow> ([Reply (send_404 (mr_uuid request) (mr_id request))], Inr h)
         | Inr (True, tile) \<Rightarrow>
           (case lexical_cast_int (mr_id request) of
              Inl e \<Rightarrow> ([], Inl e)
            | Inr n \<Rightarrow>
              ([To_Storage (tile\<lparr>tp_id := n\<rparr>)],
               Inr (if m_str_mongrel_id h = [] then h\<lparr>m_str_mongrel_id := mr_uuid request\<rparr> else h)))))"

subsection \<open>Responses from the storage\<close>

definition handle_response_from_storage :: "('s, 'i) handler_env \<Rightarrow> tile_protocol \<Rightarrow> 's tile_handler \<Rightarrow>
    th_out list \<times> (cpp_error + 's tile_handler)" where
  "handle_response_from_storage env tile h =
     (let reply = (\<lambda>code txt. Reply (send_reply (m_str_mongrel_id h) (send_id tile) code txt));
          reply_404 = Reply (send_404 (m_str_mongrel_id h) (send_id tile));
          reply_503 = Reply (send_503 (m_str_mongrel_id h) (send_id tile));
          reply_202 = Reply (send_202 (m_str_mongrel_id h) (send_id tile));
          render = (let (out', h') = send_to_queue env (tile\<lparr>status := cmdRender\<rparr>) h in (out', Inr h'));
          bulk = (\<lambda>out. let (out', h') = send_to_queue env (bulk_job tile) h in (out @ out', Inr h'))
      in if status tile = cmdStatus then
           (if last_modified tile > 0 then ([reply 200 (''Tile last modified: '' @ he_asctime env (last_modified tile))], Inr h)
            else if length (tile_data tile) > 0 then ([reply 200 ''Tile marked as dirty.''], Inr h)
            else ([reply_404], Inr h))
         else if status tile = cmdDirty then
           (if qlen env h \<ge> m_queue_threshold_max h then ([reply_503], Inr h)
            else bulk [reply 200 ''Tile submitted for rendering...''])
         else if status tile = cmdNotDone then
           (if qlen env h \<ge> m_queue_threshold_max h then ([reply_503], Inr h)
            else if qlen env h \<ge> m_queue_threshold_satisfy h then bulk [reply_202]
            else render)
         else if status tile = cmdDone \<or> qlen env h \<ge> m_queue_threshold_stale h then
           (case reply_with_tile env h tile of Inl e \<Rightarrow> ([], Inl e) | Inr out \<Rightarrow> (out, Inr h))
         else if m_stale_render_background h then
           (case reply_with_tile env h tile of
              Inl e \<Rightarrow> ([], Inl e)
            | Inr out \<Rightarrow> if qlen env h < m_queue_threshold_stale h then bulk out else (out, Inr h))
         else render)"

subsection \<open>The loop\<close>

text \<open>What a pass polls; of several messages only that of the first socket is read.\<close>

datatype 'i th_poll = From_Mongrel string | From_Storage tile_protocol | From_Queue 'i | Poll_Failed

text \<open>The replies sent up to the first exception.\<close>

fun reply_all :: "('s, 'i) handler_env \<Rightarrow> 's tile_handler \<Rightarrow> tile_protocol list \<Rightarrow> th_out list \<times> (cpp_error + unit)" where
  "reply_all env h [] = ([], Inr ())"
| "reply_all env h (job # jobs) =
     (case reply_with_tile env h job of
        Inl e \<Rightarrow> ([], Inl e)
      | Inr out \<Rightarrow> (let (out', r) = reply_all env h jobs in (out @ out', r)))"

definition handle_queue :: "('s, 'i) handler_env \<Rightarrow> 'i \<Rightarrow> 's tile_handler \<Rightarrow> th_out list \<times> (cpp_error + 's tile_handler)" where
  "handle_queue env i h =
     (let (r, s) = m_queue_runner h; (new, jobs, s') = he_poll env i s
      in if new
         then (let (calls, r') = handle_jobs jobs r; (out, res) = reply_all env h (map snd calls)
               in (out, case res of Inl e \<Rightarrow> Inl e | Inr _ \<Rightarrow> Inr (h\<lparr>m_queue_runner := (r', s')\<rparr>)))
         else ([], Inr (h\<lparr>m_queue_runner := (r, s')\<rparr>)))"

definition handler_iteration :: "('s, 'i) handler_env \<Rightarrow> 'i th_poll \<Rightarrow> 's tile_handler \<Rightarrow>
    th_out list \<times> (cpp_error + 's tile_handler)" where
  "handler_iteration env p h =
     (case p of
        Poll_Failed \<Rightarrow> ([], Inr h)
      | From_Mongrel txt \<Rightarrow> handle_request_from_mongrel env txt h
      | From_Storage tile \<Rightarrow> handle_response_from_storage env tile h
      | From_Queue i \<Rightarrow> handle_queue env i h)"

end
