(* ===== verification/Tile_Handler_Props.thy ===== *)
theory Tile_Handler_Props
  imports Tile_Handler
begin

text \<open>
  Properties of the tile handler: what becomes of a request, that every client gets one answer, that the
  thresholds keep jobs away from a long queue, and two slips in the replies.
\<close>

subsection \<open>Replies\<close>

text \<open>A message for a client, and the jobs among the messages.\<close>

definition answers_client :: "string \<Rightarrow> string \<Rightarrow> th_out \<Rightarrow> bool" where
  "answers_client uuid cid m \<longleftrightarrow> (\<exists>msg code mime body. m = Reply msg \<and> response_ok uuid cid code mime body msg)"

lemma answers_clientI: "response_ok uuid cid code mime body msg \<Longrightarrow> answers_client uuid cid (Reply msg)"
  by (auto simp: answers_client_def)

lemma text_replies:
  assumes "CHR '' '' \<notin> set uuid"
  shows "answers_client uuid cid (Reply (send_reply uuid cid s out))"
    and "answers_client uuid cid (Reply (send_404 uuid cid))"
    and "answers_client uuid cid (Reply (send_500 uuid cid))"
    and "answers_client uuid cid (Reply (send_503 uuid cid))"
    and "answers_client uuid cid (Reply (send_202 uuid cid))"
  using plain_replies_ok [OF assms, of cid] by (blast intro: answers_clientI)+

lemma mime_plain: "mime_type_for f = Inr m \<Longrightarrow> CHR 0x0D \<notin> set m"
  by (auto simp: mime_type_for_def split: if_splits)

lemma tile_replies:
  assumes "CHR '' '' \<notin> set uuid" "mime_type_for f = Inr m"
  shows "answers_client uuid cid (Reply (send_tile http_date_formatter uuid cid age lm ex d m))"
    and "answers_client uuid cid (Reply (send_304 http_date_formatter uuid cid date m))"
  by (rule answers_clientI, rule send_tile_ok, use assms mime_plain http_date_plain in auto)
     (rule answers_clientI, rule send_304_ok, use assms mime_plain http_date_plain in auto)

lemma reply_with_tile_once:
  assumes "CHR '' '' \<notin> set (m_str_mongrel_id h)" "mime_type_for (format tile) = Inr mt" "0 \<le> tp_id tile"
  shows "\<exists>m. reply_with_tile env h tile = Inr [m] \<and> answers_client (m_str_mongrel_id h) (send_id tile) m"
proof -
  have "CHR '' '' \<notin> set (m_str_mongrel_id h)" by (rule assms(1))
  moreover have "\<not> tp_id tile < 0" using assms(3) by simp
  ultimately show ?thesis
    using tile_replies [OF assms(1,2), of "send_id tile"] text_replies [of "m_str_mongrel_id h" "send_id tile"] assms(2)
    by (simp add: reply_with_tile_def)
qed

subsection \<open>Requests\<close>

text \<open>
  C7. From the message of the web server to the storage: a request whose path is that of a tile is passed on to the
  storage, with the style and format that the rules give it and with the client's number, exactly if the
  rules accept the tile; otherwise the client gets a 404. The first request fixes the identifier of the
  server. No header may look like the start of the headers, and the parser has to accept their bytes.
\<close>

theorem request_routed:
  assumes message: "txt = mongrel_message u (dec_nat n) (request_path a b segs z x y ext cmd) ps"
      "u \<noteq> []" "\<forall>c \<in> set u. is_word c" "ps \<noteq> []"
      "\<forall>p \<in> set ps. \<forall>c \<in> set (fst p) \<union> set (snd p). he_uok env c" "last_headers (json_headers ps) = None"
    and path: "CHR ''/'' \<notin> set a" "CHR ''/'' \<notin> set b" "segs \<noteq> []" "\<forall>g \<in> set segs. segment_ok g"
      "int32 x" "int32 y" "int32 z" "(ext, f) \<in> set formats_table" "commands_rule cmd = Some (c, junk)"
    and n: "n < 2 ^ 31" and zooms: "\<forall>(sty, mz) \<in> set (m_zoom_limits (m_style_rules h)). mz < 31"
    and tile: "tile = default_tile\<lparr>style := tl (slashed segs), tp_z := z, tp_x := x, tp_y := y, format := f, status := c\<rparr>"
  shows "\<exists>ok. rewrite_and_check (m_style_rules h) tile = Inr (ok, rewritten (m_style_rules h) tile) \<and>
    handle_request_from_mongrel env txt h =
      (if ok then ([To_Storage ((rewritten (m_style_rules h) tile)\<lparr>tp_id := int n\<rparr>)],
                   Inr (if m_str_mongrel_id h = [] then h\<lparr>m_str_mongrel_id := u\<rparr> else h))
       else ([Reply (send_404 u (dec_nat n))], Inr h))"
proof -
  obtain ok where ok: "rewrite_and_check (m_style_rules h) tile = Inr (ok, rewritten (m_style_rules h) tile)"
    using rewrite_and_check_returns zooms by blast
  have "parse_request (he_preskip env) (he_uok env) txt =
      Some \<lparr>mr_uuid = u, mr_id = dec_nat n, mr_path = request_path a b segs z x y ext cmd, mr_headers = map_of ps\<rparr>"
    unfolding message(1) by (rule parse_request_message) (use message is_digit_dec_nat in auto)
  moreover have "tile_path_parser default_tile (request_path a b segs z x y ext cmd) = Some tile"
    unfolding tile by (rule path_parsed [OF path])
  moreover have "lexical_cast_int (dec_nat n) = Inr (int n)"
    using qi_int_dec [of "int n" "[]"] n by (simp add: lexical_cast_int_def dec_int_def int32_def)
  ultimately show ?thesis
    using ok by (cases ok) (auto simp: handle_request_from_mongrel_def)
qed

definition ex_env :: "(unit, unit) handler_env" where
  "ex_env = \<lparr>he_time = 1000, he_asctime = (\<lambda>t. ''then''), he_preskip = True, he_uok = (\<lambda>c. (of_char c :: nat) < 128),
     he_send = (\<lambda>job s. (s, Inr ''b1'')), he_length = (\<lambda>s. 5), he_poll = (\<lambda>i s. (False, [], s))\<rparr>"

definition ex_th :: "unit tile_handler" where
  "ex_th = (mk_tile_handler 60 100 500 1000 False ex_rules ())\<lparr>m_str_mongrel_id := ''m2''\<rparr>"

definition ex_message :: string where
  "ex_message = mongrel_message ''m2'' (dec_nat 7) (request_path ''tiles'' ''1.0.0'' [''osm''] 2 3 1 ''png'' '''') [(''host'', ''localhost:80'')]"

theorem request_routed_witness:
  "handle_request_from_mongrel ex_env ex_message ex_th =
     ([To_Storage (default_tile\<lparr>status := cmdRender, style := ''map'', tp_z := 2, tp_x := 3, tp_y := 1, format := fmtJPEG, tp_id := 7\<rparr>)],
      Inr ex_th)"
proof -
  let ?t = "default_tile\<lparr>style := ''osm'', tp_z := 2, tp_x := 3, tp_y := 1, format := fmtPNG, status := cmdRender\<rparr>"
  let ?u = "default_tile\<lparr>style := ''map'', tp_z := 2, tp_x := 3, tp_y := 1, format := fmtJPEG, status := cmdRender\<rparr>"
  have r: "rewritten ex_rules ?t = ?u" by (simp add: rewritten_def ex_rules_def default_tile_def)
  have "rewrite_and_check ex_rules ?t = Inr (True, ?u)"
    unfolding accepted_iff check_xyz_True r by (simp add: ex_rules_def zoom_for_def default_tile_def fmt_defs)
  moreover have h: "m_style_rules ex_th = ex_rules" "m_str_mongrel_id ex_th \<noteq> []"
    by (simp_all add: ex_th_def mk_tile_handler_def)
  moreover have "\<exists>ok. rewrite_and_check (m_style_rules ex_th) ?t = Inr (ok, rewritten (m_style_rules ex_th) ?t) \<and>
    handle_request_from_mongrel ex_env ex_message ex_th =
      (if ok then ([To_Storage ((rewritten (m_style_rules ex_th) ?t)\<lparr>tp_id := int 7\<rparr>)],
                   Inr (if m_str_mongrel_id ex_th = [] then ex_th\<lparr>m_str_mongrel_id := ''m2''\<rparr> else ex_th))
       else ([Reply (send_404 ''m2'' (dec_nat 7))], Inr ex_th))"
    by (rule request_routed [OF ex_message_def])
       (simp_all add: ex_env_def h ex_rules_def segment_ok_def is_alnum_def is_alpha_def int32_def formats_table_def commands_rule_def
          is_word_def is_digit_def json_headers_def json_pair_def headers_at_def)
  ultimately show ?thesis by (auto simp: r)
qed

text \<open>
  A request whose headers hold a blank, a number and \<^verbatim>\<open>:{\<close> is misread: the path extends into the headers up to the last
  such place, and the rest is read as headers; if that is no list of headers, the client never gets an
  answer.
\<close>

theorem marker_in_header_misread:
  assumes "u \<noteq> []" "\<forall>c \<in> set u. is_word c" "last_headers (json_headers ps) = Some (p, q)"
  shows "parse_request pre uok (mongrel_message u (dec_nat n) path ps) =
      (case kv_query pre uok q of
         None \<Rightarrow> None
       | Some (kvs, rest) \<Rightarrow> Some \<lparr>mr_uuid = u, mr_id = dec_nat n,
           mr_path = path @ '' '' @ dec_nat (length (json_headers ps) + 2) @ '':'' @ [CHR 0x7B] @ p, mr_headers = map_of kvs\<rparr>) \<and>
    (kv_query (he_preskip env) (he_uok env) q = None \<longrightarrow>
      handle_request_from_mongrel env (mongrel_message u (dec_nat n) path ps) h = ([], Inr h))"
proof -
  have m: "regex_match (mongrel_message u (dec_nat n) path ps) =
      Some (u, dec_nat n, path @ CHR '' '' # dec_nat (length (json_headers ps) + 2) @ '':'' @ CHR 0x7B # p, q)"
    using regex_match_message [OF assms(1,2), of "dec_nat n" path ps] is_digit_dec_nat assms(3) by simp
  have "parse_request pre uok (mongrel_message u (dec_nat n) path ps) =
      (case kv_query pre uok q of
         None \<Rightarrow> None
       | Some (kvs, rest) \<Rightarrow> Some \<lparr>mr_uuid = u, mr_id = dec_nat n,
           mr_path = path @ '' '' @ dec_nat (length (json_headers ps) + 2) @ '':'' @ [CHR 0x7B] @ p, mr_headers = map_of kvs\<rparr>)" for pre uok
    by (simp add: parse_request_def request_parser_def m parse_headers_def empty_request_def foldl_kv_insert split: option.split)
  then show ?thesis by (simp add: handle_request_from_mongrel_def)
qed

theorem marker_in_header_misread_witness:
  "handle_request_from_mongrel ex_env (mongrel_message ''m2'' (dec_nat 7) ''/tiles/1.0.0/osm/2/3/1.png'' [(''user-agent'', ''x 1:{y'')]) ex_th =
     ([], Inr ex_th)"
  using marker_in_header_misread [of "''m2''" "[(''user-agent'', ''x 1:{y'')]" _ _ True "\<lambda>c. True" 7 "''/tiles/1.0.0/osm/2/3/1.png''" ex_env ex_th]
  by (simp add: is_word_def is_digit_def json_headers_def json_pair_def headers_at_def kv_query_def kv_pair_def kv_str_def skip_def is_space_def ex_env_def)

subsection \<open>Responses from the storage\<close>

definition waiting_job :: "tile_protocol \<Rightarrow> th_out \<Rightarrow> bool" where
  "waiting_job tile m \<longleftrightarrow> (\<exists>b. m = To_Broker b (tile\<lparr>status := cmdRender\<rparr>))"

definition background_job :: "tile_protocol \<Rightarrow> th_out \<Rightarrow> bool" where
  "background_job tile m \<longleftrightarrow> (\<exists>b. m = To_Broker b (bulk_job tile))"

lemma bulk_outputs: "fst (send_to_queue env (bulk_job tile) h) = [] \<or>
    (\<exists>m. fst (send_to_queue env (bulk_job tile) h) = [m] \<and> background_job tile m)"
  by (auto simp: send_to_queue_def background_job_def bulk_job_def split: prod.splits sum.splits)

text \<open>The queue does not take the job: the call throws.\<close>

definition job_refused :: "('s, 'i) handler_env \<Rightarrow> tile_protocol \<Rightarrow> 's tile_handler \<Rightarrow> bool" where
  "job_refused env tile h \<longleftrightarrow> (\<exists>q e. put_job (he_send env) (tile\<lparr>status := cmdRender\<rparr>) None (m_queue_runner h) = (q, Inl e))"

lemma render_outputs:
  assumes "CHR '' '' \<notin> set (m_str_mongrel_id h)" "0 \<le> tp_id tile"
  shows "(\<exists>m. fst (send_to_queue env (tile\<lparr>status := cmdRender\<rparr>) h) = [m] \<and>
    (waiting_job tile m \<or> answers_client (m_str_mongrel_id h) (send_id tile) m)) \<or>
    fst (send_to_queue env (tile\<lparr>status := cmdRender\<rparr>) h) = [] \<and> tp_id tile = 0 \<and> job_refused env tile h"
  using assms text_replies(2) [OF assms(1)]
  by (auto simp: send_to_queue_def waiting_job_def job_refused_def send_id_def split: prod.splits sum.splits)

text \<open>
  C5. A client gets one answer for its request, as far as the handler is concerned: when the storage has answered the
  request of a client, in a format that has a MIME type, the handler either sends one reply to that client, and at most one
  job that nobody waits for, or it sends one job that carries the client's number, and no reply. It does not
  throw. The one exception is the client with the number zero: when its tile has to be rendered and the queue does
  not take the job, the handler sends nothing at all.
\<close>

theorem one_answer_per_request:
  assumes "CHR '' '' \<notin> set (m_str_mongrel_id h)" "mime_type_for (format tile) = Inr mt" "0 \<le> tp_id tile"
  shows "\<exists>out h'. handle_response_from_storage env tile h = (out, Inr h') \<and>
    ((\<exists>m. out = [m] \<and> waiting_job tile m) \<or>
     (\<exists>m jobs. out = m # jobs \<and> answers_client (m_str_mongrel_id h) (send_id tile) m \<and>
        (jobs = [] \<or> (\<exists>j. jobs = [j] \<and> background_job tile j))) \<or>
     (out = [] \<and> tp_id tile = 0 \<and> job_refused env tile h))"
proof -
  have u: "CHR '' '' \<notin> set (m_str_mongrel_id h)" by (rule assms(1))
  obtain r where r: "reply_with_tile env h tile = Inr [r]" "answers_client (m_str_mongrel_id h) (send_id tile) r"
    using reply_with_tile_once [OF assms] by blast
  show ?thesis
    using text_replies [OF u, of "send_id tile"] r render_outputs [OF u assms(3), of env] bulk_outputs [of env tile h]
    unfolding handle_response_from_storage_def Let_def case_prod_unfold by auto
qed

theorem one_answer_per_request_witness:
  "\<exists>m h'. handle_response_from_storage ex_env (default_tile\<lparr>status := cmdNotDone, tp_id := 7\<rparr>) ex_th = ([m], Inr h') \<and>
     waiting_job (default_tile\<lparr>status := cmdNotDone, tp_id := 7\<rparr>) m"
proof -
  let ?t = "default_tile\<lparr>status := cmdNotDone, tp_id := 7\<rparr>"
  have "\<exists>b h'. handle_response_from_storage ex_env ?t ex_th = ([To_Broker b (?t\<lparr>status := cmdRender\<rparr>)], Inr h')"
    by (simp add: handle_response_from_storage_def send_to_queue_def put_job_def ex_env_def ex_th_def mk_tile_handler_def
        default_tile_def Let_def)
  then show ?thesis
    using one_answer_per_request [of ex_th ?t "''image/png''" ex_env]
    by (auto simp: ex_env_def ex_th_def mk_tile_handler_def default_tile_def mime_type_for_def fmt_defs
        waiting_job_def)
qed

text \<open>
  The thresholds on the length of the queue: a job is only sent if the queue is shorter than the limit for what the
  storage reported. In particular nothing is sent while the length is reported as the largest number,
  as the queue does until it has settled.
\<close>

theorem overload_sheds_jobs:
  assumes "handle_response_from_storage env tile h = (out, r)" "To_Broker b job \<in> set out"
  shows "(if status tile = cmdDirty then qlen env h < m_queue_threshold_max h
      else if status tile = cmdNotDone then qlen env h < m_queue_threshold_max h \<and>
        (tp_id job = tp_id tile \<and> tp_id tile \<noteq> -1 \<longrightarrow> qlen env h < m_queue_threshold_satisfy h)
      else status tile \<noteq> cmdDone \<and> status tile \<noteq> cmdStatus \<and> qlen env h < m_queue_threshold_stale h) \<and>
    qlen env h \<noteq> - 1"
proof -
  have no: "To_Broker b job \<notin> set o'" if "reply_with_tile env h tile = Inr o'" for o'
    using that by (auto simp: reply_with_tile_def split: if_splits sum.splits)
  have top: "n < k \<Longrightarrow> n \<noteq> - 1" for n k :: "64 word" by (metis word_order.extremum_strict)
  have bulk: "tp_id job = -1" if "To_Broker b job \<in> set (fst (send_to_queue env (bulk_job tile) h))"
    using that bulk_outputs [of env tile h] by (auto simp: background_job_def bulk_job_def)
  show ?thesis
    using assms no bulk top
    unfolding handle_response_from_storage_def Let_def case_prod_unfold
    by (auto simp: not_le split: if_splits sum.splits)
qed

theorem overload_sheds_jobs_witness:
  "qlen ex_env ex_th < m_queue_threshold_satisfy ex_th"
proof -
  let ?t = "default_tile\<lparr>status := cmdNotDone, tp_id := 7\<rparr>"
  obtain h' where "handle_response_from_storage ex_env ?t ex_th = ([To_Broker ''b1'' (?t\<lparr>status := cmdRender\<rparr>)], Inr h')"
    by (simp add: handle_response_from_storage_def send_to_queue_def put_job_def ex_env_def ex_th_def mk_tile_handler_def
        default_tile_def Let_def)
  then show ?thesis
    using overload_sheds_jobs [of ex_env ?t ex_th _ _ "''b1''" "?t\<lparr>status := cmdRender\<rparr>"] by simp
qed

subsection \<open>Client zero\<close>

text \<open>
  The client with the number zero, which is a valid one for replies, gets no answer at all when its tile has to be
  rendered and the queue cannot take the job.
\<close>

theorem client_zero_unanswered:
  assumes "tp_id tile = 0" "status tile = cmdNotDone" "qlen env h < m_queue_threshold_satisfy h" "qlen env h < m_queue_threshold_max h"
    and "\<forall>job s. \<exists>s' e. he_send env job s = (s', Inl e)"
  shows "fst (handle_response_from_storage env tile h) = [] \<and>
    (\<forall>done mt. status done = cmdDone \<and> tp_id done = 0 \<and> tile_data done \<noteq> [] \<and> mime_type_for (format done) = Inr mt \<longrightarrow>
      (\<exists>m. reply_with_tile env h done = Inr [Reply m]))"
proof -
  obtain s' e where "he_send env (tile\<lparr>status := cmdRender\<rparr>) (snd (m_queue_runner h)) = (s', Inl e)"
    using assms(5) by blast
  then have "fst (send_to_queue env (tile\<lparr>status := cmdRender\<rparr>) h) = []"
    using assms(1) by (simp add: send_to_queue_def put_job_def case_prod_unfold Let_def)
  then show ?thesis
    using assms by (auto simp: handle_response_from_storage_def reply_with_tile_def case_prod_unfold Let_def)
qed

theorem client_zero_unanswered_witness:
  "fst (handle_response_from_storage (ex_env\<lparr>he_send := (\<lambda>job s. (s, Inl (Broker_Error ''no brokers'')))\<rparr>)
     (default_tile\<lparr>status := cmdNotDone\<rparr>) ex_th) = []"
  using client_zero_unanswered [of "default_tile\<lparr>status := cmdNotDone\<rparr>" "ex_env\<lparr>he_send := (\<lambda>job s. (s, Inl (Broker_Error ''no brokers'')))\<rparr>" ex_th]
  by (simp add: default_tile_def ex_env_def ex_th_def mk_tile_handler_def)

end
