(* ===== verification/Http_Client.thy ===== *)
theory Http_Client
  imports Tile_Types Decimal
begin

text \<open>
  The HTTP client over libcurl (\<^verbatim>\<open>http/http.hpp\<close>, \<^verbatim>\<open>http/http.cpp\<close>): the callbacks that collect a response and
  feed an upload, the operations that set up an easy handle, the single requests, and the loop
  \<^verbatim>\<open>do_multi_requests\<close> that keeps several transfers going. libcurl is a parameter: a transfer is what
  it reports of a request, and a round of the loop is what it reports of the transfers under way. The
  waiting for descriptors inside a round changes nothing and is left out.
\<close>

subsection \<open>Responses and parts of a form\<close>

record response =
  statusCode :: int
  timeStamp :: int
  resp_headers :: "string list"
  body :: string

definition new_response :: response where
  "new_response = \<lparr>statusCode = - 1, timeStamp = - 1, resp_headers = [], body = ''''\<rparr>"

text \<open>The data of a part is the memory its pointer leads to; a part without file name is text.\<close>

record part =
  part_data :: string
  part_name :: string
  fileName :: "string option"
  mime :: string
  part_size :: int
  position :: int

definition mk_part :: "string \<Rightarrow> int \<Rightarrow> part" where
  "mk_part data n = \<lparr>part_data = data, part_name = '''', fileName = None, mime = '''', part_size = n, position = 0\<rparr>"

subsection \<open>Callbacks\<close>

definition write_callback :: "string \<Rightarrow> response \<Rightarrow> response" where
  "write_callback chunk resp = resp\<lparr>body := body resp @ chunk\<rparr>"

definition header_callback :: "string \<Rightarrow> response \<Rightarrow> response" where
  "header_callback line resp = resp\<lparr>resp_headers := resp_headers resp @ [line]\<rparr>"

definition discard_callback :: "string \<Rightarrow> response \<Rightarrow> response" where
  "discard_callback line resp = resp"

text \<open>\<^verbatim>\<open>memcpy\<close> of \<open>n\<close> bytes at an offset: outside the memory of the part the behaviour is undefined.\<close>

definition memcpy_from :: "string \<Rightarrow> int \<Rightarrow> int \<Rightarrow> cpp_error + string" where
  "memcpy_from data pos n =
     (if 0 \<le> pos \<and> 0 \<le> n \<and> pos + n \<le> int (length data) then Inr (take (nat n) (drop (nat pos) data))
      else Inl Undefined_Behaviour)"

definition read_callback :: "int \<Rightarrow> part \<Rightarrow> cpp_error + (string \<times> part)" where
  "read_callback len post =
     (if len < 1 then Inr ('''', post)
      else if position post < part_size post then
        (let n = (if position post + len > part_size post then part_size post - position post else len) in
         case memcpy_from (part_data post) (position post) n of
           Inl e \<Rightarrow> Inl e
         | Inr bs \<Rightarrow> Inr (bs, post\<lparr>position := position post + n\<rparr>))
      else Inr ('''', post))"

text \<open>What libcurl uploads of a part when it offers buffers of the given sizes.\<close>

fun upload :: "int list \<Rightarrow> part \<Rightarrow> cpp_error + (string \<times> part)" where
  "upload [] post = Inr ('''', post)"
| "upload (n # ns) post =
     (case read_callback n post of
        Inl e \<Rightarrow> Inl e
      | Inr (bs, post1) \<Rightarrow>
        (case upload ns post1 of Inl e \<Rightarrow> Inl e | Inr (rest, post2) \<Rightarrow> Inr (bs @ rest, post2)))"

subsection \<open>Easy handles\<close>

text \<open>The options the client sets on a handle; \<open>easy_reset\<close> is the state after creation and after \<^verbatim>\<open>curl_easy_reset\<close>.\<close>

datatype http_method = Default_Method | Http_Get | Http_Post part | Http_Form "part list" bool | Http_Delete | Http_Head

record easy_opts =
  o_nosignal :: bool
  o_url :: string
  o_filetime :: bool
  o_headers :: "string list"
  o_keep_headers :: bool
  o_method :: http_method
  o_connect_timeout :: int

definition easy_reset :: easy_opts where
  "easy_reset = \<lparr>o_nosignal = False, o_url = '''', o_filetime = False, o_headers = [], o_keep_headers = False,
     o_method = Default_Method, o_connect_timeout = 0\<rparr>"

text \<open>What libcurl reports of one transfer: its result code (\<open>0\<close> is success) and that code's text, the pieces of the body,
  the header lines, the status and the file time.\<close>

record transfer =
  tr_status :: int
  tr_error :: string
  tr_chunks :: "string list"
  tr_lines :: "string list"
  tr_code :: int
  tr_filetime :: int

text \<open>A connection is null or a handle with its options; the library creates handles and performs transfers in a world \<open>'w\<close>.\<close>

type_synonym connection = "easy_opts option"

record 'w curl =
  easy_init :: "'w \<Rightarrow> 'w \<times> bool"
  easy_perform :: "easy_opts \<Rightarrow> 'w \<Rightarrow> 'w \<times> transfer"

text \<open>
  \<^verbatim>\<open>curl_oper\<close>: the constructor takes the given connection or makes one, and sets the common options; the
  second result tells whether the destructor will reset the handle.
\<close>

definition createPersistentConnection :: "('w, 'z) curl_scheme \<Rightarrow> 'w \<Rightarrow> 'w \<times> connection" where
  "createPersistentConnection lib w =
     (case easy_init lib w of (w', ok) \<Rightarrow> (w', if ok then Some easy_reset else None))"

definition curl_oper_opts :: "easy_opts \<Rightarrow> string \<Rightarrow> string list \<Rightarrow> bool \<Rightarrow> easy_opts" where
  "curl_oper_opts h url headers keepHeaders =
     (let h1 = h\<lparr>o_nosignal := True, o_url := url, o_filetime := True\<rparr>;
          h2 = (if headers = [] then h1 else h1\<lparr>o_headers := headers\<rparr>)
      in h2\<lparr>o_keep_headers := keepHeaders\<rparr>)"

definition curl_oper :: "('w, 'z) curl_scheme \<Rightarrow> connection \<Rightarrow> string \<Rightarrow> string list \<Rightarrow> bool \<Rightarrow> 'w \<Rightarrow>
    'w \<times> (cpp_error + (easy_opts \<times> bool))" where
  "curl_oper lib conn url headers keepHeaders w =
     (case conn of
        Some h \<Rightarrow> (w, Inr (curl_oper_opts h url headers keepHeaders, True))
      | None \<Rightarrow>
        (case createPersistentConnection lib w of
           (w1, None) \<Rightarrow> (w1, Inl (Runtime_Error ''Cannot initialise CURL library.''))
         | (w1, Some h) \<Rightarrow> (w1, Inr (curl_oper_opts h url headers keepHeaders, False))))"

text \<open>The destructor: a shared handle is reset for its next use.\<close>

definition oper_done :: "connection \<Rightarrow> easy_opts \<Rightarrow> bool \<Rightarrow> connection" where
  "oper_done conn h reset_connection = (if reset_connection then Some easy_reset else conn)"

definition finish :: "string \<Rightarrow> easy_opts \<Rightarrow> transfer \<Rightarrow> cpp_error + response" where
  "finish oper_type h t =
     (let resp = fold write_callback (tr_chunks t)
            (fold (if o_keep_headers h then header_callback else discard_callback) (tr_lines t) new_response)
      in if tr_status t = 0 then Inr (resp\<lparr>statusCode := tr_code t, timeStamp := tr_filetime t\<rparr>)
         else Inl (Runtime_Error (''CURL error on '' @ oper_type @ '' to `'' @ o_url h @ [CHR 0x27] @ '',:'' @ tr_error t)))"

text \<open>
  The three operations set the method on top of the common options. The arguments of \<^verbatim>\<open>curl_get\<close> are the
  index of the request and then the connect timeout.
\<close>

definition curl_get :: "easy_opts \<Rightarrow> nat \<Rightarrow> int \<Rightarrow> easy_opts" where
  "curl_get h index timeout = h\<lparr>o_connect_timeout := timeout, o_method := Http_Get\<rparr>"

definition curl_post_single :: "easy_opts \<Rightarrow> part \<Rightarrow> easy_opts" where
  "curl_post_single h data = h\<lparr>o_method := Http_Post data\<rparr>"

definition curl_post_form :: "easy_opts \<Rightarrow> part list \<Rightarrow> bool \<Rightarrow> easy_opts" where
  "curl_post_form h parts submit = h\<lparr>o_method := Http_Form parts submit\<rparr>"

subsection \<open>Single requests\<close>

definition perform_oper :: "('w, 'z) curl_scheme \<Rightarrow> connection \<Rightarrow> string \<Rightarrow> string \<Rightarrow> string list \<Rightarrow> bool \<Rightarrow>
    (easy_opts \<Rightarrow> easy_opts) \<Rightarrow> 'w \<Rightarrow> 'w \<times> connection \<times> (cpp_error + response)" where
  "perform_oper lib conn oper_type url headers keepHeaders setup w =
     (case curl_oper lib conn url headers keepHeaders w of
        (w1, Inl e) \<Rightarrow> (w1, conn, Inl e)
      | (w1, Inr (h, reset_connection)) \<Rightarrow>
        (case easy_perform lib (setup h) w1 of
           (w2, t) \<Rightarrow> (w2, oper_done conn (setup h) reset_connection, finish oper_type (setup h) t)))"

text \<open>\<^verbatim>\<open>get\<close> passes its timeout as the fifth argument of \<^verbatim>\<open>curl_get\<close>, which is the index; the timeout keeps its default.\<close>

definition http_get :: "('w, 'z) curl_scheme \<Rightarrow> string \<Rightarrow> connection \<Rightarrow> string list \<Rightarrow> bool \<Rightarrow> int \<Rightarrow> 'w \<Rightarrow>
    'w \<times> connection \<times> (cpp_error + response)" where
  "http_get lib url conn headers keepHeaders timeout w =
     perform_oper lib conn ''GET'' url headers keepHeaders (\<lambda>h. curl_get h (nat timeout) 0) w"

definition http_post :: "('w, 'z) curl_scheme \<Rightarrow> string \<Rightarrow> string \<Rightarrow> connection \<Rightarrow> string list \<Rightarrow> bool \<Rightarrow> 'w \<Rightarrow>
    'w \<times> connection \<times> (cpp_error + response)" where
  "http_post lib url post conn headers keepHeaders w =
     perform_oper lib conn ''POST'' url headers keepHeaders (\<lambda>h. curl_post_single h (mk_part post (int (length post)))) w"

definition postForm :: "('w, 'z) curl_scheme \<Rightarrow> string \<Rightarrow> part list \<Rightarrow> connection \<Rightarrow> string list \<Rightarrow> bool \<Rightarrow> bool \<Rightarrow> 'w \<Rightarrow>
    'w \<times> connection \<times> (cpp_error + response)" where
  "postForm lib url parts conn headers keepHeaders submit w =
     perform_oper lib conn ''POST'' url headers keepHeaders (\<lambda>h. curl_post_form h parts submit) w"

text \<open>
  \<^verbatim>\<open>del\<close> and \<^verbatim>\<open>head\<close> set up the handle themselves: a given connection is reset first and keeps its options
  afterwards. \<^verbatim>\<open>del\<close> asks for no file time; a header request appends the headers to the body, too.
\<close>

definition del_head :: "('w, 'z) curl_scheme \<Rightarrow> connection \<Rightarrow> string \<Rightarrow> (easy_opts \<Rightarrow> easy_opts) \<Rightarrow>
    (transfer \<Rightarrow> response \<Rightarrow> response) \<Rightarrow> 'w \<Rightarrow> 'w \<times> connection \<times> (cpp_error + response)" where
  "del_head lib conn name setup info w =
     (case (case conn of Some h \<Rightarrow> (w, Some easy_reset) | None \<Rightarrow> createPersistentConnection lib w) of
        (w1, None) \<Rightarrow> (w1, conn, Inl (Runtime_Error ''Cannot initialise CURL library.''))
      | (w1, Some h) \<Rightarrow>
        (case easy_perform lib (setup h) w1 of
           (w2, t) \<Rightarrow>
             (w2, (case conn of Some _ \<Rightarrow> Some (setup h) | None \<Rightarrow> None),
              case finish name (setup h) t of Inl e \<Rightarrow> Inl e | Inr r \<Rightarrow> Inr (info t r))))"

definition http_del :: "('w, 'z) curl_scheme \<Rightarrow> string \<Rightarrow> connection \<Rightarrow> string list \<Rightarrow> bool \<Rightarrow> 'w \<Rightarrow>
    'w \<times> connection \<times> (cpp_error + response)" where
  "http_del lib url conn headers keepHeaders w =
     del_head lib conn ''DELETE''
       (\<lambda>h. (curl_oper_opts h url headers keepHeaders)\<lparr>o_filetime := False, o_method := Http_Delete\<rparr>)
       (\<lambda>t r. r\<lparr>timeStamp := - 1\<rparr>) w"

definition http_head :: "('w, 'z) curl_scheme \<Rightarrow> string \<Rightarrow> connection \<Rightarrow> string list \<Rightarrow> bool \<Rightarrow> 'w \<Rightarrow>
    'w \<times> connection \<times> (cpp_error + response)" where
  "http_head lib url conn headers keepHeaders w =
     del_head lib conn ''HEAD'' (\<lambda>h. (curl_oper_opts h url headers keepHeaders)\<lparr>o_method := Http_Head\<rparr>) (\<lambda>t r. r) w"

subsection \<open>Several transfers at a time\<close>

text \<open>
  The state of \<^verbatim>\<open>do_multi_requests\<close>: the responses so far (\<open>None\<close> is the default-constructed null pointer), the
  handles that are free (the top of the stack first), the operations in progress as index, handle and
  options, the next request, and the number of running transfers libcurl last reported.
\<close>

record multi_state =
  ms_responses :: "(cpp_error + response) option list"
  ms_free :: "nat list"
  ms_progress :: "(nat \<times> nat \<times> easy_opts) list"
  ms_req :: nat
  ms_running :: nat

text \<open>
  One round as libcurl sees it: which requests it accepts when they are added, how many transfers it says
  are running, and its messages in order, each with the handle and whether it is of the kind \<^verbatim>\<open>CURLMSG_DONE\<close>.
\<close>

record curl_round =
  add_ok :: "nat \<Rightarrow> bool"
  new_running :: nat
  messages :: "(bool \<times> nat) list"

fun add_loop :: "('r \<Rightarrow> easy_opts) \<Rightarrow> 'r list \<Rightarrow> nat \<Rightarrow> (nat \<Rightarrow> bool) \<Rightarrow> nat list \<Rightarrow> multi_state \<Rightarrow> multi_state" where
  "add_loop mk requests conc ok [] s = s\<lparr>ms_free := []\<rparr>"
| "add_loop mk requests conc ok (conn # free) s =
     (if ms_running s < conc \<and> ms_req s < length requests
      then add_loop mk requests conc ok free
        (s\<lparr>ms_progress := ms_progress s @ [(ms_req s, conn, mk (requests ! ms_req s))],
           ms_responses := (if ok (ms_req s) then ms_responses s
              else (ms_responses s)[ms_req s := Some (Inl (Runtime_Error ''Error adding easy handle to curl_multi.''))]),
           ms_req := Suc (ms_req s)\<rparr>)
      else s\<lparr>ms_free := conn # free\<rparr>)"

text \<open>One message: \<open>tr i\<close> is what the transfer of request \<open>i\<close> comes to, \<open>oper_type\<close> the name in error texts.\<close>

definition handle_message :: "string \<Rightarrow> (nat \<Rightarrow> transfer) \<Rightarrow> bool \<times> nat \<Rightarrow> multi_state \<Rightarrow> cpp_error + multi_state" where
  "handle_message oper_type tr m s =
     (if \<not> fst m then Inl (Runtime_Error ''Expected CURLMSG_DONE as status, but it was something else.'')
      else case find (\<lambda>op. fst (snd op) = snd m) (ms_progress s) of
        None \<Rightarrow> Inl (Runtime_Error ''Request finished, but cannot find matching record.'')
      | Some (i, h, opts) \<Rightarrow>
        Inr (s\<lparr>ms_progress := remove1 (i, h, opts) (ms_progress s),
               ms_responses := (ms_responses s)[i := Some (finish oper_type opts (tr i))],
               ms_free := h # ms_free s\<rparr>))"

fun handle_messages :: "string \<Rightarrow> (nat \<Rightarrow> transfer) \<Rightarrow> (bool \<times> nat) list \<Rightarrow> multi_state \<Rightarrow> cpp_error + multi_state" where
  "handle_messages oper_type tr [] s = Inr s"
| "handle_messages oper_type tr (m # ms) s =
     (case handle_message oper_type tr m s of Inl e \<Rightarrow> Inl e | Inr s' \<Rightarrow> handle_messages oper_type tr ms s')"

text \<open>The responses are unpacked at the end; the first error found is thrown.\<close>

fun real_responses :: "(cpp_error + response) option list \<Rightarrow> cpp_error + response option list" where
  "real_responses [] = Inr []"
| "real_responses (r # rs) =
     (case r of
        Some (Inl e) \<Rightarrow> Inl e
      | Some (Inr resp) \<Rightarrow> (case real_responses rs of Inl e \<Rightarrow> Inl e | Inr out \<Rightarrow> Inr (Some resp # out))
      | None \<Rightarrow> (case real_responses rs of Inl e \<Rightarrow> Inl e | Inr out \<Rightarrow> Inr (None # out)))"

text \<open>The loop over the rounds libcurl makes; \<open>Looping\<close> is the loop that has not ended after them.\<close>

datatype multi_outcome = Looping multi_state | Ended "cpp_error + response option list"

fun multi_loop :: "('r \<Rightarrow> easy_opts) \<Rightarrow> string \<Rightarrow> (nat \<Rightarrow> transfer) \<Rightarrow> 'r list \<Rightarrow> nat \<Rightarrow> curl_round list \<Rightarrow> multi_state \<Rightarrow>
    multi_outcome" where
  "multi_loop mk oper_type tr requests conc [] s = Looping s"
| "multi_loop mk oper_type tr requests conc (r # rs) s =
     (case handle_messages oper_type tr (messages r) (add_loop mk requests conc (add_ok r) (ms_free s) s) of
        Inl e \<Rightarrow> Ended (Inl e)
      | Inr s1 \<Rightarrow>
        (let s2 = s1\<lparr>ms_running := new_running r\<rparr> in
         if ms_running s2 = 0 \<and> ms_req s2 = length requests then Ended (real_responses (ms_responses s2))
         else multi_loop mk oper_type tr requests conc rs s2))"

text \<open>
  The handles: the given connection is handle \<open>0\<close>, new ones follow until there are as many as the
  concurrency. \<open>init_ok\<close> tells whether the multi handle and then every easy handle could be made.
\<close>

definition multi_handles :: "nat \<Rightarrow> bool \<Rightarrow> nat list" where
  "multi_handles conc given = rev [0..<max conc (if given then 1 else 0)]"

definition do_multi_requests :: "('r \<Rightarrow> easy_opts) \<Rightarrow> string \<Rightarrow> (nat \<Rightarrow> transfer) \<Rightarrow> 'r list \<Rightarrow> nat \<Rightarrow> bool \<Rightarrow> bool \<times> bool \<Rightarrow>
    curl_round list \<Rightarrow> multi_outcome" where
  "do_multi_requests mk oper_type tr requests concurrency given init_ok rounds =
     (let conc = min concurrency (length requests);
          handles = multi_handles conc given
      in if \<not> fst init_ok then Ended (Inl (Runtime_Error ''Cannot set up the cURL::multi system.''))
         else if \<not> snd init_ok \<and> length handles > (if given then 1 else 0) then Ended (Inl (Runtime_Error ''Cannot set up a cURL connection.''))
         else multi_loop mk oper_type tr requests conc rounds
           \<lparr>ms_responses = replicate (length requests) None, ms_free = handles, ms_progress = [], ms_req = 0, ms_running = 0\<rparr>)"

text \<open>The functors that make an operation of a request, on a handle in its initial state.\<close>

definition mk_request_single :: "string list \<Rightarrow> bool \<Rightarrow> string \<times> string \<Rightarrow> easy_opts" where
  "mk_request_single headers keepHeaders req =
     curl_post_single (curl_oper_opts easy_reset (fst req) headers keepHeaders) (mk_part (snd req) (int (length (snd req))))"

definition mk_request_form :: "string list \<Rightarrow> bool \<Rightarrow> bool \<Rightarrow> string \<times> part list \<Rightarrow> easy_opts" where
  "mk_request_form headers keepHeaders submit req =
     curl_post_form (curl_oper_opts easy_reset (fst req) headers keepHeaders) (snd req) submit"

definition mk_request_get :: "string list \<Rightarrow> bool \<Rightarrow> string \<Rightarrow> easy_opts" where
  "mk_request_get headers keepHeaders url = curl_get (curl_oper_opts easy_reset url headers keepHeaders) 0 0"

definition multiGet :: "string list \<Rightarrow> nat \<Rightarrow> bool \<Rightarrow> string list \<Rightarrow> bool \<Rightarrow> (nat \<Rightarrow> transfer) \<Rightarrow> bool \<times> bool \<Rightarrow> curl_round list \<Rightarrow> multi_outcome" where
  "multiGet urls concurrency given headers keepHeaders tr =
     do_multi_requests (mk_request_get headers keepHeaders) ''GET'' tr urls concurrency given"

definition multiPost :: "(string \<times> string) list \<Rightarrow> nat \<Rightarrow> bool \<Rightarrow> string list \<Rightarrow> bool \<Rightarrow> (nat \<Rightarrow> transfer) \<Rightarrow> bool \<times> bool \<Rightarrow> curl_round list \<Rightarrow>
    multi_outcome" where
  "multiPost requests concurrency given headers keepHeaders tr =
     do_multi_requests (mk_request_single headers keepHeaders) ''POST'' tr requests concurrency given"

definition multiPostForm :: "(string \<times> part list) list \<Rightarrow> nat \<Rightarrow> bool \<Rightarrow> string list \<Rightarrow> bool \<Rightarrow> bool \<Rightarrow> (nat \<Rightarrow> transfer) \<Rightarrow> bool \<times> bool \<Rightarrow>
    curl_round list \<Rightarrow> multi_outcome" where
  "multiPostForm requests concurrency given headers keepHeaders submit tr =
     do_multi_requests (mk_request_form headers keepHeaders submit) ''POST'' tr requests concurrency given"

end
