(* ===== verification/Http_Client_Props.thy ===== *)
theory Http_Client_Props
  imports Http_Client
begin

text \<open>
  Properties of the HTTP client: an upload sends exactly its part, a persistent connection is clean
  before each use, and the loop over several transfers answers every request once, in order, and ends,
  if libcurl keeps its contract; without a connection it never ends.
\<close>

subsection \<open>Uploads\<close>

definition wf_part :: "part \<Rightarrow> bool" where
  "wf_part p \<longleftrightarrow> part_size p = int (length (part_data p)) \<and> 0 \<le> position p \<and> position p \<le> part_size p"

lemma read_callback_wf:
  assumes "wf_part p" "1 \<le> n"
  shows "\<exists>bs p'. read_callback n p = Inr (bs, p') \<and> wf_part p' \<and> part_data p' = part_data p \<and>
    drop (nat (position p)) (part_data p) = bs @ drop (nat (position p')) (part_data p) \<and>
    position p' = min (position p + n) (part_size p)"
proof (cases "position p < part_size p")
  case True
  define m where "m = (if position p + n > part_size p then part_size p - position p else n)"
  have m: "0 < m" "position p + m \<le> part_size p" "position p + m = min (position p + n) (part_size p)"
    using True assms(2) by (auto simp: m_def)
  have "nat (position p + m) = nat m + nat (position p)"
    using m(1) assms(1) by (simp add: wf_part_def nat_add_distrib)
  then have "drop (nat (position p)) (part_data p) =
      take (nat m) (drop (nat (position p)) (part_data p)) @ drop (nat (position p + m)) (part_data p)"
    by (metis append_take_drop_id drop_drop)
  moreover have "read_callback n p =
      Inr (take (nat m) (drop (nat (position p)) (part_data p)), p\<lparr>position := position p + m\<rparr>)"
    using True assms m unfolding read_callback_def m_def [symmetric] Let_def by (simp add: memcpy_from_def wf_part_def)
  ultimately show ?thesis using m assms(1) by (auto simp: wf_part_def)
next
  case False
  then show ?thesis using assms by (auto simp: read_callback_def wf_part_def)
qed

lemma upload_wf:
  assumes "wf_part p" "\<forall>n \<in> set ns. 1 \<le> n"
  shows "\<exists>bs p'. upload ns p = Inr (bs, p') \<and> wf_part p' \<and> part_data p' = part_data p \<and>
    drop (nat (position p)) (part_data p) = bs @ drop (nat (position p')) (part_data p) \<and>
    position p' = min (position p + sum_list ns) (part_size p)"
  using assms
proof (induction ns arbitrary: p)
  case Nil
  then show ?case by (auto simp: wf_part_def)
next
  case (Cons n ns)
  obtain bs p1 where r: "read_callback n p = Inr (bs, p1)" "wf_part p1" "part_data p1 = part_data p"
      "drop (nat (position p)) (part_data p) = bs @ drop (nat (position p1)) (part_data p)"
      "position p1 = min (position p + n) (part_size p)"
    using read_callback_wf [OF Cons.prems(1), of n] Cons.prems(2) by auto
  obtain cs p2 where u: "upload ns p1 = Inr (cs, p2)" "wf_part p2" "part_data p2 = part_data p1"
      "drop (nat (position p1)) (part_data p1) = cs @ drop (nat (position p2)) (part_data p1)"
      "position p2 = min (position p1 + sum_list ns) (part_size p1)"
    using Cons.IH [OF r(2)] Cons.prems(2) by auto
  have "0 \<le> sum_list ns" using Cons.prems(2) by (intro sum_list_nonneg) auto
  moreover have "part_size p1 = part_size p" using r(2,3) Cons.prems(1) by (simp add: wf_part_def)
  ultimately have "position p2 = min (position p + sum_list (n # ns)) (part_size p)" using u(5) r(5) by auto
  then show ?case using r u by auto
qed

text \<open>
  However libcurl sizes its buffers, an upload sends exactly the bytes of the part, in order and once, when the
  buffers have room for them, and leaves the part at its end.
\<close>

theorem upload_exact:
  assumes "wf_part p" "position p = 0" "\<forall>n \<in> set ns. 1 \<le> n" "part_size p \<le> sum_list ns"
  shows "upload ns p = Inr (part_data p, p\<lparr>position := part_size p\<rparr>)"
proof -
  obtain bs p' where u: "upload ns p = Inr (bs, p')" "position p' = part_size p"
      "part_data p = bs @ drop (nat (part_size p)) (part_data p)"
    using upload_wf [OF assms(1,3)] assms(2,4) by (auto simp: min.absorb2)
  have "p' = p\<lparr>position := position p'\<rparr>" if "upload ns p = Inr (bs, p')" for ns bs p' and p :: part
    using that
  proof (induction ns arbitrary: p bs)
    case (Cons n ns)
    then show ?case
      by (fastforce simp: read_callback_def Let_def split: sum.splits if_splits prod.splits)
  qed simp
  from this [OF u(1)] show ?thesis using u assms(1) by (simp add: wf_part_def)
qed

theorem upload_exact_witness:
  "upload [2, 1, 16] (mk_part ''tile!'' 5) = Inr (''tile!'', (mk_part ''tile!'' 5)\<lparr>position := 5\<rparr>)"
  using upload_exact [of "mk_part ''tile!'' 5" "[2, 1, 16]"] by (simp add: mk_part_def wf_part_def)

subsection \<open>Single requests\<close>

text \<open>A handle that is reused is as good as a new one, and is left clean.\<close>

lemma get_clean: "snd (http_get lib url (Some easy_reset) hs k t w) =
    (Some easy_reset, snd (snd (http_get lib url (Some easy_reset) hs k t w)))"
  by (simp add: http_get_def perform_oper_def curl_oper_def oper_done_def split: prod.splits)

lemma get_reused_as_new:
  assumes "easy_init lib w = (w, True)"
  shows "snd (snd (http_get lib url (Some easy_reset) hs k t w)) = snd (snd (http_get lib url None hs k t w))"
  using assms by (simp add: http_get_def perform_oper_def curl_oper_def createPersistentConnection_def split: prod.splits)

lemma finish_ok [simp]:
  "tr_status t = 0 \<Longrightarrow> finish n h t = Inr \<lparr>statusCode = tr_code t, timeStamp = tr_filetime t,
     resp_headers = (if o_keep_headers h then tr_lines t else []), body = concat (tr_chunks t)\<rparr>"
proof -
  have "fold write_callback cs r = r\<lparr>body := body r @ concat cs\<rparr>" for cs r
    by (induction cs arbitrary: r) (auto simp: write_callback_def)
  moreover have "fold header_callback ls r = r\<lparr>resp_headers := resp_headers r @ ls\<rparr>" for ls r
    by (induction ls arbitrary: r) (auto simp: header_callback_def)
  moreover have "fold discard_callback ls r = r" for ls r
    by (induction ls arbitrary: r) (auto simp: discard_callback_def)
  ultimately show "tr_status t = 0 \<Longrightarrow> ?thesis" by (simp add: finish_def new_response_def)
qed

text \<open>The time limit a caller asks for has no effect: every handle is performed with the default limit.\<close>

lemma get_timeout_ignored: "http_get lib url conn hs k t = http_get lib url conn hs k t'"
  by (simp add: http_get_def curl_get_def fun_eq_iff)

subsection \<open>Several transfers\<close>

text \<open>
  What libcurl promises of a round, given the operations in progress after requests were added: additions
  are accepted, its messages name different handles in progress, and the rest is running. Nothing need have
  finished in a round.
\<close>

definition curl_round_ok :: "multi_state \<Rightarrow> curl_round \<Rightarrow> bool" where
  "curl_round_ok s r \<longleftrightarrow> (\<forall>m \<in> set (messages r). fst m) \<and> distinct (map snd (messages r)) \<and>
     snd ` set (messages r) \<subseteq> (fst \<circ> snd) ` set (ms_progress s) \<and>
     new_running r + length (messages r) = length (ms_progress s)"

fun rounds_ok :: "('r \<Rightarrow> easy_opts) \<Rightarrow> string \<Rightarrow> (nat \<Rightarrow> transfer) \<Rightarrow> 'r list \<Rightarrow> nat \<Rightarrow> curl_round list \<Rightarrow> multi_state \<Rightarrow> bool" where
  "rounds_ok mk nm tr requests conc [] s \<longleftrightarrow> True"
| "rounds_ok mk nm tr requests conc (r # rs) s \<longleftrightarrow>
     (\<forall>i < length requests. add_ok r i) \<and>
     (let a = add_loop mk requests conc (add_ok r) (ms_free s) s in
      curl_round_ok a r \<and>
      (case handle_messages nm tr (messages r) a of
         Inl e \<Rightarrow> True
       | Inr s1 \<Rightarrow> rounds_ok mk nm tr requests conc rs (s1\<lparr>ms_running := new_running r\<rparr>)))"

definition answer :: "('r \<Rightarrow> easy_opts) \<Rightarrow> string \<Rightarrow> (nat \<Rightarrow> transfer) \<Rightarrow> 'r list \<Rightarrow> nat \<Rightarrow> cpp_error + response" where
  "answer mk nm tr requests i = finish nm (mk (requests ! i)) (tr i)"

text \<open>
  The invariant of the loop: every request taken so far is in progress on a handle of its own or has its answer;
  handles are free or busy, never both, and none is lost.
\<close>

definition multi_inv :: "('r \<Rightarrow> easy_opts) \<Rightarrow> string \<Rightarrow> (nat \<Rightarrow> transfer) \<Rightarrow> 'r list \<Rightarrow> nat \<Rightarrow> multi_state \<Rightarrow> bool" where
  "multi_inv mk nm tr requests k s \<longleftrightarrow>
     length (ms_responses s) = length requests \<and> ms_req s \<le> length requests \<and>
     distinct (map (fst \<circ> snd) (ms_progress s) @ ms_free s) \<and>
     length (ms_progress s) + length (ms_free s) = k \<and>
     (\<forall>(i, h, opts) \<in> set (ms_progress s). i < ms_req s \<and> opts = mk (requests ! i)) \<and>
     (\<forall>i < ms_req s. i \<notin> fst ` set (ms_progress s) \<longrightarrow> ms_responses s ! i = Some (answer mk nm tr requests i))"

lemma add_loop_inv:
  assumes "multi_inv mk nm tr requests k (s\<lparr>ms_free := free\<rparr>)" "\<forall>i < length requests. ok i"
  shows "multi_inv mk nm tr requests k (add_loop mk requests conc ok free s)"
  using assms(1)
proof (induction free arbitrary: s)
  case (Cons c free)
  let ?s = "s\<lparr>ms_progress := ms_progress s @ [(ms_req s, c, mk (requests ! ms_req s))], ms_req := Suc (ms_req s)\<rparr>"
  have "multi_inv mk nm tr requests k (?s\<lparr>ms_free := free\<rparr>)" if "ms_req s < length requests"
    using Cons.prems that by (auto simp: multi_inv_def less_Suc_eq)
  then show ?case using Cons.IH [of ?s] Cons.prems assms(2) by (simp split: if_splits)
qed simp

text \<open>What adding does to the counts: it takes requests from the front of the rest.\<close>

lemma add_loop_count:
  "length (ms_progress (add_loop mk requests conc ok free s)) + ms_req s =
     length (ms_progress s) + ms_req (add_loop mk requests conc ok free s)"
proof (induction mk requests conc ok free s rule: add_loop.induct)
  case (2 mk requests conc ok c free s)
  then show ?case by (cases "ms_running s < conc \<and> ms_req s < length requests") auto
qed simp

lemma find_handle:
  assumes "h \<in> (fst \<circ> snd) ` set ps"
  obtains i opts where "find (\<lambda>op. fst (snd op) = h) ps = Some (i, h, opts)" "(i, h, opts) \<in> set ps"
proof -
  obtain op where op: "op \<in> set ps" "fst (snd op) = h" using assms by auto
  then obtain op' where f: "find (\<lambda>op. fst (snd op) = h) ps = Some op'"
    by (metis (mono_tags, lifting) find_None_iff not_None_eq)
  from f obtain us vs where "ps = us @ op' # vs" "fst (snd op') = h" by (rule find_Some_split)
  moreover have "op' = (fst op', fst (snd op'), snd (snd op'))" by simp
  ultimately show ?thesis using that f by (metis in_set_conv_decomp)
qed

lemma handle_message_inv:
  assumes "multi_inv mk nm tr requests k s" "fst m" "snd m \<in> (fst \<circ> snd) ` set (ms_progress s)"
  shows "\<exists>s'. handle_message nm tr m s = Inr s' \<and> multi_inv mk nm tr requests k s' \<and> ms_req s' = ms_req s \<and>
    Suc (length (ms_progress s')) = length (ms_progress s) \<and>
    (fst \<circ> snd) ` set (ms_progress s') = (fst \<circ> snd) ` set (ms_progress s) - {snd m}"
proof -
  obtain i opts where f: "find (\<lambda>op. fst (snd op) = snd m) (ms_progress s) = Some (i, snd m, opts)"
      "(i, snd m, opts) \<in> set (ms_progress s)"
    using find_handle [OF assms(3)] by blast
  from f(2) obtain us vs where p: "ms_progress s = us @ (i, snd m, opts) # vs" "(i, snd m, opts) \<notin> set us"
    by (meson split_list_first)
  have r: "remove1 (i, snd m, opts) (ms_progress s) = us @ vs" using p by (simp add: remove1_append)
  have "handle_message nm tr m s = Inr (s\<lparr>ms_progress := us @ vs,
      ms_responses := (ms_responses s)[i := Some (finish nm opts (tr i))], ms_free := snd m # ms_free s\<rparr>)"
    using f(1) assms(2) r by (simp add: handle_message_def)
  moreover have "multi_inv mk nm tr requests k (s\<lparr>ms_progress := us @ vs,
      ms_responses := (ms_responses s)[i := Some (finish nm opts (tr i))], ms_free := snd m # ms_free s\<rparr>)"
    using assms(1) p(1) by (auto simp: multi_inv_def answer_def nth_list_update)
  moreover have "(fst \<circ> snd) ` set (us @ vs) = (fst \<circ> snd) ` set (ms_progress s) - {snd m}"
  proof -
    have "distinct (map (fst \<circ> snd) (ms_progress s))" using assms(1) by (simp add: multi_inv_def)
    then have "snd m \<notin> (fst \<circ> snd) ` set us \<union> (fst \<circ> snd) ` set vs" unfolding p(1) by simp
    then show ?thesis unfolding p(1) by (simp add: image_Un)
  qed
  ultimately show ?thesis using p(1) by auto
qed

lemma handle_messages_inv:
  assumes "multi_inv mk nm tr requests k s" "\<forall>m \<in> set ms. fst m" "distinct (map snd ms)"
    and "snd ` set ms \<subseteq> (fst \<circ> snd) ` set (ms_progress s)"
  shows "\<exists>s'. handle_messages nm tr ms s = Inr s' \<and> multi_inv mk nm tr requests k s' \<and> ms_req s' = ms_req s \<and>
    length (ms_progress s') + length ms = length (ms_progress s)"
  using assms
proof (induction ms arbitrary: s)
  case (Cons m ms)
  then obtain s1 where s1: "handle_message nm tr m s = Inr s1" "multi_inv mk nm tr requests k s1" "ms_req s1 = ms_req s"
      "Suc (length (ms_progress s1)) = length (ms_progress s)"
      "(fst \<circ> snd) ` set (ms_progress s1) = (fst \<circ> snd) ` set (ms_progress s) - {snd m}"
    using handle_message_inv [OF Cons.prems(1), of m] by auto
  have "snd ` set ms \<subseteq> (fst \<circ> snd) ` set (ms_progress s)" "snd m \<notin> snd ` set ms" using Cons.prems(3,4) by simp_all
  then have "snd ` set ms \<subseteq> (fst \<circ> snd) ` set (ms_progress s1)" unfolding s1(5) by blast
  then show ?case using Cons.IH [OF s1(2)] Cons.prems s1 by auto
qed simp

text \<open>One round keeps the invariant; what is left to do is less by the transfers it reports, none of them in an idle round.\<close>

lemma round_inv:
  assumes "multi_inv mk nm tr requests k s" "\<forall>i < length requests. add_ok r i"
    and "curl_round_ok (add_loop mk requests conc (add_ok r) (ms_free s) s) r"
  shows "\<exists>s1. handle_messages nm tr (messages r) (add_loop mk requests conc (add_ok r) (ms_free s) s) = Inr s1 \<and>
    multi_inv mk nm tr requests k s1 \<and> new_running r = length (ms_progress s1) \<and>
    length requests - ms_req s1 + length (ms_progress s1) + length (messages r) = length requests - ms_req s + length (ms_progress s)"
proof -
  let ?a = "add_loop mk requests conc (add_ok r) (ms_free s) s"
  have a: "multi_inv mk nm tr requests k ?a" using assms(1,2) by (intro add_loop_inv) simp_all
  obtain s1 where s1: "handle_messages nm tr (messages r) ?a = Inr s1" "multi_inv mk nm tr requests k s1" "ms_req s1 = ms_req ?a"
      "length (ms_progress s1) + length (messages r) = length (ms_progress ?a)"
    using handle_messages_inv [OF a, of "messages r"] assms(3) by (auto simp: curl_round_ok_def)
  have "new_running r = length (ms_progress s1)" using assms(3) s1(4) by (simp add: curl_round_ok_def)
  moreover have "length (ms_progress ?a) + ms_req s = length (ms_progress s) + ms_req ?a" by (rule add_loop_count)
  moreover have "ms_req ?a \<le> length requests" "ms_req s \<le> length requests" using a assms(1) by (auto simp: multi_inv_def)
  ultimately have "length requests - ms_req s1 + length (ms_progress s1) + length (messages r) =
      length requests - ms_req s + length (ms_progress s)"
    using s1(3,4) by linarith
  then show ?thesis using s1(1,2) \<open>new_running r = length (ms_progress s1)\<close> by blast
qed

lemma multi_loop_ends:
  assumes "multi_inv mk nm tr requests k s" "ms_running s = length (ms_progress s)"
    and "ms_running s \<noteq> 0 \<or> ms_req s < length requests" "rounds_ok mk nm tr requests conc rounds s"
    and "length requests - ms_req s + length (ms_progress s) \<le> length (concat (map messages rounds))"
  shows "multi_loop mk nm tr requests conc rounds s =
    Ended (real_responses (map (\<lambda>i. Some (answer mk nm tr requests i)) [0..<length requests]))"
  using assms
proof (induction rounds arbitrary: s)
  case Nil
  then have False by (simp; linarith)
  then show ?case ..
next
  case (Cons r rs)
  obtain s1 where s1: "handle_messages nm tr (messages r) (add_loop mk requests conc (add_ok r) (ms_free s) s) = Inr s1"
      "multi_inv mk nm tr requests k s1" "new_running r = length (ms_progress s1)"
      "length requests - ms_req s1 + length (ms_progress s1) + length (messages r) = length requests - ms_req s + length (ms_progress s)"
    using round_inv [OF Cons.prems(1), of r conc] Cons.prems(4) by (auto simp: Let_def)
  let ?s2 = "s1\<lparr>ms_running := new_running r\<rparr>"
  have i2: "multi_inv mk nm tr requests k ?s2" using s1(2) by (simp add: multi_inv_def)
  have ok: "rounds_ok mk nm tr requests conc rs ?s2" using Cons.prems(4) s1(1) by (simp add: Let_def)
  show ?case
  proof (cases "new_running r = 0 \<and> ms_req s1 = length requests")
    case True
    then have "ms_responses s1 = map (\<lambda>i. Some (answer mk nm tr requests i)) [0..<length requests]"
      using s1(2,3) by (intro nth_equalityI) (auto simp: multi_inv_def)
    then show ?thesis using s1(1) True by simp
  next
    case False
    then have "ms_running ?s2 \<noteq> 0 \<or> ms_req ?s2 < length requests" using s1(2) by (auto simp: multi_inv_def)
    then show ?thesis using Cons.IH [OF i2 _ _ ok] s1 False Cons.prems(5) by (auto simp: Let_def)
  qed
qed

lemma real_responses_map:
  "real_responses (map (\<lambda>i. Some (f i)) is) =
     (case find (\<lambda>i. \<exists>e. f i = Inl e) is of Some i \<Rightarrow> Inl (projl (f i)) | None \<Rightarrow> Inr (map (\<lambda>i. Some (projr (f i))) is))"
  by (induction "is") (auto split: sum.splits option.splits)

text \<open>
  C30. Several requests at a time: if libcurl accepts the handles, reports a transfer at most once and in the end as many
  as there are requests, in whatever rounds, with idle ones between them, then the loop ends, and its answers
  are in the order of the requests, each of its own transfer; the first failed transfer in that order is thrown.
\<close>

theorem multi_requests_in_order:
  assumes "requests \<noteq> []"
    and "rounds_ok mk nm tr requests (min concurrency (length requests)) rounds
      \<lparr>ms_responses = replicate (length requests) None,
       ms_free = multi_handles (min concurrency (length requests)) given, ms_progress = [], ms_req = 0, ms_running = 0\<rparr>"
    and "length requests \<le> length (concat (map messages rounds))"
  shows "case find (\<lambda>i. tr_status (tr i) \<noteq> 0) [0..<length requests] of
      Some i \<Rightarrow> \<exists>e. finish nm (mk (requests ! i)) (tr i) = Inl e \<and>
        do_multi_requests mk nm tr requests concurrency given (True, True) rounds = Ended (Inl e)
    | None \<Rightarrow> do_multi_requests mk nm tr requests concurrency given (True, True) rounds =
        Ended (Inr (map (\<lambda>i. Some \<lparr>statusCode = tr_code (tr i), timeStamp = tr_filetime (tr i),
          resp_headers = (if o_keep_headers (mk (requests ! i)) then tr_lines (tr i) else []),
          body = concat (tr_chunks (tr i))\<rparr>) [0..<length requests]))"
proof -
  let ?c = "min concurrency (length requests)" and ?n = "length requests"
  let ?s = "\<lparr>ms_responses = replicate ?n None, ms_free = multi_handles ?c given, ms_progress = [], ms_req = 0, ms_running = 0\<rparr>"
  let ?run = "do_multi_requests mk nm tr requests concurrency given (True, True) rounds"
  have "multi_inv mk nm tr requests (length (multi_handles ?c given)) ?s"
    by (simp add: multi_inv_def multi_handles_def)
  then have "multi_loop mk nm tr requests ?c rounds ?s =
      Ended (real_responses (map (\<lambda>i. Some (answer mk nm tr requests i)) [0..<?n]))"
    by (rule multi_loop_ends) (use assms in \<open>auto simp: multi_handles_def max_def\<close>)
  then have run: "?run = Ended (real_responses (map (\<lambda>i. Some (answer mk nm tr requests i)) [0..<?n]))"
    by (simp add: do_multi_requests_def Let_def)
  have failed: "(\<exists>e. answer mk nm tr requests i = Inl e) \<longleftrightarrow> tr_status (tr i) \<noteq> 0" for i
    by (simp add: answer_def finish_def Let_def)
  show ?thesis
  proof (cases "find (\<lambda>i. tr_status (tr i) \<noteq> 0) [0..<?n]")
    case None
    then have "\<forall>i < ?n. tr_status (tr i) = 0" by (auto simp: find_None_iff)
    then show ?thesis using run None unfolding real_responses_map failed by (simp add: answer_def)
  next
    case (Some i)
    then have "tr_status (tr i) \<noteq> 0" by (auto simp: find_Some_iff)
    then show ?thesis using run Some unfolding real_responses_map failed by (auto simp: answer_def finish_def Let_def)
  qed
qed

theorem multi_requests_in_order_witness:
  fixes t :: transfer
  defines "t \<equiv> \<lparr>tr_status = 0, tr_error = [], tr_chunks = [''a'', ''b''], tr_lines = [], tr_code = 200, tr_filetime = 9\<rparr>"
  shows "do_multi_requests (mk_request_get [] False) ''GET'' (\<lambda>i. t\<lparr>tr_filetime := int i\<rparr>) [''u0'', ''u1'', ''u2''] 2 False (True, True)
      [\<lparr>add_ok = (\<lambda>_. True), new_running = 2, messages = []\<rparr>,
       \<lparr>add_ok = (\<lambda>_. True), new_running = 1, messages = [(True, 0)]\<rparr>,
       \<lparr>add_ok = (\<lambda>_. True), new_running = 2, messages = []\<rparr>,
       \<lparr>add_ok = (\<lambda>_. True), new_running = 0, messages = [(True, 0), (True, 1)]\<rparr>] =
    Ended (Inr [Some \<lparr>statusCode = 200, timeStamp = 0, resp_headers = [], body = ''ab''\<rparr>,
      Some \<lparr>statusCode = 200, timeStamp = 1, resp_headers = [], body = ''ab''\<rparr>,
      Some \<lparr>statusCode = 200, timeStamp = 2, resp_headers = [], body = ''ab''\<rparr>])"
  using multi_requests_in_order [of "[''u0'', ''u1'', ''u2'']" "mk_request_get [] False" "''GET''" "\<lambda>i. t\<lparr>tr_filetime := int i\<rparr>" 2
    "[\<lparr>add_ok = (\<lambda>_. True), new_running = 2, messages = []\<rparr>,
      \<lparr>add_ok = (\<lambda>_. True), new_running = 1, messages = [(True, 0)]\<rparr>,
      \<lparr>add_ok = (\<lambda>_. True), new_running = 2, messages = []\<rparr>,
      \<lparr>add_ok = (\<lambda>_. True), new_running = 0, messages = [(True, 0), (True, 1)]\<rparr>]" False]
  by (simp add: multi_handles_def curl_round_ok_def handle_message_def t_def upt_rec numeral_2_eq_2 mk_request_get_def
      curl_oper_opts_def easy_reset_def curl_get_def)

text \<open>Without a connection, nothing is ever started: the loop never ends, whatever libcurl reports.\<close>

lemma multi_requests_hang:
  assumes "requests \<noteq> []" "\<forall>r \<in> set rounds. messages r = []"
  shows "\<exists>s. do_multi_requests mk nm tr requests 0 False (True, True) rounds = Looping s"
proof -
  have "\<exists>s'. multi_loop mk nm tr requests 0 rounds s = Looping s'" if "ms_free s = []" "ms_req s = 0" for s
    using assms(2) that
  proof (induction rounds arbitrary: s)
    case (Cons r rs)
    then show ?case using Cons.IH [of "s\<lparr>ms_free := [], ms_running := new_running r\<rparr>"] assms(1) by (simp add: Let_def)
  qed simp
  then show ?thesis by (simp add: do_multi_requests_def multi_handles_def)
qed

text \<open>A handle that libcurl refuses is lost: with one connection, the requests after the refused one are never sent.\<close>

lemma multi_refused_hang:
  assumes "2 \<le> length requests" "\<forall>r \<in> set rounds. messages r = [] \<and> new_running r = 0 \<and> \<not> add_ok r 0"
  shows "\<exists>s. do_multi_requests mk nm tr requests 1 False (True, True) rounds = Looping s"
proof -
  have stuck: "\<exists>s'. multi_loop mk nm tr requests 1 rs s = Looping s'"
    if "\<forall>r \<in> set rs. messages r = []" "ms_free s = []" "ms_req s = 1" for s rs
    using that
  proof (induction rs arbitrary: s)
    case (Cons r rs)
    then show ?case using Cons.IH [of "s\<lparr>ms_free := [], ms_running := new_running r\<rparr>"] assms(1) by (simp add: Let_def)
  qed simp
  show ?thesis
  proof (cases rounds)
    case (Cons r rs)
    then have "\<forall>r \<in> set rs. messages r = []" "requests \<noteq> []" using assms by auto
    then show ?thesis using assms Cons stuck [of rs] by (simp add: do_multi_requests_def multi_handles_def Let_def)
  qed (use assms in \<open>simp add: do_multi_requests_def multi_handles_def Let_def\<close>)
qed

end
