(* ===== verification/Http_Storage.thy ===== *)
theory Http_Storage
  imports Http_Client Http_Date Storage Meta_Tile
begin

text \<open>
  Storages behind HTTP servers: what they share (\<^verbatim>\<open>storage/http_storage.cpp\<close>), which is the handle of a tile, the requests for
  all tiles of a metatile one after the other or several at a time, and the reassembly of a metatile; and the
  read-only storage \<^verbatim>\<open>storage/simple_http_storage.cpp\<close>. libcurl and the servers behind it are the parameter
  \<open>lib\<close>, which acts on a world \<open>'w\<close>.
\<close>

subsection \<open>Several requests as a call\<close>

text \<open>What libcurl makes of a group of requests: the transfers, whether handles could be made, and the rounds of the loop.\<close>

record multi_env =
  me_transfers :: "nat \<Rightarrow> transfer"
  me_init :: "bool \<times> bool"
  me_rounds :: "curl_round list"

record 'w http_lib = "'w curl" +
  multi_perform :: "easy_opts list \<Rightarrow> nat \<Rightarrow> 'w \<Rightarrow> 'w \<times> multi_env"
  clock :: "'w \<Rightarrow> int"

definition multi_result :: "multi_outcome \<Rightarrow> cpp_error + response option list" where
  "multi_result r = (case r of Looping _ \<Rightarrow> Inl No_Return | Ended x \<Rightarrow> x)"

definition call_multiGet :: "'w http_lib \<Rightarrow> string list \<Rightarrow> nat \<Rightarrow> connection \<Rightarrow> string list \<Rightarrow> 'w \<Rightarrow>
    'w \<times> (cpp_error + response option list)" where
  "call_multiGet lib urls concurrency conn headers w =
     (case multi_perform lib (map (mk_request_get headers False) urls) concurrency w of
        (w', e) \<Rightarrow> (w', multi_result (multiGet urls concurrency (conn \<noteq> None) headers False (me_transfers e) (me_init e) (me_rounds e))))"

definition call_multiPostForm :: "'w http_lib \<Rightarrow> (string \<times> part list) list \<Rightarrow> nat \<Rightarrow> connection \<Rightarrow> string list \<Rightarrow> 'w \<Rightarrow>
    'w \<times> (cpp_error + response option list)" where
  "call_multiPostForm lib requests concurrency conn headers w =
     (case multi_perform lib (map (mk_request_form headers False False) requests) concurrency w of
        (w', e) \<Rightarrow> (w', multi_result
           (multiPostForm requests concurrency (conn \<noteq> None) headers False False (me_transfers e) (me_init e) (me_rounds e))))"

subsection \<open>Handles\<close>

definition INVALID_TIMESTAMP :: int where
  "INVALID_TIMESTAMP = 0"

definition http_handle :: "response \<Rightarrow> handle" where
  "http_handle r =
     \<lparr>h_exists = (statusCode r = 200), h_last_modified = timeStamp r,
      h_data = (if statusCode r = 200 then Some (body r) else None),
      h_expired = (timeStamp r = INVALID_TIMESTAMP \<or> statusCode r \<noteq> 200)\<rparr>"

text \<open>A response that counts for a metatile: found and not marked as dirty.\<close>

definition good_response :: "response \<Rightarrow> bool" where
  "good_response r \<longleftrightarrow> statusCode r = 200 \<and> timeStamp r \<noteq> INVALID_TIMESTAMP"

definition make_headers :: "int option \<Rightarrow> string list \<Rightarrow> string list" where
  "make_headers lm extra =
     (case lm of Some t \<Rightarrow> [''Last-Modified: '' @ http_date_formatter t] | None \<Rightarrow> []) @ [''Expect:''] @ extra"

subsection \<open>Writing\<close>

text \<open>The responses are looked at one by one; a null pointer among them is dereferenced.\<close>

fun check_responses :: "(response \<Rightarrow> bool) \<Rightarrow> response option list \<Rightarrow> bool \<Rightarrow> cpp_error + bool" where
  "check_responses ok [] acc = Inr acc"
| "check_responses ok (None # rs) acc = Inl Undefined_Behaviour"
| "check_responses ok (Some r # rs) acc = check_responses ok rs (acc \<and> ok r)"

definition put_meta_parallel :: "'w http_lib \<Rightarrow> nat \<Rightarrow> connection \<Rightarrow> (string \<times> part list) list \<Rightarrow> string list \<Rightarrow> 'w \<Rightarrow>
    'w \<times> (cpp_error + bool)" where
  "put_meta_parallel lib concurrency conn requests headers w =
     (case call_multiPostForm lib requests concurrency conn headers w of
        (w', Inl (Runtime_Error m)) \<Rightarrow> (w', Inr False)
      | (w', Inl e) \<Rightarrow> (w', Inl e)
      | (w', Inr responses) \<Rightarrow> (w', check_responses (\<lambda>r. statusCode r = 200) responses True))"

fun put_meta_serial :: "'w http_lib \<Rightarrow> connection \<Rightarrow> (string \<times> part list) list \<Rightarrow> string list \<Rightarrow> 'w \<Rightarrow> 'w \<times> (cpp_error + bool)" where
  "put_meta_serial lib conn [] headers w = (w, Inr True)"
| "put_meta_serial lib conn (request # requests) headers w =
     (case postForm lib (fst request) (snd request) conn headers False False w of
        (w', conn', Inl (Runtime_Error m)) \<Rightarrow> (w', Inr False)
      | (w', conn', Inl e) \<Rightarrow> (w', Inl e)
      | (w', conn', Inr response) \<Rightarrow>
        if statusCode response \<noteq> 200 then (w', Inr False) else put_meta_serial lib conn' requests headers w')"

definition put_requests :: "'w http_lib \<Rightarrow> nat \<Rightarrow> connection \<Rightarrow> (string \<times> part list) list \<Rightarrow> string list \<Rightarrow> 'w \<Rightarrow> 'w \<times> (cpp_error + bool)" where
  "put_requests lib concurrency conn requests headers w =
     (if concurrency < 2 then put_meta_serial lib conn requests headers w
      else put_meta_parallel lib concurrency conn requests headers w)"

text \<open>\<^verbatim>\<open>http_storage::put_meta\<close>, with the requests and \<^verbatim>\<open>expire\<close> of the derived class; the result of the expiry is not looked at.\<close>

definition http_put_meta :: "'w http_lib \<Rightarrow> nat \<Rightarrow> connection \<Rightarrow> (string \<times> part list) list \<Rightarrow> ('w \<Rightarrow> 'w \<times> (cpp_error + bool)) \<Rightarrow> 'w \<Rightarrow>
    'w \<times> (cpp_error + bool)" where
  "http_put_meta lib concurrency conn requests expire w =
     (case put_requests lib concurrency conn requests (make_headers (Some (clock lib w)) []) w of
        (w1, Inr False) \<Rightarrow> (case expire w1 of (w2, Inl e) \<Rightarrow> (w2, Inl e) | (w2, Inr _) \<Rightarrow> (w2, Inr False))
      | r \<Rightarrow> r)"

subsection \<open>Reading\<close>

definition get_meta_parallel :: "'w http_lib \<Rightarrow> nat \<Rightarrow> connection \<Rightarrow> string list \<Rightarrow> string list \<Rightarrow> 'w \<Rightarrow>
    'w \<times> (cpp_error + (bool \<times> response list))" where
  "get_meta_parallel lib concurrency conn requests headers w =
     (case call_multiGet lib requests concurrency conn headers w of
        (w', Inl (Runtime_Error m)) \<Rightarrow> (w', Inr (False, []))
      | (w', Inl e) \<Rightarrow> (w', Inl e)
      | (w', Inr responses) \<Rightarrow>
        (w', (case check_responses good_response responses True of
                Inl e \<Rightarrow> Inl e
              | Inr rc \<Rightarrow> Inr (rc, map the responses))))"

text \<open>One after the other up to the first that is not good, which is kept as well.\<close>

fun get_meta_serial :: "'w http_lib \<Rightarrow> connection \<Rightarrow> string list \<Rightarrow> string list \<Rightarrow> 'w \<Rightarrow> 'w \<times> (cpp_error + (bool \<times> response list))" where
  "get_meta_serial lib conn [] headers w = (w, Inr (True, []))"
| "get_meta_serial lib conn (request # requests) headers w =
     (case http_get lib request conn headers False 0 w of
        (w', conn', Inl (Runtime_Error m)) \<Rightarrow> (w', Inr (False, []))
      | (w', conn', Inl e) \<Rightarrow> (w', Inl e)
      | (w', conn', Inr response) \<Rightarrow>
        if \<not> good_response response then (w', Inr (False, [response]))
        else (case get_meta_serial lib conn' requests headers w' of
                (w'', Inl e) \<Rightarrow> (w'', Inl e)
              | (w'', Inr (rc, rs)) \<Rightarrow> (w'', Inr (rc, response # rs))))"

definition get_requests :: "'w http_lib \<Rightarrow> nat \<Rightarrow> connection \<Rightarrow> string list \<Rightarrow> string list \<Rightarrow> 'w \<Rightarrow> 'w \<times> (cpp_error + (bool \<times> response list))" where
  "get_requests lib concurrency conn requests headers w =
     (if concurrency < 2 then get_meta_serial lib conn requests headers w
      else get_meta_parallel lib concurrency conn requests headers w)"

text \<open>
  \<^verbatim>\<open>make_metatile\<close>: the sizes of the tiles in the order of the table, where only the places inside the metatile's dimension take
  the next response. There is no check that there is one; the loop reads behind the end of the vector.
\<close>

definition meta_cells :: "(int \<times> int) list" where
  "meta_cells = [(x, y). y \<leftarrow> [0..7], x \<leftarrow> [0..7]]"

fun cell_sizes :: "int \<Rightarrow> (int \<times> int) list \<Rightarrow> response list \<Rightarrow> cpp_error + (int list \<times> response list)" where
  "cell_sizes dim [] rs = Inr ([], rs)"
| "cell_sizes dim ((x, y) # cells) rs =
     (if x < dim \<and> y < dim then
        (case rs of
           [] \<Rightarrow> Inl Undefined_Behaviour
         | r # rs' \<Rightarrow> (case cell_sizes dim cells rs' of
              Inl e \<Rightarrow> Inl e
            | Inr (sizes, rest) \<Rightarrow> Inr (trunc32 (int (length (body r))) # sizes, rest)))
      else (case cell_sizes dim cells rs of Inl e \<Rightarrow> Inl e | Inr (sizes, rest) \<Rightarrow> Inr (0 # sizes, rest)))"

definition make_metatile :: "tile_protocol \<Rightarrow> response list \<Rightarrow> cpp_error + string" where
  "make_metatile tile responses =
     (let formats = get_formats_vec (format tile); coord = xy_to_meta_xy (tp_x tile) (tp_y tile) in
      case get_meta_dimensions (tp_z tile) METATILE of
        Inl e \<Rightarrow> Inl e
      | Inr dim \<Rightarrow>
        (case cell_sizes dim (concat (replicate (length formats) meta_cells)) responses of
           Inl e \<Rightarrow> Inl e
         | Inr (sizes, _) \<Rightarrow>
           (case write_headers (fst coord) (snd coord) (tp_z tile) formats sizes of
              Inl e \<Rightarrow> Inl e
            | Inr header \<Rightarrow> Inr (header @ concat (map body responses)))))"

text \<open>\<^verbatim>\<open>http_storage::get_meta\<close>: the metatile is made in any case, and dropped when a response was not good.\<close>

definition http_get_meta :: "'w http_lib \<Rightarrow> nat \<Rightarrow> connection \<Rightarrow> (tile_protocol \<Rightarrow> string list) \<Rightarrow> tile_protocol \<Rightarrow> 'w \<Rightarrow>
    'w \<times> (cpp_error + string option)" where
  "http_get_meta lib concurrency conn make_get_requests tile w =
     (case get_requests lib concurrency conn (make_get_requests tile) (make_headers None []) w of
        (w', Inl e) \<Rightarrow> (w', Inl e)
      | (w', Inr (rc, responses)) \<Rightarrow>
        (w', (case make_metatile tile responses of
                Inl e \<Rightarrow> Inl e
              | Inr metatile \<Rightarrow> Inr (if rc then Some metatile else None))))"

subsection \<open>A read-only server\<close>

text \<open>The configured format with the style and the three numbers in place is what Boost makes of it, a parameter.\<close>

record simple_http =
  m_format :: string
  boost_format :: "string \<Rightarrow> string \<Rightarrow> int \<Rightarrow> int \<Rightarrow> int \<Rightarrow> string"

definition create_simple_http_storage :: "(string \<Rightarrow> string \<Rightarrow> int \<Rightarrow> int \<Rightarrow> int \<Rightarrow> string) \<Rightarrow> string option \<Rightarrow> simple_http option" where
  "create_simple_http_storage fmt url = (case url of Some u \<Rightarrow> Some \<lparr>m_format = u, boost_format = fmt\<rparr> | None \<Rightarrow> None)"

definition make_url :: "simple_http \<Rightarrow> string \<Rightarrow> int \<Rightarrow> int \<Rightarrow> int \<Rightarrow> string" where
  "make_url st sty z x y = boost_format st (m_format st) sty z x y"

text \<open>The world of this storage holds its persistent connection as well.\<close>

definition simple_get :: "'w http_lib \<Rightarrow> simple_http \<Rightarrow> tile_protocol \<Rightarrow> 'w \<times> connection \<Rightarrow> ('w \<times> connection) \<times> (cpp_error + handle)" where
  "simple_get lib st tile s =
     (case http_get lib (make_url st (style tile) (tp_z tile) (tp_x tile) (tp_y tile)) (snd s) [] False 0 (fst s) of
        (w, conn, Inl e) \<Rightarrow> ((w, conn), Inl e)
      | (w, conn, Inr response) \<Rightarrow>
        ((w, conn), Inr (if statusCode response = 200 then http_handle response else null_handle)))"

text \<open>
  The loops of \<^verbatim>\<open>get_meta\<close>: the tiles of one format after the other. The cells to fetch are \<open>(x, y)\<close> with \<open>y\<close> from the first component
  of the corner and \<open>x\<close> from the second, as the code has it.
\<close>

definition simple_cells :: "int \<times> int \<Rightarrow> int \<Rightarrow> (int \<times> int) list" where
  "simple_cells coord n = [(x, y). y \<leftarrow> [fst coord..fst coord + n - 1], x \<leftarrow> [snd coord..snd coord + n - 1]]"

fun simple_fetch :: "'w http_lib \<Rightarrow> simple_http \<Rightarrow> tile_protocol \<Rightarrow> (int \<times> int) list \<Rightarrow> 'w \<times> connection \<Rightarrow>
    ('w \<times> connection) \<times> (cpp_error + string list option)" where
  "simple_fetch lib st tile [] s = (s, Inr (Some []))"
| "simple_fetch lib st tile ((x, y) # cells) s =
     (case http_get lib (make_url st (style tile) (tp_z tile) x y) (snd s) [] False 0 (fst s) of
        (w, conn, Inl (Runtime_Error m)) \<Rightarrow> ((w, conn), Inr None)
      | (w, conn, Inl e) \<Rightarrow> ((w, conn), Inl e)
      | (w, conn, Inr response) \<Rightarrow>
        if \<not> good_response response then ((w, conn), Inr None)
        else (case simple_fetch lib st tile cells (w, conn) of
                (s', Inr (Some bodies)) \<Rightarrow> (s', Inr (Some (body response # bodies)))
              | r \<Rightarrow> r))"

text \<open>The sizes fill the table from its start, whatever the width of the metatile.\<close>

definition simple_get_meta :: "'w http_lib \<Rightarrow> simple_http \<Rightarrow> tile_protocol \<Rightarrow> 'w \<times> connection \<Rightarrow>
    ('w \<times> connection) \<times> (cpp_error + string option)" where
  "simple_get_meta lib st tile s =
     (let coord = xy_to_meta_xy (tp_x tile) (tp_y tile); formats = get_formats_vec (format tile) in
      case get_meta_dimensions (tp_z tile) METATILE of
        Inl e \<Rightarrow> (s, Inl e)
      | Inr n \<Rightarrow>
        (case simple_fetch lib st tile (concat (replicate (length formats) (simple_cells coord n))) s of
           (s', Inl e) \<Rightarrow> (s', Inl e)
         | (s', Inr None) \<Rightarrow> (s', Inr None)
         | (s', Inr (Some bodies)) \<Rightarrow>
           (let sizes = map (\<lambda>b. trunc32 (int (length b))) bodies @ replicate (length formats * 64 - length bodies) 0 in
            (s', (case write_headers (fst coord) (snd coord) (tp_z tile) formats sizes of
                    Inl e \<Rightarrow> Inl e
                  | Inr header \<Rightarrow> Inr (Some (header @ concat bodies @ [CHR 0x00])))))))"

definition simple_http_storage :: "'w http_lib \<Rightarrow> simple_http \<Rightarrow> ('w \<times> connection) tile_storage" where
  "simple_http_storage lib st = \<lparr>st_get = simple_get lib st, st_get_meta = simple_get_meta lib st,
     st_put_meta = (\<lambda>tile buf s. (s, Inr False)), st_expire = (\<lambda>tile s. (s, Inr False))\<rparr>"

end
