(* ===== verification/Http_Storage_Props.thy ===== *)
theory Http_Storage_Props
  imports Http_Storage Http_Client_Props Meta_Tile_Props
begin

text \<open>
  The read-only storage: what \<^verbatim>\<open>simple_http_storage::get_meta\<close> returns for a server that has every tile. Rows and columns of the
  corner are mixed up.
\<close>

text \<open>A server that answers every request with the tile \<open>B\<close> has for the address.\<close>

definition serves_all :: "'w http_lib \<Rightarrow> (string \<Rightarrow> string) \<Rightarrow> bool" where
  "serves_all lib B \<longleftrightarrow> (\<forall>w opts. o_method opts = Http_Get \<longrightarrow>
     (\<exists>t. easy_perform lib opts w = (w, t) \<and> tr_status t = 0 \<and> tr_code t = 200 \<and> tr_filetime t \<noteq> 0 \<and> concat (tr_chunks t) = B (o_url opts)))"

lemma get_served:
  assumes "serves_all lib B"
  shows "\<exists>tt. http_get lib url (Some easy_reset) [] False 0 w =
    (w, Some easy_reset, Inr \<lparr>statusCode = 200, timeStamp = tt, resp_headers = [], body = B url\<rparr>) \<and> tt \<noteq> 0"
proof -
  let ?o = "curl_get (curl_oper_opts easy_reset url [] False) (nat 0) 0"
  have o: "o_method ?o = Http_Get" "o_url ?o = url" "\<not> o_keep_headers ?o" by (simp_all add: curl_get_def curl_oper_opts_def)
  obtain t where "easy_perform lib ?o w = (w, t)" "tr_status t = 0" "tr_code t = 200" "tr_filetime t \<noteq> 0" "concat (tr_chunks t) = B url"
    using assms o(1,2) unfolding serves_all_def by metis
  then show ?thesis using o(3) by (simp add: http_get_def perform_oper_def curl_oper_def oper_done_def)
qed

lemma simple_fetch_served:
  assumes "serves_all lib B"
  shows "simple_fetch lib st tile cells (w, Some easy_reset) =
    ((w, Some easy_reset), Inr (Some (map (\<lambda>(x, y). B (make_url st (style tile) (tp_z tile) x y)) cells)))"
proof (induction cells)
  case (Cons c cells)
  obtain x y where c: "c = (x, y)" by (meson surj_pair)
  obtain tt where "http_get lib (make_url st (style tile) (tp_z tile) x y) (Some easy_reset) [] False 0 w =
      (w, Some easy_reset, Inr \<lparr>statusCode = 200, timeStamp = tt, resp_headers = [], body = B (make_url st (style tile) (tp_z tile) x y)\<rparr>)" "tt \<noteq> 0"
    using get_served [OF assms] by blast
  then show ?case using Cons c by (simp add: good_response_def INVALID_TIMESTAMP_def)
qed simp

lemma simple_cells_nth:
  assumes "j < 64"
  shows "length (simple_cells (a, b) 8) = 64" "simple_cells (a, b) 8 ! j = (b + int j mod 8, a + int j div 8)"
proof -
  have "[k..k + 8 - 1] = map (\<lambda>i. k + i) [0..7]" for k :: int
    by (simp add: upto_rec1)
  moreover have "[(x, y). y \<leftarrow> map (\<lambda>i. a + i) [0..7], x \<leftarrow> map (\<lambda>i. b + i) [0..7]] = map (\<lambda>j. (b + int j mod 8, a + int j div 8)) [0..<64]"
    by (simp add: upt_rec upto_rec1)
  ultimately have "simple_cells (a, b) 8 = map (\<lambda>j. (b + int j mod 8, a + int j div 8)) [0..<64]"
    by (simp add: simple_cells_def)
  then show "length (simple_cells (a, b) 8) = 64" "simple_cells (a, b) 8 ! j = (b + int j mod 8, a + int j div 8)"
    using assms by simp_all
qed

text \<open>
  The read-only storage reads the wrong metatile: from a server that has every tile, the metatile with the corner \<open>(cx, cy)\<close> is assembled
  from the tiles with the corner \<open>(cy, cx)\<close>. Each tile the reader finds in it is that of the transposed place, so a request is
  served the wrong image unless its metatile is on the diagonal.
\<close>

theorem simple_get_meta_transposed:
  assumes server: "serves_all lib B" and z: "3 \<le> tp_z tile" "tp_z tile < 31" and f: "get_formats_vec (format tile) = [f]"
    and c: "xy_to_meta_xy (tp_x tile) (tp_y tile) = (cx, cy)" "int32 cx" "int32 cy"
    and small: "header_size + (\<Sum>j\<leftarrow>[0..<64]. length (B (make_url st (style tile) (tp_z tile) (cy + int j mod 8) (cx + int j div 8)))) + 1 < 2 ^ 31"
  shows "\<exists>m. simple_get_meta lib st tile (w, Some easy_reset) = ((w, Some easy_reset), Inr (Some m)) \<and>
    (\<forall>x y. reader_tile m f x y = Inr (B (make_url st (style tile) (tp_z tile) (cy + x mod 8) (cx + y mod 8))))"
proof -
  let ?u = "\<lambda>j. B (make_url st (style tile) (tp_z tile) (cy + int j mod 8) (cx + int j div 8))"
  let ?bs = "map ?u [0..<64]"
  have "(2 :: int) ^ 3 \<le> 2 ^ nat (tp_z tile)" using z(1) by (intro power_increasing) (auto simp: le_nat_iff)
  then have d: "get_meta_dimensions (tp_z tile) METATILE = Inr 8"
    using z by (simp add: get_meta_dimensions_def METATILE_def push_bit_eq_mult)
  have bs: "map (\<lambda>(x, y). B (make_url st (style tile) (tp_z tile) x y)) (simple_cells (cx, cy) 8) = ?bs"
    by (rule nth_equalityI) (simp_all add: simple_cells_nth simple_cells_nth(1) [of 0])
  have len: "length (concat ?bs) = (\<Sum>j\<leftarrow>[0..<64]. length (?u j))" by (simp add: length_concat comp_def)
  have lt: "length b < 2 ^ 31" if "b \<in> set ?bs" for b
  proof -
    have "length b \<le> length (concat ?bs)" using that by (rule length_le_concat)
    then show ?thesis using small len by linarith
  qed
  then have sizes: "map (\<lambda>b. trunc32 (int (length b))) ?bs = map (\<lambda>b. int (length b)) ?bs"
    by (intro map_cong refl trunc32_id) (fastforce simp: int32_def)
  obtain hd where w: "write_headers cx cy (tp_z tile) [f] (map (\<lambda>b. int (length b)) ?bs) = Inr hd"
    by (simp add: write_headers_def)
  have f32: "int32 f" using f get_formats_vec_def [of "format tile"] by (auto simp: fmt_defs int32_def split: if_splits)
  have z32: "int32 (tp_z tile)" using z by (simp add: int32_def)
  have fetched: "simple_fetch lib st tile (concat (replicate (length [f]) (simple_cells (cx, cy) 8))) (w, Some easy_reset) =
      ((w, Some easy_reset), Inr (Some ?bs))"
    using simple_fetch_served [OF server, of st tile "simple_cells (cx, cy) 8" w] unfolding bs by simp
  have table: "map (\<lambda>b. trunc32 (int (length b))) ?bs @ replicate (length [f] * 64 - length ?bs) 0 = map (\<lambda>b. int (length b)) ?bs"
    unfolding sizes by simp
  have "simple_get_meta lib st tile (w, Some easy_reset) = ((w, Some easy_reset), Inr (Some (hd @ concat ?bs @ [CHR 0x00])))"
    unfolding simple_get_meta_def Let_def c(1) f d fst_conv snd_conv sum.case fetched prod.case option.case table w ..
  moreover have "reader_tile (hd @ concat ?bs @ [CHR 0x00]) f x y = Inr (B (make_url st (style tile) (tp_z tile) (cy + x mod 8) (cx + y mod 8)))" for x y
  proof -
    let ?k = "nat (xyz_to_meta_offset x y (tp_z tile))"
    have k: "?k < 64" by (rule meta_offset_range)
    have o: "int ?k = y mod 8 * 8 + x mod 8"
      by (simp add: xyz_to_meta_offset_def METATILE_def and_7_eq_mod)
    then have "int ?k mod 8 = x mod 8" "int ?k div 8 = y mod 8" by simp_all
    then have "?bs ! ?k = B (make_url st (style tile) (tp_z tile) (cy + x mod 8) (cx + y mod 8))" using k by simp
    moreover have "reader_tile (hd @ concat ?bs @ [CHR 0x00]) ([f] ! 0) x y = Inr (?bs ! (64 * 0 + ?k))"
      by (rule reader_tile_written_rest [OF w]) (use f32 z32 c small len in simp_all)
    ultimately show ?thesis by simp
  qed
  ultimately show ?thesis by blast
qed

text \<open>A server whose tiles show their column and row: the tile at column 11 and row 21 is served as that at column 19 and row 13.\<close>

definition show_server :: "unit http_lib" where
  "show_server = \<lparr>easy_init = (\<lambda>w. (w, True)),
     easy_perform = (\<lambda>opts w. (w, \<lparr>tr_status = 0, tr_error = [], tr_chunks = [take 2 (o_url opts)], tr_lines = [], tr_code = 200, tr_filetime = 5\<rparr>)),
     multi_perform = (\<lambda>opts n w. (w, \<lparr>me_transfers = (\<lambda>i. undefined), me_init = (False, False), me_rounds = []\<rparr>)), clock = (\<lambda>w. 1000)\<rparr>"

definition show_format :: simple_http where
  "show_format = \<lparr>m_format = '''', boost_format = (\<lambda>fm sty z x y. [char_of x, char_of y])\<rparr>"

theorem simple_get_meta_transposed_witness:
  "\<exists>m. simple_get_meta show_server show_format (default_tile\<lparr>tp_x := 11, tp_y := 21, tp_z := 5\<rparr>) ((), Some easy_reset) =
       (((), Some easy_reset), Inr (Some m)) \<and> reader_tile m fmtPNG 11 21 = Inr [char_of (19 :: int), char_of (13 :: int)]"
proof -
  let ?t = "default_tile\<lparr>tp_x := 11, tp_y := 21, tp_z := 5\<rparr>"
  have f: "get_formats_vec (format ?t) = [fmtPNG]" by (simp add: default_tile_def get_formats_vec_def fmt_defs)
  have s: "serves_all show_server (take 2)" by (simp add: serves_all_def show_server_def)
  have c: "xy_to_meta_xy (tp_x ?t) (tp_y ?t) = (8, 16)" by (simp add: xy_to_meta_xy_def METATILE_def default_tile_def)
  have "\<exists>m. simple_get_meta show_server show_format ?t ((), Some easy_reset) = (((), Some easy_reset), Inr (Some m)) \<and>
      (\<forall>x y. reader_tile m fmtPNG x y = Inr (take 2 (make_url show_format (style ?t) (tp_z ?t) (16 + x mod 8) (8 + y mod 8))))"
    by (rule simple_get_meta_transposed [OF s _ _ f c])
       (simp_all add: default_tile_def int32_def header_size_def make_url_def show_format_def sum_list_triv)
  then show ?thesis by (auto simp: make_url_def show_format_def)
qed

end
