(* ===== verification/Lts_Storage.thy ===== *)
theory Lts_Storage
  imports Http_Storage
begin

text \<open>
  The storage on the servers of the long-term store (\<^verbatim>\<open>storage/lts_storage.cpp\<close>): two copies of each tile on two hosts that the hash of
  the coordinates selects (\<^verbatim>\<open>storage/hashwrapper.cpp\<close>), a list of hosts that were found down, and the fallback from the first copy
  to the second. libmemcached is a parameter: the servers it knows from its own configuration, whether it
  accepts a server, and the position of a key's server.
\<close>

subsection \<open>Hosts\<close>

type_synonym host = "string \<times> int"

record hashWrapper =
  hw_servers :: "host list"
  serverCount :: nat
  hw_by_key :: "string \<Rightarrow> nat"

record memcached =
  memc_init :: "string \<Rightarrow> host list option"
  memc_add :: "host \<Rightarrow> bool"
  memc_by_key :: "host list \<Rightarrow> string \<Rightarrow> nat"

definition mk_hashWrapper :: "memcached \<Rightarrow> string \<Rightarrow> host list \<Rightarrow> cpp_error + hashWrapper" where
  "mk_hashWrapper memc config hosts =
     (case memc_init memc config of
        None \<Rightarrow> Inl (Runtime_Error ''MemcacheConstructionException'')
      | Some base \<Rightarrow>
        (let servers = base @ filter (memc_add memc) hosts
         in Inr \<lparr>hw_servers = servers, serverCount = length (filter (memc_add memc) hosts), hw_by_key = memc_by_key memc servers\<rparr>))"

text \<open>The remainder of a division by zero, and a server behind the end of the table, are undefined.\<close>

definition getHost :: "hashWrapper \<Rightarrow> string \<Rightarrow> nat \<Rightarrow> cpp_error + host" where
  "getHost hw hashValue offset =
     (if serverCount hw = 0 then Inl Undefined_Behaviour
      else let i = (hw_by_key hw hashValue + offset) mod serverCount hw in
        if i < length (hw_servers hw) then Inr (hw_servers hw ! i) else Inl Undefined_Behaviour)"

subsection \<open>The storage and its configuration\<close>

record lts =
  lts_hash :: hashWrapper
  app_name :: string
  version :: string
  lts_concurrency :: nat
  down_recheck_time :: int

text \<open>\<^verbatim>\<open>erase_all\<close>, and \<^verbatim>\<open>split\<close> at one character with adjacent separators taken as one.\<close>

function erase_all :: "string \<Rightarrow> string \<Rightarrow> string" where
  "erase_all sub s =
     (if sub = [] \<or> s = [] then s
      else if take (length sub) s = sub then erase_all sub (drop (length sub) s)
      else hd s # erase_all sub (tl s))"
  by pat_completeness auto
termination
  by (relation "measure (\<lambda>(sub, s). length s)") (auto simp: neq_Nil_conv)

declare erase_all.simps [simp del]

function split_hosts :: "char \<Rightarrow> string \<Rightarrow> string list" where
  "split_hosts sep s =
     takeWhile (\<lambda>c. c \<noteq> sep) s #
     (case dropWhile (\<lambda>c. c \<noteq> sep) s of
        [] \<Rightarrow> []
      | c # r \<Rightarrow> split_hosts sep (dropWhile (\<lambda>c. c = sep) r))"
  by pat_completeness auto
termination
proof (relation "measure (\<lambda>(sep, s). length s)", simp)
  fix sep s c r assume "dropWhile (\<lambda>c. c \<noteq> sep) s = c # r"
  then have "length (c # r) \<le> length s" by (metis length_dropWhile_le)
  moreover have "length (dropWhile (\<lambda>c. c = sep) r) \<le> length r" by (rule length_dropWhile_le)
  ultimately show "((sep, dropWhile (\<lambda>c. c = sep) r), sep, s) \<in> measure (\<lambda>(sep, s). length s)" by simp
qed

declare split_hosts.simps [simp del]

text \<open>Entries that are not a host and a number are skipped.\<close>

definition parse_hosts :: "string \<Rightarrow> host list" where
  "parse_hosts hosts =
     (let h = erase_all ''http://'' (erase_all [CHR 0x09] (erase_all '' '' hosts)) in
      concat (map (\<lambda>machine.
        (case split_hosts CHR '':'' machine of
           [name, port] \<Rightarrow> (case lexical_cast_int port of Inr n \<Rightarrow> [(name, n)] | Inl _ \<Rightarrow> [])
         | _ \<Rightarrow> [])) (split_hosts CHR '','' h)))"

text \<open>\<open>None\<close> as storage is the null pointer the factory returns when something is missing.\<close>

definition create_lts_storage :: "memcached \<Rightarrow> string option \<Rightarrow> string option \<Rightarrow> string option \<Rightarrow> string option \<Rightarrow> nat option \<Rightarrow> int option \<Rightarrow>
    cpp_error + lts option" where
  "create_lts_storage memc hosts config app ver conc recheck =
     (let vecHosts = (case hosts of Some h \<Rightarrow> parse_hosts h | None \<Rightarrow> []) in
      case (config, app) of
        (Some c, Some a) \<Rightarrow>
          if vecHosts = [] then Inr None
          else (case mk_hashWrapper memc c vecHosts of
             Inl e \<Rightarrow> Inl e
           | Inr hw \<Rightarrow>
             if serverCount hw \<noteq> 0
             then Inr (Some \<lparr>lts_hash = hw, app_name = a, version = (case ver of Some v \<Rightarrow> v | None \<Rightarrow> ''0''),
                lts_concurrency = (case conc of Some n \<Rightarrow> n | None \<Rightarrow> 16),
                down_recheck_time = (case recheck of Some n \<Rightarrow> n | None \<Rightarrow> 300)\<rparr>)
             else Inr None)
      | _ \<Rightarrow> Inr None)"

text \<open>The state: the world behind libcurl, and the time until which a host is taken to be down.\<close>

record 'w lts_state =
  lts_world :: 'w
  hosts_down :: "host \<rightharpoonup> int"

subsection \<open>Addresses\<close>

definition hashed_host :: "lts \<Rightarrow> int \<Rightarrow> int \<Rightarrow> int \<Rightarrow> nat \<Rightarrow> cpp_error + host" where
  "hashed_host st x y z replica = getHost (lts_hash st) (dec_int z @ ''/'' @ dec_int x @ ''/'' @ dec_int y) replica"

definition url_of :: "lts \<Rightarrow> host \<Rightarrow> int \<Rightarrow> int \<Rightarrow> int \<Rightarrow> string \<Rightarrow> string \<Rightarrow> string" where
  "url_of st h x y z sty ext =
     ''http://'' @ fst h @ '':'' @ dec_int (snd h) @ ''/'' @ version st @ ''/'' @ app_name st @ sty @ ''/'' @ dec_int z @ ''/'' @
     dec_int x @ ''/'' @ dec_int y @ ''.'' @ ext"

definition form_url :: "lts \<Rightarrow> int \<Rightarrow> int \<Rightarrow> int \<Rightarrow> string \<Rightarrow> protoFmt \<Rightarrow> nat \<Rightarrow> cpp_error + string" where
  "form_url st x y z sty fmt replica =
     (case hashed_host st x y z replica of
        Inl e \<Rightarrow> Inl e
      | Inr h \<Rightarrow> (case file_type_for fmt of Inl e \<Rightarrow> Inl e | Inr ext \<Rightarrow> Inr (url_of st h x y z sty ext)))"

text \<open>The addresses that a loop collects, up to the first exception.\<close>

fun collect :: "('a \<Rightarrow> cpp_error + 'b) \<Rightarrow> 'a list \<Rightarrow> cpp_error + 'b list" where
  "collect f [] = Inr []"
| "collect f (x # xs) =
     (case f x of Inl e \<Rightarrow> Inl e | Inr y \<Rightarrow> (case collect f xs of Inl e \<Rightarrow> Inl e | Inr ys \<Rightarrow> Inr (y # ys)))"

definition make_get_urls :: "lts \<Rightarrow> tile_protocol \<Rightarrow> bool \<Rightarrow> cpp_error + string list" where
  "make_get_urls st tile is_primary =
     (let coord = xy_to_meta_xy (tp_x tile) (tp_y tile) in
      case get_meta_dimensions (tp_z tile) METATILE of
        Inl e \<Rightarrow> Inl e
      | Inr dim \<Rightarrow>
        collect (\<lambda>(fmt, dx, dy). form_url st (fst coord + dx) (snd coord + dy) (tp_z tile) (style tile) fmt (if is_primary then 0 else 1))
          [(fmt, dx, dy). fmt \<leftarrow> get_formats_vec (format tile), dy \<leftarrow> [0..dim - 1], dx \<leftarrow> [0..dim - 1]])"

definition make_get_requests :: "lts \<Rightarrow> tile_protocol \<Rightarrow> cpp_error + string list" where
  "make_get_requests st tile = make_get_urls st tile True"

text \<open>The places of a metatile file that hold a tile; an index beyond the table is read out of bounds.\<close>

definition header_tiles :: "meta_layout \<Rightarrow> cpp_error + (nat \<times> int \<times> int) list" where
  "header_tiles h =
     (if meta_count h > int (length (ml_index h)) then Inl Undefined_Behaviour
      else Inr [(i, ml_index h ! i). i \<leftarrow> [0..<nat (meta_count h)], snd (ml_index h ! i) \<noteq> 0])"

definition put_request :: "lts \<Rightarrow> tile_protocol \<Rightarrow> string \<Rightarrow> protoFmt \<Rightarrow> nat \<times> int \<times> int \<Rightarrow> cpp_error + (string \<times> part list)" where
  "put_request st tile metatile fmt entry =
     (let coord = xy_to_meta_xy (tp_x tile) (tp_y tile); (i, offset, sz) = entry in
      case form_url st (fst coord + int i mod METATILE) (snd coord + int i div METATILE) (tp_z tile) (style tile) fmt 0 of
        Inl e \<Rightarrow> Inl e
      | Inr url \<Rightarrow>
        if offset < 0 then Inl Undefined_Behaviour
        else (case mime_type_for fmt of
           Inl e \<Rightarrow> Inl e
         | Inr m \<Rightarrow> Inr (url, [\<lparr>part_data = drop (nat offset) metatile, part_name = ''file'', fileName = Some url, mime = m,
              part_size = sz, position = 0\<rparr>])))"

definition make_put_requests :: "lts \<Rightarrow> tile_protocol \<Rightarrow> string \<Rightarrow> cpp_error + (string \<times> part list) list" where
  "make_put_requests st tile metatile =
     (case collect (\<lambda>h. case mime_type_for (ml_fmt h) of
             Inl e \<Rightarrow> Inl e
           | Inr _ \<Rightarrow> (case header_tiles h of Inl e \<Rightarrow> Inl e | Inr es \<Rightarrow> collect (put_request st tile metatile (ml_fmt h)) es))
         (read_headers metatile fmtAll) of
        Inl e \<Rightarrow> Inl e
      | Inr rs \<Rightarrow> Inr (concat rs))"

definition make_replica_urls :: "lts \<Rightarrow> tile_protocol \<Rightarrow> string \<Rightarrow> cpp_error + string list" where
  "make_replica_urls st tile metatile =
     (let coord = xy_to_meta_xy (tp_x tile) (tp_y tile) in
      case collect (\<lambda>h. case header_tiles h of
             Inl e \<Rightarrow> Inl e
           | Inr es \<Rightarrow> collect (\<lambda>(i, e). form_url st (fst coord + int i mod METATILE) (snd coord + int i div METATILE) (tp_z tile)
               (style tile) (ml_fmt h) 1) es)
         (read_headers metatile fmtAll) of
        Inl e \<Rightarrow> Inl e
      | Inr us \<Rightarrow> Inr (concat us))"

definition replica_header :: "nat \<Rightarrow> string" where
  "replica_header n = ''X-Replica: '' @ dec_nat n"

definition expiry_headers :: "bool \<Rightarrow> string list" where
  "expiry_headers is_primary = make_headers (Some INVALID_TIMESTAMP) [replica_header (if is_primary then 0 else 1)]"

subsection \<open>Hosts that are down\<close>

definition is_host_down :: "int \<Rightarrow> host \<Rightarrow> (host \<rightharpoonup> int) \<Rightarrow> bool \<times> (host \<rightharpoonup> int)" where
  "is_host_down now h down =
     (case down h of
        None \<Rightarrow> (False, down)
      | Some t \<Rightarrow> if now > t then (False, down(h := None)) else (True, down))"

definition host_is_down :: "lts \<Rightarrow> int \<Rightarrow> host \<Rightarrow> (host \<rightharpoonup> int) \<Rightarrow> host \<rightharpoonup> int" where
  "host_is_down st now h down = down(h \<mapsto> now + down_recheck_time st)"

subsection \<open>Operations\<close>

definition LTS_CONNECT_TIMEOUT :: int where
  "LTS_CONNECT_TIMEOUT = 300"

text \<open>Every exception, also one of the address, marks the host as down; undefined behaviour and a call without end are no exceptions.\<close>

definition attempt_get_host :: "'w http_lib \<Rightarrow> lts \<Rightarrow> tile_protocol \<Rightarrow> nat \<Rightarrow> 'w lts_state \<Rightarrow> 'w lts_state \<times> (cpp_error + response option)" where
  "attempt_get_host lib st tile replica s =
     (case hashed_host st (tp_x tile) (tp_y tile) (tp_z tile) replica of
        Inl e \<Rightarrow> (s, Inl e)
      | Inr h \<Rightarrow>
        (case is_host_down (clock lib (lts_world s)) h (hosts_down s) of
           (True, down) \<Rightarrow> (s\<lparr>hosts_down := down\<rparr>, Inr None)
         | (False, down) \<Rightarrow>
           (let (w, r) =
              (case form_url st (tp_x tile) (tp_y tile) (tp_z tile) (style tile) (format tile) replica of
                 Inl e \<Rightarrow> (lts_world s, Inl e)
               | Inr url \<Rightarrow>
                 (case http_get lib url None [replica_header replica] False LTS_CONNECT_TIMEOUT (lts_world s) of (w, conn, r) \<Rightarrow> (w, r)));
              s1 = s\<lparr>lts_world := w, hosts_down := down\<rparr>
            in case r of
                 Inr response \<Rightarrow> (s1, Inr (if statusCode response = 200 then Some response else None))
               | Inl Undefined_Behaviour \<Rightarrow> (s1, Inl Undefined_Behaviour)
               | Inl No_Return \<Rightarrow> (s1, Inl No_Return)
               | Inl e \<Rightarrow> (s1\<lparr>hosts_down := host_is_down st (clock lib w) h down\<rparr>, Inr None))))"

definition lts_get :: "'w http_lib \<Rightarrow> lts \<Rightarrow> tile_protocol \<Rightarrow> 'w lts_state \<Rightarrow> 'w lts_state \<times> (cpp_error + handle)" where
  "lts_get lib st tile s =
     (case attempt_get_host lib st tile 0 s of
        (s1, Inl e) \<Rightarrow> (s1, Inl e)
      | (s1, Inr (Some r)) \<Rightarrow> (s1, Inr (http_handle r))
      | (s1, Inr None) \<Rightarrow>
        (case attempt_get_host lib st tile 1 s1 of
           (s2, Inl e) \<Rightarrow> (s2, Inl e)
         | (s2, Inr (Some r)) \<Rightarrow> (s2, Inr (http_handle r))
         | (s2, Inr None) \<Rightarrow> (s2, Inr (http_handle new_response))))"

text \<open>
  The two incomplete copies together. Both iterators advance with the first vector; the second may be shorter, and is read behind
  its end when the first has no good response.
\<close>

fun combine :: "response list \<Rightarrow> response list \<Rightarrow> cpp_error + response list option" where
  "combine [] rs1 = Inr (Some [])"
| "combine (r0 # rs0) rs1 =
     (let more = (\<lambda>r. case combine rs0 (tl rs1) of Inr (Some rs) \<Rightarrow> Inr (Some (r # rs)) | x \<Rightarrow> x) in
      if good_response r0 then more r0
      else case rs1 of
        [] \<Rightarrow> Inl Undefined_Behaviour
      | r1 # _ \<Rightarrow> if good_response r1 then more r1 else Inr None)"

definition replica_responses :: "'w http_lib \<Rightarrow> lts \<Rightarrow> tile_protocol \<Rightarrow> bool \<Rightarrow> 'w \<Rightarrow> 'w \<times> (cpp_error + (bool \<times> response list))" where
  "replica_responses lib st tile is_primary w =
     (case make_get_urls st tile is_primary of
        Inl e \<Rightarrow> (w, Inl e)
      | Inr urls \<Rightarrow> get_requests lib (lts_concurrency st) None urls (make_headers None [replica_header (if is_primary then 0 else 1)]) w)"

definition lts_get_meta :: "'w http_lib \<Rightarrow> lts \<Rightarrow> tile_protocol \<Rightarrow> 'w lts_state \<Rightarrow> 'w lts_state \<times> (cpp_error + string option)" where
  "lts_get_meta lib st tile s =
     (let made = (\<lambda>rs. map_sum id Some (make_metatile tile rs)) in
      case replica_responses lib st tile True (lts_world s) of
        (w0, Inl e) \<Rightarrow> (s\<lparr>lts_world := w0\<rparr>, Inl e)
      | (w0, Inr (True, rs0)) \<Rightarrow> (s\<lparr>lts_world := w0\<rparr>, made rs0)
      | (w0, Inr (False, rs0)) \<Rightarrow>
        (case replica_responses lib st tile False w0 of
           (w1, Inl e) \<Rightarrow> (s\<lparr>lts_world := w1\<rparr>, Inl e)
         | (w1, Inr (True, rs1)) \<Rightarrow> (s\<lparr>lts_world := w1\<rparr>, made rs1)
         | (w1, Inr (False, rs1)) \<Rightarrow>
           (s\<lparr>lts_world := w1\<rparr>,
            (case combine rs0 rs1 of Inl e \<Rightarrow> Inl e | Inr None \<Rightarrow> Inr None | Inr (Some rs) \<Rightarrow> made rs))))"

definition lts_expire :: "'w http_lib \<Rightarrow> lts \<Rightarrow> tile_protocol \<Rightarrow> 'w \<Rightarrow> 'w \<times> (cpp_error + bool)" where
  "lts_expire lib st tile w =
     (case (make_get_urls st tile True, make_get_urls st tile False) of
        (Inr primaryUrls, Inr replicaUrls) \<Rightarrow>
          (case call_multiGet lib primaryUrls (lts_concurrency st) None (expiry_headers True) w of
             (w1, Inl (Runtime_Error m)) \<Rightarrow> (w1, Inr False)
           | (w1, Inl e) \<Rightarrow> (w1, Inl e)
           | (w1, Inr _) \<Rightarrow>
             (case call_multiGet lib replicaUrls (lts_concurrency st) None (expiry_headers False) w1 of
                (w2, Inl (Runtime_Error m)) \<Rightarrow> (w2, Inr False)
              | (w2, Inl e) \<Rightarrow> (w2, Inl e)
              | (w2, Inr _) \<Rightarrow> (w2, Inr True)))
      | (Inl e, _) \<Rightarrow> (w, Inl e)
      | (_, Inl e) \<Rightarrow> (w, Inl e))"

text \<open>The requests of the second copy are those of the first with the other address.\<close>

definition to_replica :: "string \<times> part list \<Rightarrow> string \<Rightarrow> string \<times> part list" where
  "to_replica request url =
     (url, (case snd request of [] \<Rightarrow> [] | p # ps \<Rightarrow> p\<lparr>fileName := Some url, position := 0\<rparr> # ps))"

definition lts_put_meta :: "'w http_lib \<Rightarrow> lts \<Rightarrow> tile_protocol \<Rightarrow> string \<Rightarrow> 'w \<Rightarrow> 'w \<times> (cpp_error + bool)" where
  "lts_put_meta lib st tile metatile w =
     (let now = clock lib w; hdr = (\<lambda>n. make_headers (Some now) [replica_header n]) in
      case make_put_requests st tile metatile of
        Inl e \<Rightarrow> (w, Inl e)
      | Inr requests \<Rightarrow>
        (case put_requests lib (lts_concurrency st) None requests (hdr 0) w of
           (w1, Inl e) \<Rightarrow> (w1, Inl e)
         | (w1, Inr ret1) \<Rightarrow>
           (case make_replica_urls st tile metatile of
              Inl e \<Rightarrow> (w1, Inl e)
            | Inr urls \<Rightarrow>
              (case put_requests lib (lts_concurrency st) None (map2 to_replica requests urls) (hdr 1) w1 of
                 (w2, Inl e) \<Rightarrow> (w2, Inl e)
               | (w2, Inr ret2) \<Rightarrow>
                 if \<not> ret1 \<and> \<not> ret2
                 then (case lts_expire lib st tile w2 of (w3, Inl e) \<Rightarrow> (w3, Inl e) | (w3, Inr _) \<Rightarrow> (w3, Inr False))
                 else (w2, Inr (ret1 \<or> ret2))))))"

text \<open>\<^verbatim>\<open>resync_tile\<close>, which writes one tile to one copy.\<close>

definition resync_tile :: "'w http_lib \<Rightarrow> lts \<Rightarrow> tile_protocol \<Rightarrow> string \<Rightarrow> int \<Rightarrow> nat \<Rightarrow> 'w \<Rightarrow> 'w \<times> (cpp_error + unit)" where
  "resync_tile lib st tile data stamp replica w =
     (case form_url st (tp_x tile) (tp_y tile) (tp_z tile) (style tile) (format tile) replica of
        Inl e \<Rightarrow> (w, Inl e)
      | Inr url \<Rightarrow>
        (case mime_type_for (format tile) of
           Inl e \<Rightarrow> (w, Inl e)
         | Inr m \<Rightarrow>
           (case put_meta_serial lib None
              [(url, [\<lparr>part_data = data, part_name = ''file'', fileName = Some url, mime = m, part_size = int (length data), position = 0\<rparr>])]
              (make_headers (Some stamp) [replica_header replica]) w of
              (w', Inl e) \<Rightarrow> (w', Inl e)
            | (w', Inr _) \<Rightarrow> (w', Inr ()))))"

definition on_world :: "('w \<Rightarrow> 'w \<times> 'a) \<Rightarrow> 'w lts_state \<Rightarrow> 'w lts_state \<times> 'a" where
  "on_world f s = (case f (lts_world s) of (w, r) \<Rightarrow> (s\<lparr>lts_world := w\<rparr>, r))"

definition lts_storage :: "'w http_lib \<Rightarrow> lts \<Rightarrow> 'w lts_state tile_storage" where
  "lts_storage lib st = \<lparr>st_get = lts_get lib st, st_get_meta = lts_get_meta lib st,
     st_put_meta = (\<lambda>tile buf. on_world (lts_put_meta lib st tile buf)), st_expire = (\<lambda>tile. on_world (lts_expire lib st tile))\<rparr>"

end
