(* ===== verification/Lts_Props.thy ===== *)
theory Lts_Props
  imports Lts_Storage Http_Client_Props Meta_Tile_Props
begin

text \<open>
  Properties of the storages behind HTTP: the two copies of a tile are on different hosts and either can serve it, a
  metatile that was written is read back, and what goes wrong when a copy is incomplete, when no
  connection is allowed, and when the read-only storage fetches a metatile.
\<close>

subsection \<open>Hosts\<close>

lemma mod_next_neq: "2 \<le> n \<Longrightarrow> (k + 0) mod n \<noteq> (k + 1 :: nat) mod n"
  by (metis add.right_neutral mod_Suc Suc_eq_plus1 less_numeral_extra(3) n_not_Suc_n not_less_eq_eq numeral_2_eq_2 order_refl zero_less_Suc)

text \<open>
  Each tile has its two copies on two different hosts of the configuration, if there are at least two that
  libmemcached accepted.
\<close>

theorem replicas_on_two_hosts:
  assumes "mk_hashWrapper memc config hosts = Inr hw" "memc_init memc config = Some []" "distinct hosts"
    and "2 \<le> length (filter (memc_add memc) hosts)" "lts_hash st = hw"
  shows "\<exists>h0 h1. hashed_host st x y z 0 = Inr h0 \<and> hashed_host st x y z 1 = Inr h1 \<and> h0 \<noteq> h1 \<and>
    {h0, h1} \<subseteq> {h \<in> set hosts. memc_add memc h}"
proof -
  let ?hs = "filter (memc_add memc) hosts" and ?k = "hw_by_key hw (dec_int z @ ''/'' @ dec_int x @ ''/'' @ dec_int y)"
  have hw: "hw_servers hw = ?hs" "serverCount hw = length ?hs"
    using assms(1,2) by (auto simp: mk_hashWrapper_def Let_def)
  have n: "0 < length ?hs" "distinct ?hs" using assms(3,4) by auto
  have i: "(?k + 0) mod length ?hs < length ?hs" "(?k + 1) mod length ?hs < length ?hs" using n(1) by simp_all
  have "hashed_host st x y z r = Inr (?hs ! ((?k + r) mod length ?hs))" for r
    using hw n(1) assms(5) by (simp add: hashed_host_def getHost_def Let_def)
  moreover have "?hs ! ((?k + 0) mod length ?hs) \<noteq> ?hs ! ((?k + 1) mod length ?hs)"
    using nth_eq_iff_index_eq [OF n(2) i] mod_next_neq [OF assms(4)] by simp
  moreover have "?hs ! ((?k + 0) mod length ?hs) \<in> set ?hs" "?hs ! ((?k + 1) mod length ?hs) \<in> set ?hs"
    using i by (metis nth_mem)+
  ultimately show ?thesis by auto
qed

definition ex_memc :: memcached where
  "ex_memc = \<lparr>memc_init = (\<lambda>c. Some []), memc_add = (\<lambda>h. True), memc_by_key = (\<lambda>hs k. length k)\<rparr>"

definition ex_hosts :: "host list" where
  "ex_hosts = [(''lts1'', 8080), (''lts2'', 8080)]"

definition ex_lts :: lts where
  "ex_lts = \<lparr>lts_hash = \<lparr>hw_servers = ex_hosts, serverCount = 2, hw_by_key = length\<rparr>, app_name = ''tiles'', version = ''0'',
     lts_concurrency = 1, down_recheck_time = 300\<rparr>"

theorem replicas_on_two_hosts_witness:
  "\<exists>h0 h1. hashed_host ex_lts 3 4 5 0 = Inr h0 \<and> hashed_host ex_lts 3 4 5 1 = Inr h1 \<and> h0 \<noteq> h1 \<and>
    {h0, h1} \<subseteq> {h \<in> set ex_hosts. memc_add ex_memc h}"
  by (rule replicas_on_two_hosts [where config = "''''"])
     (simp_all add: mk_hashWrapper_def ex_memc_def ex_hosts_def ex_lts_def)

subsection \<open>One tile\<close>

text \<open>The request for a tile of one copy, and what the servers make of it in a world.\<close>

definition tile_request :: "lts \<Rightarrow> tile_protocol \<Rightarrow> nat \<Rightarrow> string \<Rightarrow> easy_opts" where
  "tile_request st tile i url =
     \<lparr>o_nosignal = True, o_url = url, o_filetime = True, o_headers = [replica_header i], o_keep_headers = False,
      o_method = Http_Get, o_connect_timeout = 0\<rparr>"

text \<open>
  The outcome of one attempt, from the world with the clock and the servers and the list of hosts that are down: the new ones, and
  the response that counts. The transfer may change the world and takes its time.
\<close>

definition attempt_outcome :: "'w http_lib \<Rightarrow> lts \<Rightarrow> tile_protocol \<Rightarrow> nat \<Rightarrow> host \<Rightarrow> string \<Rightarrow> 'w \<times> (host \<rightharpoonup> int) \<Rightarrow>
    ('w \<times> (host \<rightharpoonup> int)) \<times> response option" where
  "attempt_outcome lib st tile i h url wd =
     (let (w, down) = wd in
      if \<exists>u. down h = Some u \<and> clock lib w \<le> u then ((w, down), None)
      else (let (w', t) = easy_perform lib (tile_request st tile i url) (fst (easy_init lib w)) in
        if tr_status t \<noteq> 0 then ((w', down(h \<mapsto> clock lib w' + down_recheck_time st)), None)
        else ((w', down(h := None)),
          if tr_code t = 200 then Some \<lparr>statusCode = 200, timeStamp = tr_filetime t, resp_headers = [], body = concat (tr_chunks t)\<rparr> else None)))"

lemma http_get_one:
  assumes "\<And>w. snd (easy_init lib w)" "easy_perform lib (tile_request st tile i url) (fst (easy_init lib w)) = (w', t)"
  shows "http_get lib url None [replica_header i] False n w = (w', None, finish ''GET'' (tile_request st tile i url) t)"
proof -
  have "easy_init lib w = (fst (easy_init lib w), True)" using assms(1) [of w] by (metis (full_types) prod.collapse)
  moreover have "curl_get (curl_oper_opts easy_reset url [replica_header i] False) (nat n) 0 = tile_request st tile i url"
    by (simp add: curl_get_def curl_oper_opts_def easy_reset_def tile_request_def)
  ultimately show ?thesis
    using assms(2) by (cases "easy_init lib w")
      (simp add: http_get_def perform_oper_def curl_oper_def createPersistentConnection_def oper_done_def)
qed

lemma attempt_spec:
  fixes lib :: "'w http_lib" and s :: "'w lts_state"
  assumes init: "\<And>w. snd (easy_init lib w)" and h: "hashed_host st (tp_x tile) (tp_y tile) (tp_z tile) i = Inr h"
    and url: "form_url st (tp_x tile) (tp_y tile) (tp_z tile) (style tile) (format tile) i = Inr url"
    and o: "attempt_outcome lib st tile i h url (lts_world s, hosts_down s) = ((w', down'), r)"
  shows "attempt_get_host lib st tile i s = (s\<lparr>lts_world := w', hosts_down := down'\<rparr>, Inr r)"
proof -
  obtain w1 t where t: "easy_perform lib (tile_request st tile i url) (fst (easy_init lib (lts_world s))) = (w1, t)" by (metis surj_pair)
  note g = http_get_one [OF init t, of LTS_CONNECT_TIMEOUT]
  have k: "\<not> o_keep_headers (tile_request st tile i url)" by (simp add: tile_request_def)
  have e: "tr_status t \<noteq> 0 \<Longrightarrow> \<exists>m. finish ''GET'' (tile_request st tile i url) t = Inl (Runtime_Error m)"
    by (simp add: finish_def Let_def)
  have d: "down h = None \<Longrightarrow> down(h := None) = down" for down :: "host \<rightharpoonup> int" by (simp add: fun_upd_idem)
  show ?thesis
  proof (cases "is_host_down (clock lib (lts_world s)) h (hosts_down s)")
    case (Pair dn down)
    then have p: "if \<exists>u. hosts_down s h = Some u \<and> clock lib (lts_world s) \<le> u then dn \<and> down = hosts_down s
        else \<not> dn \<and> down = (hosts_down s)(h := None)"
      by (auto simp: is_host_down_def d split: option.splits if_splits)
    then show ?thesis
      using o Pair h url g e k t
      by (cases "tr_status t = 0")
         (auto simp: attempt_get_host_def attempt_outcome_def host_is_down_def Let_def split: if_splits)
  qed
qed

text \<open>
  C32. A single tile is served from either copy: the first host is asked unless it is known to be down, the second if the first gave
  no tile; the tile exists exactly if one of the two that may be asked has it. A host whose transfer failed is not
  asked again before the recheck time is over, counted from the end of the transfer; a host that answered is no longer taken to be down.
\<close>

theorem lts_get_from_either:
  fixes lib :: "'w http_lib" and s :: "'w lts_state"
  assumes "\<And>w. snd (easy_init lib w)"
    and "hashed_host st (tp_x tile) (tp_y tile) (tp_z tile) 0 = Inr h0"
    and "form_url st (tp_x tile) (tp_y tile) (tp_z tile) (style tile) (format tile) 0 = Inr u0"
    and "hashed_host st (tp_x tile) (tp_y tile) (tp_z tile) 1 = Inr h1"
    and "form_url st (tp_x tile) (tp_y tile) (tp_z tile) (style tile) (format tile) 1 = Inr u1"
  defines "o0 \<equiv> attempt_outcome lib st tile 0 h0 u0 (lts_world s, hosts_down s)"
  defines "o1 \<equiv> attempt_outcome lib st tile 1 h1 u1 (fst o0)"
  shows "lts_get lib st tile s =
    (case (snd o0, snd o1) of
       (Some r, _) \<Rightarrow> (s\<lparr>lts_world := fst (fst o0), hosts_down := snd (fst o0)\<rparr>, Inr (http_handle r))
     | (None, Some r) \<Rightarrow> (s\<lparr>lts_world := fst (fst o1), hosts_down := snd (fst o1)\<rparr>, Inr (http_handle r))
     | (None, None) \<Rightarrow> (s\<lparr>lts_world := fst (fst o1), hosts_down := snd (fst o1)\<rparr>, Inr (http_handle new_response)))"
proof -
  let ?s0 = "s\<lparr>lts_world := fst (fst o0), hosts_down := snd (fst o0)\<rparr>"
  have a0: "attempt_get_host lib st tile 0 s = (?s0, Inr (snd o0))"
    by (rule attempt_spec [OF assms(1-3)]) (simp add: o0_def)
  have a1: "attempt_get_host lib st tile 1 ?s0 = (?s0\<lparr>lts_world := fst (fst o1), hosts_down := snd (fst o1)\<rparr>, Inr (snd o1))"
    by (rule attempt_spec [OF assms(1,4,5)]) (simp add: o1_def)
  show ?thesis unfolding lts_get_def a0 by (simp add: a1 [simplified] split: option.split)
qed

text \<open>Two servers: the first is unreachable, the second has a tile under every address. In the second library every transfer takes two seconds.\<close>

definition ex_http_lib :: "unit http_lib" where
  "ex_http_lib = \<lparr>easy_init = (\<lambda>w. (w, True)),
     easy_perform = (\<lambda>opts w. (w, if take 11 (o_url opts) = ''http://lts1'' then
        \<lparr>tr_status = 7, tr_error = ''down'', tr_chunks = [], tr_lines = [], tr_code = 0, tr_filetime = -1\<rparr>
      else \<lparr>tr_status = 0, tr_error = [], tr_chunks = [''tile''], tr_lines = [], tr_code = 200, tr_filetime = 55\<rparr>)),
     multi_perform = (\<lambda>opts n w. (w, \<lparr>me_transfers = (\<lambda>i. undefined), me_init = (False, False), me_rounds = []\<rparr>)),
     clock = (\<lambda>w. 1000)\<rparr>"

definition ex_clock_lib :: "int http_lib" where
  "ex_clock_lib = \<lparr>easy_init = (\<lambda>w. (w, True)), easy_perform = (\<lambda>opts w. (w + 2, snd (easy_perform ex_http_lib opts ()))),
     multi_perform = (\<lambda>opts n w. (w, snd (multi_perform ex_http_lib opts n ()))), clock = (\<lambda>w. w)\<rparr>"

definition ex_lts_tile :: tile_protocol where
  "ex_lts_tile = default_tile\<lparr>tp_x := 3, tp_y := 4, tp_z := 10, style := ''map''\<rparr>"

theorem lts_get_from_either_witness:
  "lts_get ex_clock_lib ex_lts ex_lts_tile \<lparr>lts_world = 1000, hosts_down = Map.empty\<rparr> =
     (\<lparr>lts_world = 1004, hosts_down = [(''lts1'', 8080) \<mapsto> 1302]\<rparr>,
      Inr \<lparr>h_exists = True, h_last_modified = 55, h_data = Some ''tile'', h_expired = False\<rparr>)"
proof -
  have q: "\<And>w. snd (easy_init ex_clock_lib w)" by (simp add: ex_clock_lib_def)
  have len: "length (dec_int 10) = 2" "length (dec_int 3) = 1" "length (dec_int 4) = 1"
    by (simp_all add: dec_int_def dec_nat.simps)
  have h: "hashed_host ex_lts 3 4 10 0 = Inr (''lts1'', 8080)" "hashed_host ex_lts 3 4 10 1 = Inr (''lts2'', 8080)"
    by (simp_all add: hashed_host_def getHost_def ex_lts_def ex_hosts_def len)
  have u: "form_url ex_lts 3 4 10 ''map'' fmtPNG 0 = Inr (url_of ex_lts (''lts1'', 8080) 3 4 10 ''map'' ''png'')"
      "form_url ex_lts 3 4 10 ''map'' fmtPNG 1 = Inr (url_of ex_lts (''lts2'', 8080) 3 4 10 ''map'' ''png'')"
    using h by (simp_all add: form_url_def file_type_for_def fmt_defs)
  have t: "tp_x ex_lts_tile = 3" "tp_y ex_lts_tile = 4" "tp_z ex_lts_tile = 10" "style ex_lts_tile = ''map''" "format ex_lts_tile = fmtPNG"
    by (simp_all add: ex_lts_tile_def default_tile_def)
  show ?thesis
    using lts_get_from_either [where tile = ex_lts_tile and st = ex_lts, unfolded t, OF q h(1) u(1) h(2) u(2),
        of "\<lparr>lts_world = 1000, hosts_down = Map.empty\<rparr>"]
    by (simp add: attempt_outcome_def ex_clock_lib_def ex_http_lib_def tile_request_def url_of_def http_handle_def INVALID_TIMESTAMP_def ex_lts_def)
qed

subsection \<open>Missing copies\<close>

lemma make_metatile_short:
  assumes "get_meta_dimensions (tp_z tile) METATILE = Inr dim" "0 < dim" "get_formats_vec (format tile) \<noteq> []"
  shows "make_metatile tile [] = Inl Undefined_Behaviour"
proof -
  obtain n where n: "length (get_formats_vec (format tile)) = Suc n" using assms(3) by (cases "get_formats_vec (format tile)") auto
  obtain cs where cs: "meta_cells = (0, 0) # cs" by (simp add: meta_cells_def upto.simps)
  have "cell_sizes dim (meta_cells @ ds) [] = Inl Undefined_Behaviour" for ds
    unfolding cs using assms(2) by simp
  then have "cell_sizes dim (concat (replicate (length (get_formats_vec (format tile))) meta_cells)) [] = Inl Undefined_Behaviour"
    unfolding n by simp
  then show ?thesis using assms(1) by (simp add: make_metatile_def Let_def)
qed

text \<open>
  C33. When the group of requests for the first copy fails as a whole, as it does when one host cannot be reached, and the second copy is
  not complete, reading the metatile has undefined behaviour: it is assembled from an empty list of
  responses.
\<close>

theorem lts_get_meta_undefined:
  assumes "replica_responses lib st tile True (lts_world s) = (w0, Inr (False, []))"
    and "replica_responses lib st tile False w0 = (w1, Inr (False, rs1))"
    and "0 \<le> tp_z tile" "tp_z tile < 31" "get_formats_vec (format tile) \<noteq> []"
  shows "lts_get_meta lib st tile s = (s\<lparr>lts_world := w1\<rparr>, Inl Undefined_Behaviour)"
proof -
  have "push_bit (nat (tp_z tile)) (1 :: int) > 0" by (simp add: push_bit_eq_mult)
  then have "make_metatile tile [] = Inl Undefined_Behaviour"
    using assms(3-5) by (intro make_metatile_short) (auto simp: get_meta_dimensions_def METATILE_def)
  then show ?thesis using assms(1,2) by (simp add: lts_get_meta_def Let_def)
qed

text \<open>Of the two hosts one cannot be reached and the other has no tile; up to four transfers may run.\<close>

definition ex_lib2 :: "unit http_lib" where
  "ex_lib2 = ex_http_lib\<lparr>multi_perform := (\<lambda>opts n w. (w,
     \<lparr>me_transfers = (\<lambda>i. if take 11 (o_url (opts ! i)) = ''http://lts2''
        then \<lparr>tr_status = 7, tr_error = ''down'', tr_chunks = [], tr_lines = [], tr_code = 0, tr_filetime = -1\<rparr>
        else \<lparr>tr_status = 0, tr_error = [], tr_chunks = [], tr_lines = [], tr_code = 404, tr_filetime = -1\<rparr>),
      me_init = (True, True), me_rounds = [\<lparr>add_ok = (\<lambda>_. True), new_running = 0, messages = [(True, 0)]\<rparr>]\<rparr>))\<rparr>"

theorem lts_get_meta_undefined_witness:
  "lts_get_meta ex_lib2 (ex_lts\<lparr>lts_concurrency := 4\<rparr>) default_tile \<lparr>lts_world = (), hosts_down = Map.empty\<rparr> =
     (\<lparr>lts_world = (), hosts_down = Map.empty\<rparr>, Inl Undefined_Behaviour)"
proof -
  let ?st = "ex_lts\<lparr>lts_concurrency := 4\<rparr>"
  have len: "length (dec_int 0) = 1" by (simp add: dec_int_def dec_nat.simps)
  have h: "hashed_host ?st 0 0 0 0 = Inr (''lts2'', 8080)" "hashed_host ?st 0 0 0 1 = Inr (''lts1'', 8080)"
    by (simp_all add: hashed_host_def getHost_def ex_lts_def ex_hosts_def len)
  have f: "get_formats_vec fmtPNG = [fmtPNG]" by (simp add: get_formats_vec_def fmt_defs)
  have t: "tp_x default_tile = 0" "tp_y default_tile = 0" "tp_z default_tile = 0" "style default_tile = []" "format default_tile = fmtPNG"
    by (simp_all add: default_tile_def)
  have d: "get_meta_dimensions 0 METATILE = Inr 1" by (simp add: get_meta_dimensions_def METATILE_def)
  have c: "xy_to_meta_xy 0 0 = (0, 0)" by (simp add: xy_to_meta_xy_def)
  have u: "make_get_urls ?st default_tile True = Inr [url_of ?st (''lts2'', 8080) 0 0 0 [] ''png'']"
      "make_get_urls ?st default_tile False = Inr [url_of ?st (''lts1'', 8080) 0 0 0 [] ''png'']"
    unfolding make_get_urls_def t d c f using h by (simp_all add: form_url_def file_type_for_def fmt_defs)
  have "replica_responses ex_lib2 ?st default_tile True () = ((), Inr (False, []))"
    unfolding replica_responses_def u
    by (simp add: get_requests_def get_meta_parallel_def call_multiGet_def multiGet_def do_multi_requests_def multi_handles_def
        ex_lib2_def ex_http_lib_def mk_request_get_def curl_get_def curl_oper_opts_def url_of_def handle_message_def multi_result_def finish_def Let_def
        make_headers_def)
  moreover have "replica_responses ex_lib2 ?st default_tile False () =
      ((), Inr (False, [\<lparr>statusCode = 404, timeStamp = -1, resp_headers = [], body = []\<rparr>]))"
    unfolding replica_responses_def u
    by (simp add: get_requests_def get_meta_parallel_def call_multiGet_def multiGet_def do_multi_requests_def multi_handles_def
        ex_lib2_def ex_http_lib_def mk_request_get_def curl_get_def curl_oper_opts_def url_of_def handle_message_def multi_result_def Let_def
        make_headers_def easy_reset_def good_response_def)
  ultimately show ?thesis
    using lts_get_meta_undefined [of ex_lib2 ?st default_tile "\<lparr>lts_world = (), hosts_down = Map.empty\<rparr>" "()" "()"]
    by (simp add: t f)
qed

text \<open>With a concurrency of \<open>0\<close> in the configuration, an expiry never returns.\<close>

lemma lts_expire_hangs:
  assumes "lts_concurrency st = 0" "make_get_urls st tile True = Inr us" "us \<noteq> []" "make_get_urls st tile False = Inr vs"
    and "multi_perform lib (map (mk_request_get (expiry_headers True) False) us) 0 w = (w', e)"
    and "me_init e = (True, True)" "\<forall>r \<in> set (me_rounds e). messages r = []"
  shows "lts_expire lib st tile w = (w', Inl No_Return)"
proof -
  obtain s where "multiGet us 0 False (expiry_headers True) False (me_transfers e) (True, True) (me_rounds e) = Looping s"
    unfolding multiGet_def using multi_requests_hang [OF assms(3,7)] by blast
  then show ?thesis using assms by (simp add: lts_expire_def call_multiGet_def multi_result_def)
qed

text \<open>A request for a tile in several formats marks a host as down that was not even asked.\<close>

lemma ambiguous_format_marks_down:
  assumes "hashed_host st (tp_x tile) (tp_y tile) (tp_z tile) i = Inr h" "file_type_for (format tile) = Inl (Runtime_Error m)"
    and "hosts_down s h = None"
  shows "attempt_get_host lib st tile i s =
    (s\<lparr>hosts_down := (hosts_down s)(h \<mapsto> clock lib (lts_world s) + down_recheck_time st)\<rparr>, Inr None)"
  using assms by (simp add: attempt_get_host_def form_url_def is_host_down_def host_is_down_def Let_def)

end
