(* ===== verification/Lts_Roundtrip.thy ===== *)
theory Lts_Roundtrip
  imports Lts_Props
begin

text \<open>
  Writing a metatile to the long-term store and reading it back: the metatile file is cut into its tiles, each is uploaded to its address on the
  hosts of the two copies, and a later read fetches them all and assembles the same file. What is asked of the servers is that a
  posted tile is found under its address and copy, with the time it was posted with.
\<close>

subsection \<open>The servers\<close>

definition whole_part :: "part \<Rightarrow> bool" where
  "whole_part p \<longleftrightarrow> position p = 0 \<and> 0 \<le> part_size p \<and> part_size p \<le> int (length (part_data p))"

definition tile_server :: "'w http_lib \<Rightarrow> ('w \<Rightarrow> string \<times> nat \<Rightarrow> (string \<times> int) option) \<Rightarrow> bool" where
  "tile_server lib store \<longleftrightarrow> (\<forall>w. easy_init lib w = (w, True)) \<and>
     (\<forall>w opts p n tt. 0 \<le> tt \<longrightarrow> tt < 253402300800 \<longrightarrow> o_method opts = Http_Form [p] False \<longrightarrow> o_headers opts = make_headers (Some tt) [replica_header n] \<longrightarrow> whole_part p \<longrightarrow>
        (\<exists>w' t. easy_perform lib opts w = (w', t) \<and> tr_status t = 0 \<and> tr_code t = 200 \<and>
           store w' = (store w)((o_url opts, n) \<mapsto> (take (nat (part_size p)) (part_data p), tt)))) \<and>
     (\<forall>w opts n d tt. o_method opts = Http_Get \<longrightarrow> o_headers opts = make_headers None [replica_header n] \<longrightarrow> store w (o_url opts, n) = Some (d, tt) \<longrightarrow>
        (\<exists>t. easy_perform lib opts w = (w, t) \<and> tr_status t = 0 \<and> tr_code t = 200 \<and> tr_filetime t = tt \<and> concat (tr_chunks t) = d))"

lemma post_stored:
  assumes "tile_server lib store" "whole_part p" "0 \<le> tt" "tt < 253402300800"
  shows "\<exists>w' r. postForm lib url [p] None (make_headers (Some tt) [replica_header n]) False False w = (w', None, Inr r) \<and> statusCode r = 200 \<and>
    store w' = (store w)((url, n) \<mapsto> (take (nat (part_size p)) (part_data p), tt))"
proof -
  let ?o = "curl_post_form (curl_oper_opts easy_reset url (make_headers (Some tt) [replica_header n]) False) [p] False"
  have o: "o_method ?o = Http_Form [p] False" "o_headers ?o = make_headers (Some tt) [replica_header n]" "o_url ?o = url"
    by (simp_all add: curl_post_form_def curl_oper_opts_def Let_def make_headers_def)
  obtain w' t where "easy_perform lib ?o w = (w', t)" "tr_status t = 0" "tr_code t = 200"
      "store w' = (store w)((url, n) \<mapsto> (take (nat (part_size p)) (part_data p), tt))"
    using assms o unfolding tile_server_def by metis
  moreover have "easy_init lib w = (w, True)" using assms(1) by (simp add: tile_server_def)
  ultimately show ?thesis
    by (simp add: postForm_def perform_oper_def curl_oper_def createPersistentConnection_def oper_done_def)
qed

lemma get_stored:
  assumes "tile_server lib store" "store w (url, n) = Some (d, tt)"
  shows "http_get lib url None (make_headers None [replica_header n]) False 0 w =
    (w, None, Inr \<lparr>statusCode = 200, timeStamp = tt, resp_headers = [], body = d\<rparr>)"
proof -
  let ?o = "curl_get (curl_oper_opts easy_reset url (make_headers None [replica_header n]) False) (nat 0) 0"
  have o: "o_method ?o = Http_Get" "o_headers ?o = make_headers None [replica_header n]" "o_url ?o = url" "\<not> o_keep_headers ?o"
    by (simp_all add: curl_get_def curl_oper_opts_def Let_def make_headers_def)
  obtain t where "easy_perform lib ?o w = (w, t)" "tr_status t = 0" "tr_code t = 200" "tr_filetime t = tt" "concat (tr_chunks t) = d"
    using assms o unfolding tile_server_def by metis
  moreover have "easy_init lib w = (w, True)" using assms(1) by (simp add: tile_server_def)
  ultimately show ?thesis using o(4)
    by (simp add: http_get_def perform_oper_def curl_oper_def createPersistentConnection_def oper_done_def)
qed

text \<open>Many tiles one after the other, with different addresses.\<close>

lemma put_serial_stores:
  assumes "tile_server lib store" "\<forall>r \<in> set rs. \<exists>p. snd r = [p] \<and> whole_part p" "distinct (map fst rs)" "0 \<le> tt" "tt < 253402300800"
  shows "\<exists>w'. put_meta_serial lib None rs (make_headers (Some tt) [replica_header n]) w = (w', Inr True) \<and>
    (\<forall>r \<in> set rs. store w' (fst r, n) = Some (take (nat (part_size (hd (snd r)))) (part_data (hd (snd r))), tt)) \<and>
    (\<forall>u k. u \<notin> fst ` set rs \<or> k \<noteq> n \<longrightarrow> store w' (u, k) = store w (u, k))"
  using assms(2,3)
proof (induction rs arbitrary: w)
  case (Cons r rs)
  then obtain p where p: "snd r = [p]" "whole_part p" by auto
  obtain w1 x where w1: "postForm lib (fst r) [p] None (make_headers (Some tt) [replica_header n]) False False w = (w1, None, Inr x)"
      "statusCode x = 200" "store w1 = (store w)((fst r, n) \<mapsto> (take (nat (part_size p)) (part_data p), tt))"
    using post_stored [OF assms(1) p(2) assms(4,5)] by blast
  obtain w2 where w2: "put_meta_serial lib None rs (make_headers (Some tt) [replica_header n]) w1 = (w2, Inr True)"
      "\<forall>r \<in> set rs. store w2 (fst r, n) = Some (take (nat (part_size (hd (snd r)))) (part_data (hd (snd r))), tt)"
      "\<forall>u k. u \<notin> fst ` set rs \<or> k \<noteq> n \<longrightarrow> store w2 (u, k) = store w1 (u, k)"
    using Cons.IH [of w1] Cons.prems by auto
  have "store w2 (fst r, n) = Some (take (nat (part_size p)) (part_data p), tt)"
    using w2(3) Cons.prems(2) w1(3) by simp
  then show ?case using w1 w2 p by (intro exI [of _ w2]) auto
qed simp

lemma get_serial_stored:
  assumes "tile_server lib store" "\<forall>u \<in> set us. store w (u, n) = Some (D u, tt)" "tt \<noteq> 0"
  shows "get_meta_serial lib None us (make_headers None [replica_header n]) w =
    (w, Inr (True, map (\<lambda>u. \<lparr>statusCode = 200, timeStamp = tt, resp_headers = [], body = D u\<rparr>) us))"
  using assms(2)
proof (induction us)
  case (Cons u us)
  then show ?case using get_stored [OF assms(1), of w u n "D u" tt] assms(3)
    by (simp add: good_response_def INVALID_TIMESTAMP_def)
qed simp

subsection \<open>Addresses\<close>

lemma split_last_inj:
  assumes "a @ c # s = a' @ c # s'" "c \<notin> set s" "c \<notin> set s'"
  shows "a = a' \<and> s = s'"
proof -
  have "rev s @ c # rev a = rev s' @ c # rev a'" using arg_cong [OF assms(1), of rev] by simp
  then have "rev s = rev s' \<and> rev a = rev a'"
  proof -
    have "takeWhile (\<lambda>x. x \<noteq> c) (rev s @ c # rev a) = rev s" "takeWhile (\<lambda>x. x \<noteq> c) (rev s' @ c # rev a') = rev s'"
      using assms(2,3) by (auto simp: takeWhile_append)
    then show ?thesis using \<open>rev s @ c # rev a = rev s' @ c # rev a'\<close> by simp
  qed
  then show ?thesis by simp
qed

lemma url_of_inj:
  assumes "url_of st h x y z sty ext = url_of st h' x' y' z sty ext'" "CHR ''.'' \<notin> set ext" "CHR ''.'' \<notin> set ext'"
  shows "x = x' \<and> y = y' \<and> ext = ext'"
proof -
  let ?a = "\<lambda>h. ''http://'' @ fst h @ '':'' @ dec_int (snd h) @ ''/'' @ version st @ ''/'' @ app_name st @ sty @ ''/'' @ dec_int z"
  have "(?a h @ ''/'' @ dec_int x @ ''/'' @ dec_int y) @ CHR ''.'' # ext = (?a h' @ ''/'' @ dec_int x' @ ''/'' @ dec_int y') @ CHR ''.'' # ext'"
    using assms(1) by (simp add: url_of_def)
  from split_last_inj [OF this assms(2,3)]
  have e: "ext = ext'" and s: "(?a h @ CHR ''/'' # dec_int x) @ CHR ''/'' # dec_int y = (?a h' @ CHR ''/'' # dec_int x') @ CHR ''/'' # dec_int y'"
    by simp_all
  from split_last_inj [OF s dec_int_plain dec_int_plain]
  have y: "dec_int y = dec_int y'" and r: "?a h @ CHR ''/'' # dec_int x = ?a h' @ CHR ''/'' # dec_int x'" by simp_all
  from split_last_inj [OF r dec_int_plain dec_int_plain] show ?thesis using e y by (simp add: dec_int_inj)
qed

lemma collect_Inr: "\<forall>x \<in> set xs. f x = Inr (g x) \<Longrightarrow> collect f xs = Inr (map g xs)"
  by (induction xs) auto

text \<open>The storage has servers for all addresses.\<close>

definition has_hosts :: "lts \<Rightarrow> bool" where
  "has_hosts st \<longleftrightarrow> 0 < serverCount (lts_hash st) \<and> serverCount (lts_hash st) \<le> length (hw_servers (lts_hash st))"

lemma form_url_ok:
  assumes "has_hosts st" "f \<in> set (get_formats_vec m)"
  shows "\<exists>h ext. form_url st x y z sty f r = Inr (url_of st h x y z sty ext) \<and> file_type_for f = Inr ext \<and> CHR ''.'' \<notin> set ext"
proof -
  have "(hw_by_key (lts_hash st) k + r) mod serverCount (lts_hash st) < length (hw_servers (lts_hash st))" for k
    using assms(1) by (meson has_hosts_def mod_less_divisor order_less_le_trans)
  then obtain h where "hashed_host st x y z r = Inr h" using assms(1) by (auto simp: hashed_host_def getHost_def has_hosts_def Let_def)
  moreover obtain ext where "file_type_for f = Inr ext" "CHR ''.'' \<notin> set ext"
    using get_formats_vec_single [OF assms(2)] by auto
  ultimately show ?thesis by (intro exI [of _ h] exI [of _ ext]) (simp add: form_url_def)
qed

subsection \<open>The tiles of a metatile\<close>

text \<open>The places of the table inside a metatile of a dimension, row by row, for each format; and the address of a place.\<close>

definition inside :: "int \<Rightarrow> nat \<Rightarrow> bool" where
  "inside dim j \<longleftrightarrow> int j mod 8 < dim \<and> int j div 8 < dim"

definition places :: "int \<Rightarrow> nat \<Rightarrow> (nat \<times> nat) list" where
  "places dim n = concat (map (\<lambda>i. map (Pair i) (filter (inside dim) [0..<64])) [0..<n])"

definition place_url :: "lts \<Rightarrow> tile_protocol \<Rightarrow> nat \<Rightarrow> nat \<times> nat \<Rightarrow> string" where
  "place_url st tile r ij =
     projr (form_url st (fst (xy_to_meta_xy (tp_x tile) (tp_y tile)) + int (snd ij) mod METATILE)
       (snd (xy_to_meta_xy (tp_x tile) (tp_y tile)) + int (snd ij) div METATILE) (tp_z tile) (style tile)
       (get_formats_vec (format tile) ! fst ij) r)"

lemma place_url_ok:
  fixes tile :: tile_protocol and j :: nat
  assumes "has_hosts st" "i < length (get_formats_vec (format tile))"
  defines "x \<equiv> fst (xy_to_meta_xy (tp_x tile) (tp_y tile)) + int j mod METATILE"
    and "y \<equiv> snd (xy_to_meta_xy (tp_x tile) (tp_y tile)) + int j div METATILE"
  shows "form_url st x y (tp_z tile) (style tile) (get_formats_vec (format tile) ! i) r = Inr (place_url st tile r (i, j))"
    and "\<exists>h e. place_url st tile r (i, j) = url_of st h x y (tp_z tile) (style tile) e \<and>
      file_type_for (get_formats_vec (format tile) ! i) = Inr e \<and> CHR ''.'' \<notin> set e"
proof -
  obtain h e where e: "form_url st x y (tp_z tile) (style tile) (get_formats_vec (format tile) ! i) r =
      Inr (url_of st h x y (tp_z tile) (style tile) e)" "file_type_for (get_formats_vec (format tile) ! i) = Inr e" "CHR ''.'' \<notin> set e"
    using form_url_ok [OF assms(1) nth_mem [OF assms(2)]] by blast
  have u: "place_url st tile r (i, j) = url_of st h x y (tp_z tile) (style tile) e"
    using e(1) by (simp add: place_url_def x_def y_def)
  show "form_url st x y (tp_z tile) (style tile) (get_formats_vec (format tile) ! i) r = Inr (place_url st tile r (i, j))"
    using e(1) u by simp
  show "\<exists>h e. place_url st tile r (i, j) = url_of st h x y (tp_z tile) (style tile) e \<and>
      file_type_for (get_formats_vec (format tile) ! i) = Inr e \<and> CHR ''.'' \<notin> set e"
    using e(2,3) u by blast
qed

lemma place_url_inj:
  assumes "has_hosts st" "place_url st tile r (i, j) = place_url st tile r (i', j')"
    and "i < length (get_formats_vec (format tile))" "i' < length (get_formats_vec (format tile))"
  shows "i = i' \<and> j = j'"
proof -
  let ?fs = "get_formats_vec (format tile)" and ?c = "xy_to_meta_xy (tp_x tile) (tp_y tile)"
  obtain h e where e: "place_url st tile r (i, j) = url_of st h (fst ?c + int j mod METATILE) (snd ?c + int j div METATILE) (tp_z tile) (style tile) e"
      "file_type_for (?fs ! i) = Inr e" "CHR ''.'' \<notin> set e"
    using place_url_ok(2) [OF assms(1,3)] by blast
  obtain h' e' where e': "place_url st tile r (i', j') = url_of st h' (fst ?c + int j' mod METATILE) (snd ?c + int j' div METATILE) (tp_z tile) (style tile) e'"
      "file_type_for (?fs ! i') = Inr e'" "CHR ''.'' \<notin> set e'"
    using place_url_ok(2) [OF assms(1,4)] by blast
  have "int j mod METATILE = int j' mod METATILE \<and> int j div METATILE = int j' div METATILE \<and> e = e'"
    using url_of_inj [OF _ e(3) e'(3)] assms(2) e(1) e'(1) by (metis add_left_cancel)
  moreover from this have "int j = int j'" by (metis div_mult_mod_eq)
  moreover have "?fs ! i = ?fs ! i'"
    using calculation get_formats_vec_single [OF nth_mem [OF assms(3)]] get_formats_vec_single [OF nth_mem [OF assms(4)]] e(2) e'(2)
    by (metis sum.inject(2))
  ultimately show ?thesis using nth_eq_iff_index_eq [OF get_formats_vec_distinct assms(3,4)] by simp
qed

lemma places_iff: "(i, j) \<in> set (places dim n) \<longleftrightarrow> i < n \<and> j < 64 \<and> inside dim j"
  by (auto simp: places_def)

lemma distinct_places: "distinct (places dim n)"
proof (induction n)
  case (Suc n)
  have "places dim (Suc n) = places dim n @ map (Pair n) (filter (inside dim) [0..<64])" by (simp add: places_def)
  then show ?case using Suc by (auto simp: distinct_map inj_on_def places_iff)
qed (simp add: places_def)

lemma distinct_urls:
  assumes "has_hosts st" "n = length (get_formats_vec (format tile))"
  shows "distinct (map (place_url st tile r) (places dim n))"
proof -
  have "inj_on (place_url st tile r) (set (places dim n))"
  proof (rule inj_onI)
    fix p q assume "p \<in> set (places dim n)" "q \<in> set (places dim n)" "place_url st tile r p = place_url st tile r q"
    moreover from this have "fst p < n" "fst q < n" by (metis places_iff prod.collapse)+
    ultimately show "p = q" using place_url_inj [OF assms(1), of tile r "fst p" "snd p" "fst q" "snd q"] assms(2)
      by (simp add: prod_eq_iff)
  qed
  then show ?thesis by (simp add: distinct_map distinct_places)
qed

lemma dimensions:
  assumes "get_meta_dimensions z METATILE = Inr dim"
  shows "dim = 1 \<or> dim = 2 \<or> dim = 4 \<or> dim = 8"
proof -
  have z: "0 \<le> z" and d: "dim = min (2 ^ nat z) 8" using assms by (auto simp: get_meta_dimensions_def METATILE_def push_bit_eq_mult split: if_splits)
  consider "nat z = 0" | "nat z = 1" | "nat z = 2" | "3 \<le> nat z" by linarith
  then show ?thesis
  proof cases
    case 4
    then have "(2 :: int) ^ 3 \<le> 2 ^ nat z" by (rule power_increasing) simp
    then show ?thesis using d by simp
  qed (use d in simp_all)
qed

text \<open>The places in the order of the table are the cells the read loops over.\<close>

lemma inside_cells:
  assumes "dim = 1 \<or> dim = 2 \<or> dim = 4 \<or> dim = 8"
  shows "map (\<lambda>j. (int j mod 8, int j div 8)) (filter (inside dim) [0..<64]) = [(dx, dy). dy \<leftarrow> [0..dim - 1], dx \<leftarrow> [0..dim - 1]]"
  using assms by (elim disjE) (simp_all add: inside_def upt_rec upto_rec1)

lemma triples: "[(f, dx, dy). f \<leftarrow> fs, dy \<leftarrow> ys, dx \<leftarrow> xs] = concat (map (\<lambda>f. map (Pair f) [(dx, dy). dy \<leftarrow> ys, dx \<leftarrow> xs]) fs)"
  by (induction fs) (simp_all add: map_concat comp_def)

lemma get_urls_places:
  assumes "has_hosts st" "get_meta_dimensions (tp_z tile) METATILE = Inr dim"
  shows "make_get_urls st tile True = Inr (map (place_url st tile 0) (places dim (length (get_formats_vec (format tile)))))"
proof -
  let ?fs = "get_formats_vec (format tile)" and ?c = "xy_to_meta_xy (tp_x tile) (tp_y tile)"
  let ?js = "filter (inside dim) [0..<64]"
  have "[(fmt, dx, dy). fmt \<leftarrow> ?fs, dy \<leftarrow> [0..dim - 1], dx \<leftarrow> [0..dim - 1]] =
      concat (map (\<lambda>f. map (Pair f) [(dx, dy). dy \<leftarrow> [0..dim - 1], dx \<leftarrow> [0..dim - 1]]) ?fs)"
    by (rule triples)
  also have "\<dots> = concat (map (\<lambda>f. map (\<lambda>j. (f, int j mod 8, int j div 8)) ?js) ?fs)"
    unfolding inside_cells [OF dimensions [OF assms(2)], symmetric] by (simp add: comp_def)
  also have "\<dots> = map (\<lambda>(i, j). (?fs ! i, int j mod 8, int j div 8)) (places dim (length ?fs))"
  proof -
    let ?g = "\<lambda>f. map (\<lambda>j. (f, int j mod 8, int j div 8)) ?js"
    have "map ?g ?fs = map (\<lambda>i. ?g (?fs ! i)) [0..<length ?fs]" by (rule nth_equalityI) simp_all
    then show ?thesis by (simp only: places_def map_concat map_map comp_def prod.case)
  qed
  finally have l: "[(fmt, dx, dy). fmt \<leftarrow> ?fs, dy \<leftarrow> [0..dim - 1], dx \<leftarrow> [0..dim - 1]] =
      map (\<lambda>(i, j). (?fs ! i, int j mod 8, int j div 8)) (places dim (length ?fs))" .
  have "collect (\<lambda>(fmt, dx, dy). form_url st (fst ?c + dx) (snd ?c + dy) (tp_z tile) (style tile) fmt 0)
      (map (\<lambda>(i, j). (?fs ! i, int j mod 8, int j div 8)) ps) = Inr (map (place_url st tile 0) ps)"
    if "set ps \<subseteq> set (places dim (length ?fs))" for ps
    using that
  proof (induction ps)
    case (Cons p ps)
    obtain i j where p: "p = (i, j)" by (cases p)
    have "i < length ?fs" using Cons.prems p by (simp add: places_iff)
    from place_url_ok(1) [OF assms(1) this, of j 0] Cons show ?case by (simp add: p METATILE_def)
  qed simp
  from this [OF order_refl] show ?thesis by (simp only: make_get_urls_def Let_def assms(2) sum.case if_True l)
qed

subsection \<open>Cutting a metatile up\<close>

lemma read_headers_written:
  assumes "\<forall>h \<in> set hs. wf_layout h \<and> magic_ok h \<and> ml_fmt h AND fmtAll \<noteq> 0" "take 4 rest \<noteq> ''META''"
  shows "read_headers (concat (map encode_layout hs) @ rest) fmtAll = hs"
proof -
  let ?buf = "concat (map encode_layout hs) @ rest"
  have wf: "\<forall>h \<in> set hs. wf_layout h" using assms(1) by blast
  have len: "length ?buf = length hs * header_size + length rest" using length_concat_layouts [OF wf] by simp
  have "read_headers_from ?buf fmtAll (k * header_size) = drop k hs" if "k \<le> length hs" for k
    using that
  proof (induction rule: inc_induct)
    case base
    have "drop (length hs * header_size) ?buf = rest" using length_concat_layouts [OF wf] by simp
    then have "\<not> magic_ok (decode_layout (drop (length hs * header_size) ?buf))"
      using assms(2) by (simp add: magic_ok_def decode_layout_def)
    then show ?case by (subst read_headers_from.simps) (simp add: Let_def)
  next
    case (step k)
    have "(k + 1) * header_size \<le> length hs * header_size" using step(2) by (intro mult_right_mono) auto
    then have "k * header_size + header_size \<le> length ?buf" using len by (simp add: algebra_simps)
    moreover have "decode_layout (drop (k * header_size) ?buf) = hs ! k"
      using drop_concat_layouts [OF wf step(2), of rest] decode_encode_layout wf step(2) by simp
    moreover have "read_headers_from ?buf fmtAll (k * header_size + header_size) = drop (Suc k) hs"
      using step.IH by (simp add: algebra_simps)
    ultimately show ?case using assms(1) step(2)
      by (subst read_headers_from.simps) (simp add: Let_def Cons_nth_drop_Suc)
  qed
  from this [of 0] show ?thesis by (simp add: read_headers_def)
qed

definition tile_at :: "string list \<Rightarrow> nat \<times> nat \<Rightarrow> string" where
  "tile_at tiles ij = tiles ! (64 * fst ij + snd ij)"

definition place_part :: "lts \<Rightarrow> tile_protocol \<Rightarrow> string \<Rightarrow> string list \<Rightarrow> nat \<times> nat \<Rightarrow> part" where
  "place_part st tile headers tiles ij =
     \<lparr>part_data = drop (length headers + sum_list (map length (take (64 * fst ij + snd ij) tiles))) (headers @ concat tiles),
      part_name = ''file'', fileName = Some (place_url st tile 0 ij), mime = projr (mime_type_for (get_formats_vec (format tile) ! fst ij)),
      part_size = int (length (tile_at tiles ij)), position = 0\<rparr>"

text \<open>The tiles of a metatile for a place in the world: one for each format and place inside the dimension, none outside.\<close>

definition full_metatile :: "tile_protocol \<Rightarrow> int \<Rightarrow> string list \<Rightarrow> string \<Rightarrow> bool" where
  "full_metatile tile dim tiles headers \<longleftrightarrow>
     (let fs = get_formats_vec (format tile); c = xy_to_meta_xy (tp_x tile) (tp_y tile) in
      get_meta_dimensions (tp_z tile) METATILE = Inr dim \<and>
      write_headers (fst c) (snd c) (tp_z tile) fs (map (\<lambda>t. int (length t)) tiles) = Inr headers \<and>
      int32 (fst c) \<and> int32 (snd c) \<and> int32 (tp_z tile) \<and>
      length fs * header_size + length (concat tiles) < 2 ^ 31 \<and> take 4 (concat tiles) \<noteq> ''META'' \<and>
      (\<forall>i < length fs. \<forall>j < 64. tiles ! (64 * i + j) \<noteq> [] \<longleftrightarrow> inside dim j))"

lemma formats_ok: "f \<in> set (get_formats_vec m) \<Longrightarrow> int32 f \<and> f AND fmtAll \<noteq> 0 \<and> (\<exists>t. mime_type_for f = Inr t)"
  by (auto simp: get_formats_vec_def fmt_defs int32_def mime_type_for_def split: if_splits)

lemma full_layouts:
  assumes "full_metatile tile dim tiles headers"
  defines "fs \<equiv> get_formats_vec (format tile)"
  obtains hs where "headers @ concat tiles = concat (map encode_layout hs) @ concat tiles"
    "read_headers (headers @ concat tiles) fmtAll = hs" "length hs = length fs"
    "\<And>i. i < length fs \<Longrightarrow> ml_fmt (hs ! i) = fs ! i"
    "\<And>i. i < length fs \<Longrightarrow> header_tiles (hs ! i) = Inr (map (\<lambda>j.
       (j, int (length headers + sum_list (map length (take (64 * i + j) tiles))), int (length (tiles ! (64 * i + j)))))
       (filter (inside dim) [0..<64]))"
proof -
  have w: "write_headers (fst (xy_to_meta_xy (tp_x tile) (tp_y tile))) (snd (xy_to_meta_xy (tp_x tile) (tp_y tile))) (tp_z tile) fs
      (map (\<lambda>t. int (length t)) tiles) = Inr headers"
    and c: "int32 (fst (xy_to_meta_xy (tp_x tile) (tp_y tile)))" "int32 (snd (xy_to_meta_xy (tp_x tile) (tp_y tile)))" "int32 (tp_z tile)"
    and small: "length fs * header_size + length (concat tiles) < 2 ^ 31" and m: "take 4 (concat tiles) \<noteq> ''META''"
    and shape: "\<And>i j. i < length fs \<Longrightarrow> j < 64 \<Longrightarrow> tiles ! (64 * i + j) \<noteq> [] \<longleftrightarrow> inside dim j"
    using assms by (auto simp: full_metatile_def Let_def fs_def)
  have f32: "\<forall>f \<in> set fs. int32 f" using formats_ok by (auto simp: fs_def)
  obtain hs where hs: "headers = concat (map encode_layout hs)" "length hs = length fs"
    "\<forall>h \<in> set hs. wf_layout h" "\<forall>h \<in> set hs. magic_ok h" "\<And>i. i < length fs \<Longrightarrow> ml_fmt (hs ! i) = fs ! i"
    "\<And>i. i < length fs \<Longrightarrow> meta_count (hs ! i) = 64"
    "\<And>i j. i < length fs \<Longrightarrow> j < 64 \<Longrightarrow> ml_index (hs ! i) ! j =
       (int (length headers + sum_list (map length (take (64 * i + j) tiles))), int (length (tiles ! (64 * i + j))))"
    by (rule written_layouts [OF w f32 c small]) (rule that)
  have "ml_fmt h AND fmtAll \<noteq> 0" if h: "h \<in> set hs" for h
  proof -
    obtain i where "i < length fs" "h = hs ! i" using h hs(2) by (metis in_set_conv_nth)
    then show ?thesis using hs(5) formats_ok nth_mem unfolding fs_def by metis
  qed
  then have r: "read_headers (headers @ concat tiles) fmtAll = hs"
    unfolding hs(1) using hs(3,4) m by (intro read_headers_written) auto
  have "header_tiles (hs ! i) = Inr (map (\<lambda>j.
       (j, int (length headers + sum_list (map length (take (64 * i + j) tiles))), int (length (tiles ! (64 * i + j)))))
       (filter (inside dim) [0..<64]))" if i: "i < length fs" for i
  proof -
    have "length (ml_index (hs ! i)) = 64" using hs(2,3) i by (simp add: wf_layout_def)
    moreover have "[(j, ml_index (hs ! i) ! j). j \<leftarrow> js, snd (ml_index (hs ! i) ! j) \<noteq> 0] = map (\<lambda>j.
       (j, int (length headers + sum_list (map length (take (64 * i + j) tiles))), int (length (tiles ! (64 * i + j))))) (filter (inside dim) js)"
      if "set js \<subseteq> {..<64}" for js
      using that by (induction js) (auto simp: hs(7) [OF i] shape [OF i, symmetric])
    moreover have "set [0..<64] \<subseteq> {..<64::nat}" by auto
    ultimately show ?thesis using hs(6) [OF i] unfolding header_tiles_def by simp
  qed
  then show ?thesis using that [of hs] hs(1,2,5) r by simp
qed

lemma concat_places: "concat (map (\<lambda>i. map (\<lambda>j. g (i, j)) (filter (inside dim) [0..<64])) [0..<n]) = map g (places dim n)"
  by (simp add: places_def map_concat comp_def)

lemma collect_nth:
  assumes "length xs = n" "\<And>i. i < n \<Longrightarrow> f (xs ! i) = Inr (g i)"
  shows "collect f xs = Inr (map g [0..<n])"
proof -
  have "xs = map (\<lambda>i. xs ! i) [0..<n]" using assms(1) map_nth [of xs] by simp
  moreover have "collect f (map (\<lambda>i. xs ! i) is) = Inr (map g is)" if "set is \<subseteq> {..<n}" for "is"
    using that assms(2) by (induction "is") auto
  ultimately show ?thesis by (metis atLeast0LessThan atLeastLessThan_upt order_refl)
qed

lemma requests_of_metatile:
  assumes "full_metatile tile dim tiles headers" "has_hosts st"
  defines "n \<equiv> length (get_formats_vec (format tile))"
  shows "make_put_requests st tile (headers @ concat tiles) =
      Inr (map (\<lambda>ij. (place_url st tile 0 ij, [place_part st tile headers tiles ij])) (places dim n))"
    and "make_replica_urls st tile (headers @ concat tiles) = Inr (map (place_url st tile 1) (places dim n))"
proof -
  let ?fs = "get_formats_vec (format tile)" and ?mt = "headers @ concat tiles" and ?js = "filter (inside dim) [0..<64]"
  obtain hs where hs: "read_headers ?mt fmtAll = hs" "length hs = n" "\<And>i. i < n \<Longrightarrow> ml_fmt (hs ! i) = ?fs ! i"
    "\<And>i. i < n \<Longrightarrow> header_tiles (hs ! i) = Inr (map (\<lambda>j.
       (j, int (length headers + sum_list (map length (take (64 * i + j) tiles))), int (length (tiles ! (64 * i + j))))) ?js)"
    by (rule full_layouts [OF assms(1)]) (rule that, simp_all add: n_def)
  have mime: "\<exists>t. mime_type_for (?fs ! i) = Inr t" if "i < n" for i using formats_ok [OF nth_mem [of i ?fs]] that unfolding n_def by blast
  have put: "put_request st tile ?mt (?fs ! i) (j, int (length headers + sum_list (map length (take (64 * i + j) tiles))), int (length (tiles ! (64 * i + j)))) =
      Inr (place_url st tile 0 (i, j), [place_part st tile headers tiles (i, j)])" if "i < n" for i j
    using place_url_ok(1) [OF assms(2), of i tile j 0] mime [OF that] that
    by (auto simp: put_request_def place_part_def tile_at_def n_def nat_add_distrib)
  have "collect (put_request st tile ?mt (?fs ! i)) (map (\<lambda>j.
       (j, int (length headers + sum_list (map length (take (64 * i + j) tiles))), int (length (tiles ! (64 * i + j))))) ?js) =
      Inr (map (\<lambda>j. (place_url st tile 0 (i, j), [place_part st tile headers tiles (i, j)])) ?js)" if "i < n" for i
    using put [OF that] by (simp add: collect_Inr [where g = "\<lambda>e. (place_url st tile 0 (i, fst e), [place_part st tile headers tiles (i, fst e)])"] comp_def)
  then have "collect (\<lambda>h. case mime_type_for (ml_fmt h) of
             Inl e \<Rightarrow> Inl e
           | Inr _ \<Rightarrow> (case header_tiles h of Inl e \<Rightarrow> Inl e | Inr es \<Rightarrow> collect (put_request st tile ?mt (ml_fmt h)) es)) hs =
      Inr (map (\<lambda>i. map (\<lambda>j. (place_url st tile 0 (i, j), [place_part st tile headers tiles (i, j)])) ?js) [0..<n])"
    using hs(2-4) mime by (intro collect_nth) fastforce+
  then show "make_put_requests st tile ?mt =
      Inr (map (\<lambda>ij. (place_url st tile 0 ij, [place_part st tile headers tiles ij])) (places dim n))"
    unfolding make_put_requests_def hs(1) using concat_places [of "\<lambda>ij. (place_url st tile 0 ij, [place_part st tile headers tiles ij])" dim n] by simp
  let ?c = "xy_to_meta_xy (tp_x tile) (tp_y tile)"
  have "collect (\<lambda>h. case header_tiles h of
             Inl e \<Rightarrow> Inl e
           | Inr es \<Rightarrow> collect (\<lambda>(i, e). form_url st (fst ?c + int i mod METATILE) (snd ?c + int i div METATILE) (tp_z tile)
               (style tile) (ml_fmt h) 1) es) hs = Inr (map (\<lambda>i. map (\<lambda>j. place_url st tile 1 (i, j)) ?js) [0..<n])"
  proof (rule collect_nth [OF hs(2)])
    fix i assume i: "i < n"
    have "form_url st (fst ?c + int j mod METATILE) (snd ?c + int j div METATILE) (tp_z tile) (style tile) (?fs ! i) 1 = Inr (place_url st tile 1 (i, j))" for j
      using place_url_ok(1) [OF assms(2), of i tile j 1] i by (simp add: n_def)
    then show "(case header_tiles (hs ! i) of
             Inl e \<Rightarrow> Inl e
           | Inr es \<Rightarrow> collect (\<lambda>(k, e). form_url st (fst ?c + int k mod METATILE) (snd ?c + int k div METATILE) (tp_z tile)
               (style tile) (ml_fmt (hs ! i)) 1) es) = Inr (map (\<lambda>j. place_url st tile 1 (i, j)) ?js)"
      using hs(3,4) [OF i] by (simp add: collect_Inr [where g = "\<lambda>e. place_url st tile 1 (i, fst e)"] comp_def)
  qed
  then show "make_replica_urls st tile ?mt = Inr (map (place_url st tile 1) (places dim n))"
    unfolding make_replica_urls_def Let_def hs(1) using concat_places [of "place_url st tile 1" dim n] by simp
qed

text \<open>The part of a place is exactly its tile.\<close>

lemma place_part_tile:
  assumes "full_metatile tile dim tiles headers" "ij \<in> set (places dim (length (get_formats_vec (format tile))))"
  shows "whole_part (place_part st tile headers tiles ij)"
    and "take (nat (part_size (place_part st tile headers tiles ij))) (part_data (place_part st tile headers tiles ij)) = tile_at tiles ij"
proof -
  obtain i j where "ij = (i, j)" by (meson surj_pair)
  then have ij: "ij = (i, j)" "i < length (get_formats_vec (format tile))" "j < 64" using assms(2) by (simp_all add: places_iff)
  have "length tiles = length (get_formats_vec (format tile)) * 64"
    using assms(1) by (auto simp: full_metatile_def Let_def write_headers_ok)
  moreover have "64 * i + 64 \<le> 64 * length (get_formats_vec (format tile))" using ij(2) by simp
  ultimately have k: "64 * i + j < length tiles" using ij(3) by simp
  show "take (nat (part_size (place_part st tile headers tiles ij))) (part_data (place_part st tile headers tiles ij)) = tile_at tiles ij"
    using take_drop_concat [OF k] by (simp add: place_part_def ij(1) tile_at_def)
  show "whole_part (place_part st tile headers tiles ij)"
    using tile_in_concat [OF k] by (simp add: whole_part_def place_part_def ij(1) tile_at_def)
qed

subsection \<open>Putting it together again\<close>

lemma cell_sizes_tiles:
  assumes "length cs = length ts" "\<And>k. k < length cs \<Longrightarrow> ts ! k \<noteq> [] \<longleftrightarrow> fst (cs ! k) < dim \<and> snd (cs ! k) < dim"
    and "\<forall>t \<in> set ts. int (length t) < 2 ^ 31" "map body rs = filter (\<lambda>t. t \<noteq> []) ts"
  shows "cell_sizes dim cs rs = Inr (map (\<lambda>t. int (length t)) ts, [])"
  using assms
proof (induction cs ts arbitrary: rs rule: list_induct2')
  case (4 c cs t ts)
  obtain x y where c: "c = (x, y)" by (meson surj_pair)
  have k: "ts ! k \<noteq> [] \<longleftrightarrow> fst (cs ! k) < dim \<and> snd (cs ! k) < dim" if "k < length cs" for k
    using "4.prems"(2) [of "Suc k"] that by simp
  have t: "t \<noteq> [] \<longleftrightarrow> x < dim \<and> y < dim" using "4.prems"(2) [of 0] c by simp
  show ?case
  proof (cases "t = []")
    case True
    then have "cell_sizes dim cs rs = Inr (map (\<lambda>t. int (length t)) ts, [])" using "4.IH" [OF _ k] "4.prems" by simp
    then show ?thesis using True t c by auto
  next
    case False
    then obtain r rs' where r: "rs = r # rs'" "body r = t" "map body rs' = filter (\<lambda>t. t \<noteq> []) ts" using "4.prems"(4) by auto
    then have "cell_sizes dim cs rs' = Inr (map (\<lambda>t. int (length t)) ts, [])" using "4.IH" [OF _ k] "4.prems" by simp
    moreover have "int32 (int (length t))" using "4.prems"(3) by (simp add: int32_def)
    ultimately show ?thesis using False t c r(1,2) by simp
  qed
qed auto

lemma meta_cells_upt: "meta_cells = map (\<lambda>j. (int j mod 8, int j div 8)) [0..<64]"
  by (simp add: meta_cells_def upt_rec upto_rec1)

lemma meta_cells_nth: "length meta_cells = 64" "j < 64 \<Longrightarrow> meta_cells ! j = (int j mod 8, int j div 8)"
  by (simp_all add: meta_cells_upt)

lemma nth_concat_replicate:
  assumes "length xs = m" "k < n * m"
  shows "concat (replicate n xs) ! k = xs ! (k mod m)"
  using assms
proof (induction n arbitrary: k)
  case (Suc n)
  show ?case
  proof (cases "k < m")
    case False
    then have "concat (replicate n xs) ! (k - m) = xs ! ((k - m) mod m)" using Suc by simp
    moreover have "(k - m) mod m = k mod m" using False by (simp add: le_mod_geq)
    ultimately show ?thesis using False Suc.prems by (simp add: nth_append)
  qed (use Suc.prems in \<open>simp add: nth_append\<close>)
qed simp

lemma filter_tiles:
  assumes "full_metatile tile dim tiles headers"
  shows "filter (\<lambda>t. t \<noteq> []) tiles = map (tile_at tiles) (places dim (length (get_formats_vec (format tile))))"
proof -
  let ?n = "length (get_formats_vec (format tile))"
  have shape: "\<And>i j. i < ?n \<Longrightarrow> j < 64 \<Longrightarrow> tiles ! (64 * i + j) \<noteq> [] \<longleftrightarrow> inside dim j"
    and len: "length tiles = ?n * 64"
    using assms by (auto simp: full_metatile_def Let_def write_headers_ok)
  have "filter (\<lambda>t. t \<noteq> []) (take (k * 64) tiles) = map (tile_at tiles) (places dim k)" if "k \<le> ?n" for k
    using that
  proof (induction k)
    case (Suc k)
    have "take (Suc k * 64) tiles = take (k * 64) tiles @ map (\<lambda>j. tiles ! (64 * k + j)) [0..<64]"
    proof -
      have "take 64 (drop (k * 64) tiles) = map (\<lambda>j. tiles ! (64 * k + j)) [0..<64]"
        using Suc.prems len by (intro nth_equalityI) (auto simp: mult.commute)
      then show ?thesis using take_add [of "k * 64" 64 tiles] by (simp add: add.commute)
    qed
    moreover have "filter (\<lambda>t. t \<noteq> []) (map (\<lambda>j. tiles ! (64 * k + j)) js) = map (\<lambda>j. tiles ! (64 * k + j)) (filter (inside dim) js)"
      if "set js \<subseteq> {..<64}" for js
      using that shape [of k] Suc.prems by (induction js) auto
    moreover have "set [0..<64] \<subseteq> {..<64::nat}" by auto
    ultimately show ?case using Suc by (simp add: places_def tile_at_def comp_def)
  qed (simp add: places_def)
  from this [of ?n] show ?thesis using len by simp
qed

lemma make_metatile_full:
  assumes "full_metatile tile dim tiles headers"
    and "map body rs = map (tile_at tiles) (places dim (length (get_formats_vec (format tile))))"
  shows "make_metatile tile rs = Inr (headers @ concat tiles)"
proof -
  let ?fs = "get_formats_vec (format tile)"
  have w: "get_meta_dimensions (tp_z tile) METATILE = Inr dim"
      "write_headers (fst (xy_to_meta_xy (tp_x tile) (tp_y tile))) (snd (xy_to_meta_xy (tp_x tile) (tp_y tile))) (tp_z tile) ?fs
        (map (\<lambda>t. int (length t)) tiles) = Inr headers"
    and small: "length (concat tiles) < 2 ^ 31" and shape: "\<And>i j. i < length ?fs \<Longrightarrow> j < 64 \<Longrightarrow> tiles ! (64 * i + j) \<noteq> [] \<longleftrightarrow> inside dim j"
    using assms(1) by (auto simp: full_metatile_def Let_def)
  have len: "length tiles = length ?fs * 64" using w(2) by (simp add: write_headers_ok)
  have b: "map body rs = filter (\<lambda>t. t \<noteq> []) tiles" using assms(2) filter_tiles [OF assms(1)] by simp
  let ?cs = "concat (replicate (length ?fs) meta_cells)"
  have lc: "length ?cs = length tiles" using len by (simp add: length_concat meta_cells_nth(1) sum_list_replicate)
  have "cell_sizes dim ?cs rs = Inr (map (\<lambda>t. int (length t)) tiles, [])"
  proof (rule cell_sizes_tiles [OF lc _ _ b])
    fix k assume k: "k < length ?cs"
    then have k': "k < length ?fs * 64" using lc len by simp
    then have d: "k div 64 < length ?fs" by (simp add: less_mult_imp_div_less)
    have "?cs ! k = (int (k mod 64) mod 8, int (k mod 64) div 8)"
      using nth_concat_replicate [OF meta_cells_nth(1) k'] meta_cells_nth(2) [of "k mod 64"] by simp
    moreover have "tiles ! k \<noteq> [] \<longleftrightarrow> inside dim (k mod 64)" using shape [OF d, of "k mod 64"] by simp
    ultimately show "tiles ! k \<noteq> [] \<longleftrightarrow> fst (?cs ! k) < dim \<and> snd (?cs ! k) < dim" by (simp add: inside_def)
  next
    show "\<forall>t \<in> set tiles. int (length t) < 2 ^ 31"
    proof
      fix t assume "t \<in> set tiles"
      then have "length t \<le> length (concat tiles)" by (rule length_le_concat)
      then have "length t < 2 ^ 31" using small by linarith
      then show "int (length t) < 2 ^ 31" by simp
    qed
  qed
  moreover have "concat (filter (\<lambda>t. t \<noteq> []) ts) = concat ts" for ts :: "string list" by (induction ts) auto
  ultimately show ?thesis using w b by (simp add: make_metatile_def Let_def)
qed

subsection \<open>The round trip\<close>

text \<open>A tile of the same metatile, style and formats.\<close>

definition same_metatile :: "tile_protocol \<Rightarrow> tile_protocol \<Rightarrow> bool" where
  "same_metatile a b \<longleftrightarrow> xy_to_meta_xy (tp_x a) (tp_y a) = xy_to_meta_xy (tp_x b) (tp_y b) \<and> tp_z a = tp_z b \<and>
     style a = style b \<and> format a = format b"

lemma same_metatile_eq:
  assumes "same_metatile tile' tile"
  shows "full_metatile tile' dim tiles headers = full_metatile tile dim tiles headers"
    and "place_url st tile' r = place_url st tile r" and "format tile' = format tile" and "tp_z tile' = tp_z tile"
  using assms by (auto simp: same_metatile_def full_metatile_def place_url_def fun_eq_iff)

text \<open>
  C29. A metatile written to the long-term store is read back byte for byte under every tile of it: it is cut up into its tiles, these are uploaded to
  the addresses of both copies, and the read fetches them in the right order and rebuilds the same file. This holds for a
  metatile whose places in the world all have a tile, when requests are made one at a time.
\<close>

theorem lts_put_get_meta:
  assumes server: "tile_server lib store" and st: "has_hosts st" "lts_concurrency st < 2"
    and full: "full_metatile tile dim tiles headers" and now: "0 < clock lib w" "clock lib w < 253402300800" and same: "same_metatile tile' tile"
  shows "\<exists>w'. lts_put_meta lib st tile (headers @ concat tiles) w = (w', Inr True) \<and>
    lts_get_meta lib st tile' (s\<lparr>lts_world := w'\<rparr>) = (s\<lparr>lts_world := w'\<rparr>, Inr (Some (headers @ concat tiles)))"
proof -
  let ?n = "length (get_formats_vec (format tile))" and ?mt = "headers @ concat tiles" and ?tt = "clock lib w"
  let ?ps = "places dim ?n"
  let ?reqs = "map (\<lambda>ij. (place_url st tile 0 ij, [place_part st tile headers tiles ij])) ?ps"
  let ?reqs1 = "map2 to_replica ?reqs (map (place_url st tile 1) ?ps)"
  note reqs = requests_of_metatile [OF full st(1)] and part = place_part_tile [OF full]
  obtain w1 where w1: "put_meta_serial lib None ?reqs (make_headers (Some ?tt) [replica_header 0]) w = (w1, Inr True)"
      "\<forall>r \<in> set ?reqs. store w1 (fst r, 0) = Some (take (nat (part_size (hd (snd r)))) (part_data (hd (snd r))), ?tt)"
    using put_serial_stores [OF server, of ?reqs ?tt 0 w] now part distinct_urls [OF st(1), of ?n tile 0 dim] by (auto simp: comp_def)
  have r1: "?reqs1 = map (\<lambda>ij. (place_url st tile 1 ij, [(place_part st tile headers tiles ij)\<lparr>fileName := Some (place_url st tile 1 ij)\<rparr>])) ?ps"
    by (simp add: zip_map1 zip_map2 zip_same_conv_map to_replica_def place_part_def)
  have whole: "whole_part (p\<lparr>fileName := f\<rparr>) = whole_part p" for p f by (simp add: whole_part_def)
  obtain w2 where w2: "put_meta_serial lib None ?reqs1 (make_headers (Some ?tt) [replica_header 1]) w1 = (w2, Inr True)"
      "\<forall>u k. k \<noteq> 1 \<longrightarrow> store w2 (u, k) = store w1 (u, k)"
    using put_serial_stores [OF server, of ?reqs1 ?tt 1 w1] now part distinct_urls [OF st(1), of ?n tile 1 dim]
    unfolding r1 by (auto simp: comp_def whole)
  have stored: "store w2 (place_url st tile 0 ij, 0) = Some (tile_at tiles ij, ?tt)" if "ij \<in> set ?ps" for ij
    using w1(2) w2(2) that part(2) [OF that] by simp
  define D where "D u = fst (the (store w2 (u, 0)))" for u
  have urls: "make_get_urls st tile' True = Inr (map (place_url st tile 0) ?ps)"
    using get_urls_places [OF st(1), of tile' dim] full same_metatile_eq [OF same] by (simp add: full_metatile_def Let_def)
  have "get_meta_serial lib None (map (place_url st tile 0) ?ps) (make_headers None [replica_header 0]) w2 =
      (w2, Inr (True, map (\<lambda>u. \<lparr>statusCode = 200, timeStamp = ?tt, resp_headers = [], body = D u\<rparr>) (map (place_url st tile 0) ?ps)))"
    by (rule get_serial_stored [OF server]) (use stored now in \<open>auto simp: D_def\<close>)
  then have got: "replica_responses lib st tile' True w2 =
      (w2, Inr (True, map (\<lambda>u. \<lparr>statusCode = 200, timeStamp = ?tt, resp_headers = [], body = D u\<rparr>) (map (place_url st tile 0) ?ps)))"
    using st(2) by (simp add: replica_responses_def urls get_requests_def)
  have "make_metatile tile' (map (\<lambda>u. \<lparr>statusCode = 200, timeStamp = ?tt, resp_headers = [], body = D u\<rparr>) (map (place_url st tile 0) ?ps)) = Inr ?mt"
    by (rule make_metatile_full) (use full same_metatile_eq [OF same] stored in \<open>auto simp: D_def\<close>)
  then have "lts_get_meta lib st tile' (s\<lparr>lts_world := w2\<rparr>) = (s\<lparr>lts_world := w2\<rparr>, Inr (Some ?mt))"
    using got by (simp add: lts_get_meta_def Let_def)
  moreover have "lts_put_meta lib st tile ?mt w = (w2, Inr True)"
    using w1(1) w2(1) st(2) by (simp add: lts_put_meta_def Let_def reqs put_requests_def)
  ultimately show ?thesis by blast
qed

text \<open>A server that keeps its tiles in a table, reads the copy and the time from the headers, and a metatile of one tile.\<close>

definition table_perform :: "easy_opts \<Rightarrow> (string \<times> nat \<Rightarrow> (string \<times> int) option) \<Rightarrow> (string \<times> nat \<Rightarrow> (string \<times> int) option) \<times> transfer" where
  "table_perform opts w =
     (let key = (o_url opts, undec (drop 11 (last (o_headers opts))));
          answer = (\<lambda>code d tt. \<lparr>tr_status = 0, tr_error = [], tr_chunks = [d], tr_lines = [], tr_code = code, tr_filetime = tt\<rparr>) in
      case o_method opts of
        Http_Form ps sub \<Rightarrow> (w(key \<mapsto> (take (nat (part_size (hd ps))) (part_data (hd ps)), the (parse_http_date (drop 15 (hd (o_headers opts)))))), answer 200 [] 0)
      | _ \<Rightarrow> (w, case w key of Some (d, tt) \<Rightarrow> answer 200 d tt | None \<Rightarrow> answer 404 [] (-1)))"

definition table_lib :: "(string \<times> nat \<Rightarrow> (string \<times> int) option) http_lib" where
  "table_lib = \<lparr>easy_init = (\<lambda>w. (w, True)), easy_perform = table_perform,
     multi_perform = (\<lambda>opts n w. (w, \<lparr>me_transfers = (\<lambda>i. undefined), me_init = (False, False), me_rounds = []\<rparr>)), clock = (\<lambda>w. 1000)\<rparr>"

lemma table_server: "tile_server table_lib (\<lambda>w. w)"
proof -
  have n: "undec (drop 11 (replica_header n)) = n" for n by (simp add: replica_header_def undec_dec_nat)
  have t: "parse_http_date (drop 15 (hd (make_headers (Some tt) xs))) = Some tt" if "0 \<le> tt" "tt < 253402300800" for tt xs
    using parse_printed_date [OF that, of "[]"] by (simp add: make_headers_def)
  have l: "last (make_headers lm [x]) = x" for lm x by (simp add: make_headers_def)
  show ?thesis unfolding tile_server_def by (auto simp: table_lib_def table_perform_def Let_def l n t)
qed

definition ex_tiles :: "string list" where
  "ex_tiles = ''png'' # replicate 63 []"

lemma ex_full: "\<exists>headers. full_metatile default_tile 1 ex_tiles headers"
proof -
  have f: "get_formats_vec fmtPNG = [fmtPNG]" by (simp add: get_formats_vec_def fmt_defs)
  have t: "tp_x default_tile = 0" "tp_y default_tile = 0" "tp_z default_tile = 0" "format default_tile = fmtPNG"
    by (simp_all add: default_tile_def)
  have c: "xy_to_meta_xy 0 0 = (0, 0)" by (simp add: xy_to_meta_xy_def)
  have "\<exists>headers. write_headers 0 0 0 [fmtPNG] (map (\<lambda>t. int (length t)) ex_tiles) = Inr headers"
    by (simp add: write_headers_def ex_tiles_def)
  moreover have "ex_tiles ! j \<noteq> [] \<longleftrightarrow> inside 1 j" if "j < 64" for j
  proof (cases j)
    case (Suc k)
    have "\<not> inside 1 (Suc k)" by (simp add: inside_def) presburger
    then show ?thesis using that Suc by (simp add: ex_tiles_def)
  qed (simp add: ex_tiles_def inside_def)
  moreover have "concat ex_tiles = ''png''" by (simp add: ex_tiles_def)
  ultimately show ?thesis unfolding full_metatile_def Let_def t f c
    by (simp add: get_meta_dimensions_def METATILE_def int32_def header_size_def)
qed

theorem lts_put_get_meta_witness:
  "\<exists>headers w'. lts_put_meta table_lib ex_lts default_tile (headers @ ''png'') (\<lambda>_. None) = (w', Inr True) \<and>
     lts_get_meta table_lib ex_lts default_tile \<lparr>lts_world = w', hosts_down = Map.empty\<rparr> =
       (\<lparr>lts_world = w', hosts_down = Map.empty\<rparr>, Inr (Some (headers @ ''png'')))"
proof -
  obtain headers where h: "full_metatile default_tile 1 ex_tiles headers" using ex_full by blast
  have c: "concat ex_tiles = ''png''" by (simp add: ex_tiles_def)
  show ?thesis
    using lts_put_get_meta [OF table_server _ _ h, of ex_lts "\<lambda>_. None" default_tile "\<lparr>lts_world = (\<lambda>_. None), hosts_down = Map.empty\<rparr>"]
    unfolding c by (auto simp: has_hosts_def ex_lts_def ex_hosts_def table_lib_def same_metatile_def)
qed

end
