(* ===== verification/Expire_Tiles.thy ===== *)
theory Expire_Tiles
  imports Storage Decimal
begin

text \<open>
  The tool that expires lists of tiles (\<^verbatim>\<open>expire_tiles.cpp\<close>): reading the tiles, adding the metatiles above and
  below them, splitting the work among threads and expiring each metatile in each style and format. The special case for the
  LTS storage is in \<open>Expire_Lts\<close>.
\<close>

subsection \<open>Reading a tile\<close>

datatype token_order = order_x_y_z | order_z_x_y

definition malformatted :: cpp_error where
  "malformatted = Runtime_Error ''Malformatted line.''"

text \<open>Reading the first token of a line without any is undefined.\<close>

definition tile_parser :: "string \<Rightarrow> token_order \<Rightarrow> string \<Rightarrow> cpp_error + tile_protocol" where
  "tile_parser delimiter order l =
     (let cast = lexical_cast_int in
      case tokens_by (\<lambda>c. c \<in> set delimiter) l [] of
        [] \<Rightarrow> Inl Undefined_Behaviour
      | a # r1 \<Rightarrow>
        (case cast a of Inl e \<Rightarrow> Inl e | Inr va \<Rightarrow>
        (case r1 of [] \<Rightarrow> Inl malformatted | b # r2 \<Rightarrow>
        (case cast b of Inl e \<Rightarrow> Inl e | Inr vb \<Rightarrow>
        (case r2 of [] \<Rightarrow> Inl malformatted | c # r3 \<Rightarrow>
        (case cast c of Inl e \<Rightarrow> Inl e | Inr vc \<Rightarrow>
          if r3 \<noteq> [] then Inl malformatted
          else Inr (if order = order_z_x_y then default_tile\<lparr>tp_z := va, tp_x := vb, tp_y := vc\<rparr>
                    else default_tile\<lparr>tp_x := va, tp_y := vb, tp_z := vc\<rparr>)))))))"

subsection \<open>Parents and children\<close>

datatype xyz = XYZ (m_x: int) (m_y: int) (m_z: int)

definition xyz_meta :: "xyz \<Rightarrow> xyz" where
  "xyz_meta t = XYZ (m_x t AND NOT (METATILE - 1)) (m_y t AND NOT (METATILE - 1)) (m_z t)"

text \<open>\<open>None\<close> where the shift overflows an \<^verbatim>\<open>int\<close>.\<close>

definition first_child :: "xyz \<Rightarrow> xyz option" where
  "first_child t =
     (let x = push_bit 1 (m_x t); y = push_bit 1 (m_y t)
      in if m_x t < 0 \<or> m_y t < 0 \<or> \<not> int32 (x + 1) \<or> \<not> int32 (y + 1) then None else Some (XYZ x y (m_z t + 1)))"

function child_tiles :: "xyz \<Rightarrow> int \<Rightarrow> xyz set \<Rightarrow> xyz set option" where
  "child_tiles tile max_z tiles =
     (let tiles1 = insert (xyz_meta tile) tiles
      in if m_z tile < max_z then
           (case first_child tile of
              None \<Rightarrow> None
            | Some (XYZ x y z) \<Rightarrow>
              (case child_tiles (XYZ x y (m_z tile + 1)) max_z tiles1 of None \<Rightarrow> None | Some tiles2 \<Rightarrow>
              (case child_tiles (XYZ (x + 1) y (m_z tile + 1)) max_z tiles2 of None \<Rightarrow> None | Some tiles3 \<Rightarrow>
              (case child_tiles (XYZ (x + 1) (y + 1) (m_z tile + 1)) max_z tiles3 of None \<Rightarrow> None | Some tiles4 \<Rightarrow>
               child_tiles (XYZ x (y + 1) (m_z tile + 1)) max_z tiles4))))
         else Some tiles1)"
  by pat_completeness auto
termination
  by (relation "measure (\<lambda>(tile, max_z, tiles). nat (max_z - m_z tile))") auto

declare child_tiles.simps [simp del]

function parent_tiles :: "xyz \<Rightarrow> int \<Rightarrow> xyz set \<Rightarrow> xyz set" where
  "parent_tiles tile min_z tiles =
     (let tiles1 = insert (xyz_meta tile) tiles
      in if m_z tile > min_z
         then parent_tiles (XYZ (drop_bit 1 (m_x tile)) (drop_bit 1 (m_y tile)) (m_z tile - 1)) min_z tiles1
         else tiles1)"
  by pat_completeness auto
termination
  by (relation "measure (\<lambda>(tile, min_z, tiles). nat (m_z tile - min_z))") auto

declare parent_tiles.simps [simp del]

text \<open>What a line of the input adds; the limits are those of the options, or the ends of \<^verbatim>\<open>int\<close> without them.\<close>

definition limit_min :: "int option \<Rightarrow> int" where
  "limit_min m = (case m of Some z \<Rightarrow> min (2 ^ 31 - 1) z | None \<Rightarrow> 2 ^ 31 - 1)"

definition limit_max :: "int option \<Rightarrow> int" where
  "limit_max m = (case m of Some z \<Rightarrow> max (- (2 ^ 31)) z | None \<Rightarrow> - (2 ^ 31))"

definition add_tile :: "int option \<Rightarrow> int option \<Rightarrow> tile_protocol \<Rightarrow> xyz set \<Rightarrow> xyz set option" where
  "add_tile expire_min_z expire_max_z tile all_tiles =
     (let tile_xyz = XYZ (tp_x tile AND NOT (METATILE - 1)) (tp_y tile AND NOT (METATILE - 1)) (tp_z tile);
          zmin = min (tp_z tile) (limit_min expire_min_z);
          zmax = max (tp_z tile) (limit_max expire_max_z)
      in map_option (parent_tiles tile_xyz zmin) (child_tiles tile_xyz zmax all_tiles))"

subsection \<open>Splitting the work\<close>

text \<open>The tiles in the order in which the set is walked. Without threads the division fails.\<close>

definition tiles_per_thread :: "nat \<Rightarrow> nat \<Rightarrow> nat option" where
  "tiles_per_thread cnt n = (if n = 0 then None else Some (cnt div n + (if cnt mod n > 0 then 1 else 0)))"

fun distribute :: "nat \<Rightarrow> nat \<Rightarrow> 'a list \<Rightarrow> 'a list list" where
  "distribute k 0 xs = []"
| "distribute k (Suc n) xs = take k xs # distribute k n (drop k xs)"

definition thread_tiles :: "nat \<Rightarrow> 'a list \<Rightarrow> 'a list list option" where
  "thread_tiles n xs = map_option (\<lambda>k. distribute k n xs) (tiles_per_thread (length xs) n)"

subsection \<open>Expiring\<close>

record storage_expire =
  se_min_z :: int
  se_max_z :: int

definition mk_storage_expire :: "int option \<Rightarrow> int option \<Rightarrow> storage_expire" where
  "mk_storage_expire min_z max_z =
     \<lparr>se_min_z = (case min_z of Some z \<Rightarrow> z | None \<Rightarrow> - (2 ^ 31)), se_max_z = (case max_z of Some z \<Rightarrow> z | None \<Rightarrow> 2 ^ 31 - 1)\<rparr>"

text \<open>The handle lives until the end of the function; the result of \<^verbatim>\<open>expire\<close> is not looked at.\<close>

definition generic_expire :: "'s tile_storage \<Rightarrow> ('s \<Rightarrow> 's) \<Rightarrow> storage_expire \<Rightarrow> tile_protocol \<Rightarrow> 's \<Rightarrow> 's \<times> (cpp_error + bool)" where
  "generic_expire st release se job s =
     (case st_get st job s of
        (s1, Inl e) \<Rightarrow> (s1, Inl e)
      | (s1, Inr h) \<Rightarrow>
        (let is_clean = (h_exists h \<and> \<not> h_expired h)
         in if is_clean \<and> tp_z job \<ge> se_min_z se \<and> tp_z job \<le> se_max_z se
            then (case st_expire st job s1 of (s2, Inl e) \<Rightarrow> (release s2, Inl e) | (s2, Inr _) \<Rightarrow> (release s2, Inr is_clean))
            else (release s1, Inr is_clean)))"

text \<open>The jobs that the three loops visit, in order; \<open>types\<close> and \<open>formats\<close> are looked up for each style.\<close>

definition expire_jobs :: "string list \<Rightarrow> (string \<rightharpoonup> string) \<Rightarrow> (string \<rightharpoonup> protoFmt list) \<Rightarrow> xyz list \<Rightarrow> tile_protocol list" where
  "expire_jobs styles types formats tile_list =
     concat (map (\<lambda>t. concat (map (\<lambda>sty.
       (case (types sty, formats sty) of
          (Some ty, Some fmts) \<Rightarrow>
            map (\<lambda>f. default_tile\<lparr>status := cmdRenderBulk, tp_x := m_x t, tp_y := m_y t, tp_z := m_z t, style := ty, format := f\<rparr>) fmts
        | _ \<Rightarrow> [])) styles)) tile_list)"

fun expire_all :: "'s tile_storage \<Rightarrow> ('s \<Rightarrow> 's) \<Rightarrow> storage_expire \<Rightarrow> tile_protocol list \<Rightarrow> 's \<Rightarrow> 's \<times> (cpp_error + unit)" where
  "expire_all st release se [] s = (s, Inr ())"
| "expire_all st release se (job # jobs) s =
     (case generic_expire st release se job s of
        (s1, Inl e) \<Rightarrow> (s1, Inl e)
      | (s1, Inr _) \<Rightarrow> expire_all st release se jobs s1)"

text \<open>
  The function of a thread; a dry run visits the jobs and does nothing. Counting the tiles beforehand takes the formats of
  every style for granted.
\<close>

definition expire_tiles :: "'s tile_storage \<Rightarrow> ('s \<Rightarrow> 's) \<Rightarrow> bool \<Rightarrow> int option \<Rightarrow> int option \<Rightarrow> string list \<Rightarrow> (string \<rightharpoonup> string) \<Rightarrow>
    (string \<rightharpoonup> protoFmt list) \<Rightarrow> xyz list \<Rightarrow> 's \<Rightarrow> 's \<times> (cpp_error + unit)" where
  "expire_tiles st release perform_actions min_z max_z styles types formats tile_list s =
     (if \<exists>sty \<in> set styles. formats sty = None then (s, Inl Undefined_Behaviour)
      else if perform_actions
      then expire_all st release (mk_storage_expire min_z max_z) (expire_jobs styles types formats tile_list) s
      else (s, Inr ()))"

end
