(* ===== verification/Expire_Props.thy ===== *)
theory Expire_Props
  imports Expire_Tiles
begin

text \<open>
  Properties of the expiry tool: which metatiles a tile of the input leads to, above and below it, that the
  threads share the work without loss, and what is expired.
\<close>

subsection \<open>Tiles under a tile\<close>

definition under :: "xyz \<Rightarrow> xyz \<Rightarrow> bool" where
  "under t u \<longleftrightarrow> m_z t \<le> m_z u \<and> m_x u div 2 ^ nat (m_z u - m_z t) = m_x t \<and> m_y u div 2 ^ nat (m_z u - m_z t) = m_y t"

lemma under_refl [simp]: "under t t"
  by (simp add: under_def)

lemma under_same_level: "under t u \<Longrightarrow> m_z u = m_z t \<Longrightarrow> u = t"
  by (cases t; cases u) (simp add: under_def)

definition children :: "xyz \<Rightarrow> xyz list" where
  "children t = (let x = 2 * m_x t; y = 2 * m_y t; z = m_z t + 1 in [XYZ x y z, XYZ (x + 1) y z, XYZ (x + 1) (y + 1) z, XYZ x (y + 1) z])"

lemma half_cases: "(n :: int) div 2 = m \<longleftrightarrow> n = 2 * m \<or> n = 2 * m + 1"
  by presburger

lemma under_children:
  assumes "m_z t < m_z u"
  shows "under t u \<longleftrightarrow> (\<exists>c \<in> set (children t). under c u)"
proof -
  let ?k = "nat (m_z u - (m_z t + 1))"
  have k: "nat (m_z u - m_z t) = Suc ?k" using assms by simp
  have d: "(n :: int) div 2 ^ Suc ?k = (n div 2 ^ ?k) div 2" for n by (simp add: div_mult2_eq mult.commute flip: zdiv_zmult2_eq)
  show ?thesis
    using assms unfolding under_def k d half_cases by (auto simp: children_def Let_def)
qed

lemma under_split:
  "{u. under t u \<and> m_z u \<le> mz} = (if m_z t \<le> mz then {t} else {}) \<union> (\<Union>c \<in> set (children t). {u. under c u \<and> m_z u \<le> mz})"
proof -
  have up: "under c u \<Longrightarrow> c \<in> set (children t) \<Longrightarrow> m_z t < m_z u" for c u
    by (auto simp: under_def children_def Let_def)
  have "under t u \<longleftrightarrow> u = t \<or> (\<exists>c \<in> set (children t). under c u)" for u
  proof (cases "m_z t < m_z u")
    case True
    then show ?thesis using under_children by auto
  next
    case False
    then show ?thesis using up under_same_level [of t u] by (auto simp: under_def [of t])
  qed
  then show ?thesis by auto
qed

text \<open>Coordinates of a tile of its level, with levels that an \<^verbatim>\<open>int\<close> can hold.\<close>

definition in_world :: "xyz \<Rightarrow> bool" where
  "in_world t \<longleftrightarrow> 0 \<le> m_z t \<and> 0 \<le> m_x t \<and> m_x t < 2 ^ nat (m_z t) \<and> 0 \<le> m_y t \<and> m_y t < 2 ^ nat (m_z t)"

lemma in_world_children: "in_world t \<Longrightarrow> c \<in> set (children t) \<Longrightarrow> in_world c"
  by (auto simp: in_world_def children_def Let_def nat_add_distrib)

lemma first_child_in_world:
  assumes "in_world t" "m_z t < 31"
  shows "first_child t = Some (XYZ (2 * m_x t) (2 * m_y t) (m_z t + 1))"
proof -
  have "(2 :: int) ^ nat (m_z t) \<le> 2 ^ 30" using assms by (intro power_increasing) (auto simp: in_world_def)
  then show ?thesis using assms by (simp add: first_child_def in_world_def int32_def Let_def push_bit_eq_mult)
qed

lemma child_tiles_children:
  assumes "in_world t" "m_z t < 31" "m_z t < mz"
  shows "child_tiles t mz S = foldl (\<lambda>r c. Option.bind r (child_tiles c mz)) (Some (insert (xyz_meta t) S)) (children t)"
  by (subst child_tiles.simps)
     (use assms first_child_in_world [OF assms(1,2)] in \<open>simp add: children_def Let_def split: option.split\<close>)

lemma child_tiles_set:
  assumes "in_world t" "m_z t \<le> mz" "mz \<le> 31"
  shows "child_tiles t mz S = Some (S \<union> xyz_meta ` {u. under t u \<and> m_z u \<le> mz})"
  using assms
proof (induction "nat (mz - m_z t)" arbitrary: t S)
  case 0
  then have z: "m_z t = mz" by simp
  then have "{u. under t u \<and> m_z u \<le> mz} = {t}"
    using under_same_level [of t] by (auto simp: under_def)
  then show ?case using z by (subst child_tiles.simps) simp
next
  case (Suc n)
  have lt: "m_z t < mz" using Suc.hyps(2) by simp
  have step: "child_tiles c mz R = Some (R \<union> xyz_meta ` {u. under c u \<and> m_z u \<le> mz})" if "c \<in> set (children t)" for c R
  proof (rule Suc.hyps(1))
    show "n = nat (mz - m_z c)" "m_z c \<le> mz" using that Suc.hyps(2) lt by (auto simp: children_def Let_def)
  qed (use in_world_children [OF Suc.prems(1) that] Suc.prems(3) in auto)
  have "foldl (\<lambda>r c. Option.bind r (child_tiles c mz)) (Some R) cs =
      Some (R \<union> xyz_meta ` (\<Union>c \<in> set cs. {u. under c u \<and> m_z u \<le> mz}))" if "set cs \<subseteq> set (children t)" for cs R
    using that by (induction cs arbitrary: R) (auto simp: step)
  then show ?case
    unfolding child_tiles_children [OF Suc.prems(1) _ lt]
    using lt Suc.prems(3) under_split [of t mz] by (subst child_tiles_children) (auto simp: Suc.prems(1))
qed

subsection \<open>Metatiles above a tile\<close>

lemma and_not_metatile: "(n :: int) AND NOT (METATILE - 1) = 8 * (n div 8)"
  using and_not_7 [of n] by (simp add: METATILE_def minus_mod_eq_mult_div)

lemma xyz_meta_eq: "xyz_meta t = XYZ (8 * (m_x t div 8)) (8 * (m_y t div 8)) (m_z t)"
  by (simp add: xyz_meta_def and_not_metatile)

lemma under_parent:
  assumes "m_z u < m_z t"
  shows "under u t \<longleftrightarrow> under u (XYZ (drop_bit 1 (m_x t)) (drop_bit 1 (m_y t)) (m_z t - 1))"
proof -
  let ?k = "nat (m_z t - 1 - m_z u)"
  have k: "nat (m_z t - m_z u) = Suc ?k" using assms by simp
  have d: "(n :: int) div 2 ^ Suc ?k = drop_bit 1 n div 2 ^ ?k" for n
    by (simp add: drop_bit_eq_div zdiv_zmult2_eq)
  show ?thesis using assms unfolding under_def k d by simp
qed

lemma parent_tiles_set:
  assumes "mz \<le> m_z t"
  shows "parent_tiles t mz S = S \<union> xyz_meta ` {u. under u t \<and> mz \<le> m_z u}"
  using assms
proof (induction "nat (m_z t - mz)" arbitrary: t S)
  case 0
  then have z: "m_z t = mz" by simp
  then have "{u. under u t \<and> mz \<le> m_z u} = {t}"
    using under_same_level by (auto simp: under_def xyz.expand)
  then show ?case using z by (subst parent_tiles.simps) simp
next
  case (Suc n)
  let ?p = "XYZ (drop_bit 1 (m_x t)) (drop_bit 1 (m_y t)) (m_z t - 1)"
  have lt: "mz < m_z t" using Suc.hyps(2) by simp
  have "parent_tiles ?p mz (insert (xyz_meta t) S) = insert (xyz_meta t) S \<union> xyz_meta ` {u. under u ?p \<and> mz \<le> m_z u}"
    by (rule Suc.hyps(1)) (use Suc.hyps(2) lt in auto)
  moreover have "{u. under u t \<and> mz \<le> m_z u} = insert t {u. under u ?p \<and> mz \<le> m_z u}"
  proof (rule set_eqI, goal_cases)
    case (1 u)
    show ?case
    proof (cases "m_z u < m_z t")
      case True
      then have "u \<noteq> t" by auto
      then show ?thesis using under_parent [OF True] by simp
    next
      case False
      then have "under u t \<longleftrightarrow> u = t" using under_same_level [of u t] by (auto simp: under_def)
      moreover have "\<not> under u ?p" using False by (simp add: under_def)
      ultimately show ?thesis using lt by auto
    qed
  qed
  ultimately show ?case using lt by (subst parent_tiles.simps) simp
qed

text \<open>The tiles of a metatile have the same metatiles above them.\<close>

lemma under_meta:
  assumes "under u v"
  shows "\<exists>w. under w (xyz_meta v) \<and> xyz_meta w = xyz_meta u \<and> m_z w = m_z u"
proof -
  let ?k = "nat (m_z v - m_z u)"
  let ?w = "XYZ (8 * (m_x v div 8) div 2 ^ ?k) (8 * (m_y v div 8) div 2 ^ ?k) (m_z u)"
  have "(8 * (n div 8) div 2 ^ ?k) div 8 = (n div 2 ^ ?k) div 8" for n :: int
  proof -
    have "(8 * (n div 8) div 2 ^ ?k) div 8 = (8 * (n div 8)) div (8 * 2 ^ ?k)"
      by (simp add: zdiv_zmult2_eq [symmetric] mult.commute)
    also have "\<dots> = n div 8 div 2 ^ ?k" by (rule div_mult_mult1) simp
    also have "\<dots> = n div (8 * 2 ^ ?k)" by (simp add: zdiv_zmult2_eq)
    also have "\<dots> = n div (2 ^ ?k * 8)" by (simp only: mult.commute)
    also have "\<dots> = n div 2 ^ ?k div 8" by (rule zdiv_zmult2_eq) simp
    finally show ?thesis .
  qed
  then have "xyz_meta ?w = xyz_meta u"
    using assms by (simp add: xyz_meta_eq under_def)
  moreover have "under ?w (xyz_meta v)" using assms by (simp add: under_def xyz_meta_eq)
  ultimately show ?thesis by force
qed


subsection \<open>What a tile of the input leads to\<close>

abbreviation tile_xyz :: "tile_protocol \<Rightarrow> xyz" where
  "tile_xyz tile \<equiv> XYZ (tp_x tile) (tp_y tile) (tp_z tile)"

lemma in_world_meta: "in_world t \<Longrightarrow> in_world (xyz_meta t)"
  by (auto simp: in_world_def xyz_meta_eq)

lemma add_tile_set:
  assumes "in_world (tile_xyz tile)" "max (tp_z tile) (limit_max emax) \<le> 31"
  shows "add_tile emin emax tile S = Some (S \<union>
      xyz_meta ` {u. under (xyz_meta (tile_xyz tile)) u \<and> m_z u \<le> max (tp_z tile) (limit_max emax)} \<union>
      xyz_meta ` {u. under u (xyz_meta (tile_xyz tile)) \<and> min (tp_z tile) (limit_min emin) \<le> m_z u})"
proof -
  let ?c = "xyz_meta (tile_xyz tile)"
  have c: "?c = XYZ (tp_x tile AND NOT (METATILE - 1)) (tp_y tile AND NOT (METATILE - 1)) (tp_z tile)" by (simp add: xyz_meta_def)
  have z: "m_z ?c = tp_z tile" by (simp add: c)
  show ?thesis
    using child_tiles_set [OF in_world_meta [OF assms(1)], of "max (tp_z tile) (limit_max emax)" S]
      parent_tiles_set [of "min (tp_z tile) (limit_min emin)" ?c] assms(2)
    unfolding add_tile_def Let_def c [symmetric] z by simp
qed

text \<open>
  Expiring upwards is complete: for a tile of the input, every metatile that lies above a tile of the same metatile, down
  to the level of the option, is in the set of metatiles to expire, and so is the metatile itself.
\<close>

theorem expire_covers_parents:
  assumes "in_world (tile_xyz tile)" "max (tp_z tile) (limit_max emax) \<le> 31" "add_tile emin emax tile S = Some R"
    and "xyz_meta v = xyz_meta (tile_xyz tile)" "under u v" "min (tp_z tile) (limit_min emin) \<le> m_z u"
  shows "S \<subseteq> R \<and> xyz_meta v \<in> R \<and> xyz_meta u \<in> R"
proof -
  have R: "R = S \<union> xyz_meta ` {u. under (xyz_meta (tile_xyz tile)) u \<and> m_z u \<le> max (tp_z tile) (limit_max emax)} \<union>
      xyz_meta ` {u. under u (xyz_meta (tile_xyz tile)) \<and> min (tp_z tile) (limit_min emin) \<le> m_z u}"
    using assms(3) add_tile_set [OF assms(1,2), of emin S] by simp
  obtain w where w: "under w (xyz_meta (tile_xyz tile))" "xyz_meta w = xyz_meta u" "m_z w = m_z u"
    using under_meta [OF assms(5)] assms(4) by auto
  have "min (tp_z tile) (limit_min emin) \<le> m_z w" using assms(6) w(3) by simp
  then have "xyz_meta w \<in> R" unfolding R using w(1) by (intro UnI2 imageI CollectI conjI)
  moreover have "xyz_meta (xyz_meta v) \<in> R"
  proof -
    have "m_z (xyz_meta (tile_xyz tile)) \<le> max (tp_z tile) (limit_max emax)" by (simp add: xyz_meta_def)
    then show ?thesis unfolding R assms(4) by (intro UnI1 UnI2 imageI CollectI conjI under_refl)
  qed
  moreover have "xyz_meta (xyz_meta v) = xyz_meta v" by (simp add: xyz_meta_eq)
  moreover have "S \<subseteq> R" unfolding R by (intro le_supI1 order.refl)
  ultimately show ?thesis using w(2) by simp
qed

theorem expire_covers_parents_witness:
  "\<exists>R. add_tile (Some 0) None (default_tile\<lparr>tp_x := 9, tp_y := 20, tp_z := 5\<rparr>) {} = Some R \<and> XYZ 0 8 4 \<in> R"
proof -
  let ?t = "default_tile\<lparr>tp_x := 9, tp_y := 20, tp_z := 5\<rparr>"
  have w: "in_world (tile_xyz ?t)" "max (tp_z ?t) (limit_max None) \<le> 31"
    by (simp_all add: in_world_def limit_max_def)
  obtain R where R: "add_tile (Some 0) None ?t {} = Some R" using add_tile_set [OF w] by simp
  have "xyz_meta (XYZ 15 23 5) = xyz_meta (tile_xyz ?t)" "under (XYZ 7 11 4) (XYZ 15 23 5)"
    by (simp_all add: xyz_meta_eq under_def)
  then have "xyz_meta (XYZ 7 11 4) \<in> R"
    using expire_covers_parents [OF w R, of "XYZ 15 23 5" "XYZ 7 11 4"] by (simp add: limit_min_def)
  then show ?thesis using R by (simp add: xyz_meta_eq)
qed

text \<open>
  Expiring downwards is not complete. The recursion starts at the first tile of the metatile and visits the children
  of that tile, not those of the metatile, although the comment says so: of the four metatiles below a metatile one level
  down only the first is expired, and the tiles under the other three stay as they are.
\<close>

theorem expire_misses_children:
  assumes "in_world (tile_xyz tile)" "3 \<le> tp_z tile" "tp_z tile < emax" "emax \<le> 31"
  shows "\<exists>R v u. add_tile emin (Some emax) tile {} = Some R \<and> xyz_meta v = xyz_meta (tile_xyz tile) \<and>
    in_world v \<and> under v u \<and> m_z u = tp_z tile + 1 \<and> xyz_meta u = u \<and> u \<notin> R"
proof -
  let ?c = "xyz_meta (tile_xyz tile)"
  define a b where "a = m_x ?c" and "b = m_y ?c"
  let ?v = "XYZ (a + 4) b (tp_z tile)" and ?u = "XYZ (2 * a + 8) (2 * b) (tp_z tile + 1)"
  have mx: "max (tp_z tile) (limit_max (Some emax)) = emax" using assms(1-3) by (simp add: limit_max_def in_world_def)
  note set = add_tile_set [OF assms(1), of "Some emax" emin "{}", unfolded mx, OF assms(4)]
  have ab: "a = 8 * (tp_x tile div 8)" "b = 8 * (tp_y tile div 8)" by (simp_all add: a_def b_def xyz_meta_eq)
  have p: "(2 :: int) ^ nat (tp_z tile) = 8 * 2 ^ (nat (tp_z tile) - 3)"
    using assms(2) power_add [of "2 :: int" 3 "nat (tp_z tile) - 3"] by simp
  have room: "0 \<le> n \<Longrightarrow> n < 8 * q \<Longrightarrow> 0 \<le> 8 * (n div 8) \<and> 8 * (n div 8) + 4 < 8 * q" for n q :: int by presburger
  have "in_world ?v"
    using assms(1) room [of "tp_x tile" "2 ^ (nat (tp_z tile) - 3)"] room [of "tp_y tile" "2 ^ (nat (tp_z tile) - 3)"]
    unfolding in_world_def xyz.sel p ab by linarith
  moreover have "xyz_meta ?v = ?c" by (simp add: xyz_meta_eq ab)
  moreover have "under ?v ?u" by (simp add: under_def)
  moreover have "xyz_meta ?u = ?u" by (simp add: xyz_meta_eq ab)
  moreover have "?u \<notin> xyz_meta ` {u. under ?c u \<and> m_z u \<le> emax}"
  proof
    assume "?u \<in> xyz_meta ` {u. under ?c u \<and> m_z u \<le> emax}"
    then obtain t where t: "under ?c t" "xyz_meta t = ?u" by auto
    then have "m_z t = tp_z tile + 1" "8 * (m_x t div 8) = 2 * a + 8" by (simp_all add: xyz_meta_eq)
    moreover from this have "m_x t div 2 = a" using t(1) by (simp add: under_def a_def xyz_meta_eq)
    ultimately show False using ab(1) by presburger
  qed
  moreover have "?u \<notin> xyz_meta ` {u. under u ?c \<and> k \<le> m_z u}" for k
    by (auto simp: under_def xyz_meta_eq)
  moreover obtain R where r: "add_tile emin (Some emax) tile {} = Some R"
      "R = xyz_meta ` {u. under ?c u \<and> m_z u \<le> emax} \<union> xyz_meta ` {u. under u ?c \<and> min (tp_z tile) (limit_min emin) \<le> m_z u}"
    using set by simp
  moreover have "m_z ?u = tp_z tile + 1" by simp
  ultimately show ?thesis
    by (intro exI [of _ R] exI [of _ ?v] exI [of _ ?u] conjI) (simp_all only: Un_iff simp_thms)
qed


theorem expire_misses_children_witness:
  "\<exists>R v u. add_tile None (Some 6) (default_tile\<lparr>tp_x := 9, tp_y := 20, tp_z := 5\<rparr>) {} = Some R \<and>
     xyz_meta v = XYZ 8 16 5 \<and> under v u \<and> m_z u = 6 \<and> xyz_meta u = u \<and> u \<notin> R"
proof -
  have "in_world (tile_xyz (default_tile\<lparr>tp_x := 9, tp_y := 20, tp_z := 5\<rparr>))" by (simp add: in_world_def)
  from expire_misses_children [OF this, of 6 None] obtain R v u
    where "add_tile None (Some 6) (default_tile\<lparr>tp_x := 9, tp_y := 20, tp_z := 5\<rparr>) {} = Some R"
      "xyz_meta v = xyz_meta (XYZ 9 20 5)" "under v u" "m_z u = 6" "xyz_meta u = u" "u \<notin> R"
    by auto
  then show ?thesis by (intro exI [of _ R] exI [of _ v] exI [of _ u]) (simp add: xyz_meta_eq)
qed

subsection \<open>Sharing the work\<close>

lemma concat_distribute: "length xs \<le> k * n \<Longrightarrow> concat (distribute k n xs) = xs"
  by (induction k n xs rule: distribute.induct) auto

lemma distribute_sizes: "length (distribute k n xs) = n \<and> (\<forall>l \<in> set (distribute k n xs). length l \<le> k)"
  by (induction k n xs rule: distribute.induct) auto

text \<open>
  The threads share the tiles without loss: with at least one thread, the lists of the threads together are the list of all
  tiles, in order, so that no tile is left out or done twice, and none is longer than its share rounded up.
\<close>

theorem work_shared:
  assumes "0 < n"
  shows "\<exists>ls. thread_tiles n xs = Some ls \<and> length ls = n \<and> concat ls = xs \<and>
    (\<forall>l \<in> set ls. length l \<le> (length xs + n - 1) div n)"
proof -
  let ?k = "length xs div n + (if length xs mod n > 0 then 1 else 0)"
  have up: "?k = (length xs + n - 1) div n"
  proof (cases "length xs mod n = 0")
    case True
    then have "length xs + n - 1 = (n - 1) + (length xs div n) * n"
      using assms div_mult_mod_eq [of "length xs" n] by linarith
    moreover have "((n - 1) + (length xs div n) * n) div n = length xs div n"
      using assms by (subst div_mult_self1) simp_all
    ultimately show ?thesis using True by simp
  next
    case False
    have "length xs + n - 1 = (length xs mod n - 1) + (length xs div n + 1) * n"
      using False div_mult_mod_eq [of "length xs" n] unfolding distrib_right by linarith
    moreover have "length xs mod n - 1 < n" using assms by (simp add: less_imp_diff_less)
    then have "((length xs mod n - 1) + (length xs div n + 1) * n) div n = length xs div n + 1"
      using assms by (subst div_mult_self1) simp_all
    ultimately show ?thesis using False by (simp only: neq0_conv if_True)
  qed
  have eq: "length xs div n * n + length xs mod n = length xs" "length xs mod n < n" using assms by simp_all
  have "length xs \<le> (length xs div n) * n + (if length xs mod n > 0 then n else 0)"
  proof -
    have "length xs mod n \<le> (if length xs mod n > 0 then n else 0)" using eq(2) by simp
    then show ?thesis using eq(1) by linarith
  qed
  then have "length xs \<le> ?k * n" by (auto simp: distrib_right split: if_splits)
  from concat_distribute [OF this] show ?thesis
    using assms distribute_sizes [of ?k n xs] unfolding up [symmetric] by (simp add: thread_tiles_def tiles_per_thread_def)
qed

theorem work_shared_witness: "\<exists>ls. thread_tiles 2 [1, 2, 3 :: nat] = Some ls \<and> concat ls = [1, 2, 3] \<and> length ls = 2"
  using work_shared [of 2 "[1, 2, 3 :: nat]"] by auto


end
