(* ===== verification/Expire_Lts.thy ===== *)
theory Expire_Lts
  imports Expire_Tiles Lts_Storage "HOL-Library.Char_ord" "HOL-Library.List_Lexorder" "HOL-Library.Product_Lexorder"
begin

text \<open>
  The special case of the expiry tool for the LTS storage (\<^verbatim>\<open>storage_expire\<close> in \<^verbatim>\<open>expire_tiles.cpp\<close>): requests are
  collected for each host and sent in batches over one connection. The progress in percent is output only.
\<close>

subsection \<open>Ordered maps\<close>

text \<open>A \<^verbatim>\<open>std::map\<close> as the list of its entries in the order of the keys; \<open>map_entry\<close> changes the entry of a key, which is created when there is none.\<close>

fun map_entry :: "'k :: linorder \<Rightarrow> 'v \<Rightarrow> ('v \<Rightarrow> 'v) \<Rightarrow> ('k \<times> 'v) list \<Rightarrow> ('k \<times> 'v) list" where
  "map_entry k new f [] = [(k, f new)]"
| "map_entry k new f ((l, v) # m) =
     (if k < l then (k, f new) # (l, v) # m else if k = l then (l, f v) # m else (l, v) # map_entry k new f m)"

subsection \<open>Hosts\<close>

text \<open>The address of a host with its port, up to the first slash behind \<^verbatim>\<open>http://\<close>, and the path.\<close>

definition split_url :: "string \<Rightarrow> (string \<times> string) option" where
  "split_url url =
     (let path_starts = 7 + length (takeWhile (\<lambda>c. c \<noteq> CHR ''/'') (drop 7 url))
      in if path_starts < length url then Some (take path_starts url, drop path_starts url) else None)"

type_synonym uniq_host = "(string \<times> string \<times> bool) list"

text \<open>The first path for each host; a host that is there keeps its entry.\<close>

definition fill_host :: "bool \<Rightarrow> string \<Rightarrow> uniq_host \<Rightarrow> uniq_host" where
  "fill_host is_primary url hosts =
     (case split_url url of
        None \<Rightarrow> hosts
      | Some (host, path) \<Rightarrow> if map_of hosts host = None then map_entry host (path, is_primary) id hosts else hosts)"

definition lts_fill_hosts :: "lts \<Rightarrow> tile_protocol \<Rightarrow> bool \<Rightarrow> uniq_host \<Rightarrow> cpp_error + uniq_host" where
  "lts_fill_hosts st job is_primary hosts =
     (case make_get_urls st job is_primary of Inl e \<Rightarrow> Inl e | Inr urls \<Rightarrow> Inr (fold (fill_host is_primary) urls hosts))"

text \<open>The paths that wait for each host, with the header for the first or the second copy.\<close>

type_synonym lts_queue = "((string \<times> bool) \<times> string list) list"

definition queue_host :: "string \<times> string \<times> bool \<Rightarrow> lts_queue \<Rightarrow> lts_queue" where
  "queue_host row q = (case row of (host, path, is_primary) \<Rightarrow> map_entry (host, is_primary) [] (\<lambda>l. l @ [path]) q)"

definition lts_queue_urls :: "lts \<Rightarrow> tile_protocol \<Rightarrow> lts_queue \<Rightarrow> cpp_error + lts_queue" where
  "lts_queue_urls st job q =
     (case lts_fill_hosts st job True [] of
        Inl e \<Rightarrow> Inl e
      | Inr h1 \<Rightarrow> (case lts_fill_hosts st job False h1 of Inl e \<Rightarrow> Inl e | Inr hosts \<Rightarrow> Inr (fold queue_host hosts q)))"

subsection \<open>Requests\<close>

definition LTS_QUEUE_BATCH_SIZE :: nat where
  "LTS_QUEUE_BATCH_SIZE = 1024"

text \<open>One request after the other over the same connection; the first that fails ends the batch, which is dropped in any case.\<close>

fun batch_gets :: "'w http_lib \<Rightarrow> connection \<Rightarrow> string list \<Rightarrow> string \<Rightarrow> string list \<Rightarrow> 'w \<Rightarrow> 'w \<times> (cpp_error + bool)" where
  "batch_gets lib conn headers host [] w = (w, Inr True)"
| "batch_gets lib conn headers host (path # paths) w =
     (case http_get lib (host @ path) conn headers False 300 w of
        (w', conn', Inl (Runtime_Error m)) \<Rightarrow> (w', Inr False)
      | (w', conn', Inl e) \<Rightarrow> (w', Inl e)
      | (w', conn', Inr response) \<Rightarrow> batch_gets lib conn' headers host paths w')"

definition lts_perform_urls :: "'w http_lib \<Rightarrow> (string \<times> bool) \<times> string list \<Rightarrow> 'w \<Rightarrow> 'w \<times> (cpp_error + bool)" where
  "lts_perform_urls lib itr w =
     (case createPersistentConnection lib w of
        (w1, conn) \<Rightarrow> batch_gets lib conn (expiry_headers (snd (fst itr))) (fst (fst itr)) (snd itr) w1)"

text \<open>The loops over the queue: batches for which \<open>due\<close> holds are sent and emptied. An exception leaves the loop.\<close>

fun lts_batches :: "'w http_lib \<Rightarrow> (string list \<Rightarrow> bool) \<Rightarrow> lts_queue \<Rightarrow> 'w \<Rightarrow> ('w \<times> lts_queue) \<times> (cpp_error + unit)" where
  "lts_batches lib due [] w = ((w, []), Inr ())"
| "lts_batches lib due (itr # q) w =
     (if due (snd itr) then
        (case lts_perform_urls lib itr w of
           (w1, Inl e) \<Rightarrow> ((w1, itr # q), Inl e)
         | (w1, Inr _) \<Rightarrow> (case lts_batches lib due q w1 of ((w2, q2), r) \<Rightarrow> ((w2, (fst itr, []) # q2), r)))
      else (case lts_batches lib due q w of ((w2, q2), r) \<Rightarrow> ((w2, itr # q2), r)))"

definition lts_special_expire :: "'w http_lib \<Rightarrow> lts \<Rightarrow> tile_protocol \<Rightarrow> 'w \<times> lts_queue \<Rightarrow> ('w \<times> lts_queue) \<times> (cpp_error + unit)" where
  "lts_special_expire lib st job s =
     (case lts_queue_urls st job (snd s) of
        Inl e \<Rightarrow> (s, Inl e)
      | Inr q \<Rightarrow> lts_batches lib (\<lambda>paths. length paths > LTS_QUEUE_BATCH_SIZE) q (fst s))"

definition lts_special_drain :: "'w http_lib \<Rightarrow> 'w \<times> lts_queue \<Rightarrow> ('w \<times> lts_queue) \<times> (cpp_error + unit)" where
  "lts_special_drain lib s = lts_batches lib (\<lambda>paths. paths \<noteq> []) (snd s) (fst s)"

fun lts_expire_jobs :: "'w http_lib \<Rightarrow> lts \<Rightarrow> tile_protocol list \<Rightarrow> 'w \<times> lts_queue \<Rightarrow> ('w \<times> lts_queue) \<times> (cpp_error + unit)" where
  "lts_expire_jobs lib st [] s = (s, Inr ())"
| "lts_expire_jobs lib st (job # jobs) s =
     (case lts_special_expire lib st job s of (s1, Inl e) \<Rightarrow> (s1, Inl e) | (s1, Inr _) \<Rightarrow> lts_expire_jobs lib st jobs s1)"

text \<open>The function of a thread with the LTS storage, where the limits of the zoom levels are not looked at.\<close>

definition expire_tiles_lts :: "'w http_lib \<Rightarrow> lts \<Rightarrow> bool \<Rightarrow> string list \<Rightarrow> (string \<rightharpoonup> string) \<Rightarrow> (string \<rightharpoonup> protoFmt list) \<Rightarrow> xyz list \<Rightarrow> 'w \<Rightarrow>
    ('w \<times> lts_queue) \<times> (cpp_error + unit)" where
  "expire_tiles_lts lib st perform_actions styles types formats tile_list w =
     (if \<exists>sty \<in> set styles. formats sty = None then ((w, []), Inl Undefined_Behaviour)
      else case lts_expire_jobs lib st (if perform_actions then expire_jobs styles types formats tile_list else []) (w, []) of
        (s, Inl e) \<Rightarrow> (s, Inl e)
      | (s, Inr _) \<Rightarrow> lts_special_drain lib s)"

end
