(* ===== verification/Expire_Lts_Props.thy ===== *)
theory Expire_Lts_Props
  imports Expire_Lts Lts_Props "HOL-Library.Multiset"
begin

text \<open>
  The batches of the expiry tool lose no request: each host that has a tile of a metatile in either copy is told exactly once.
\<close>

subsection \<open>Hosts of a job\<close>

lemma split_url_append: "split_url u = Some (h, p) \<Longrightarrow> h @ p = u"
  by (auto simp: split_url_def Let_def split: if_splits)

lemma map_entry_new:
  "k \<notin> fst ` set m \<Longrightarrow> set (map_entry k v f m) = insert (k, f v) (set m) \<and> (distinct (map fst m) \<longrightarrow> distinct (map fst (map_entry k v f m)))"
proof (induction m)
  case (Cons e m)
  obtain l u where e: "e = (l, u)" by (metis prod.exhaust)
  have "k \<notin> fst ` set m" "k \<noteq> l" using Cons.prems by (auto simp: e)
  with Cons.IH show ?case by (auto simp: e)
qed simp

text \<open>The hosts that the addresses name, and the entries made for them.\<close>

definition url_hosts :: "string list \<Rightarrow> string set" where
  "url_hosts urls = {h. \<exists>u \<in> set urls. \<exists>p. split_url u = Some (h, p)}"

text \<open>
  The entry of a host has an address of the first copy and the flag for it, if there is one for that host, and
  else an address of the second copy.
\<close>

definition hosts_of :: "string list \<Rightarrow> string list \<Rightarrow> uniq_host \<Rightarrow> bool" where
  "hosts_of us vs hosts \<longleftrightarrow> distinct (map fst hosts) \<and> fst ` set hosts = url_hosts (us @ vs) \<and>
     (\<forall>(h, p, b) \<in> set hosts. if b then h @ p \<in> set us else h @ p \<in> set vs \<and> h \<notin> url_hosts us)"

lemma url_hosts_append: "url_hosts (us @ vs) = url_hosts us \<union> url_hosts vs"
  by (auto simp: url_hosts_def)

lemma fill_host_cases:
  assumes "distinct (map fst hosts)"
  obtains "fill_host b u hosts = hosts" "url_hosts [u] \<subseteq> fst ` set hosts"
  | h p where "split_url u = Some (h, p)" "h @ p = u" "url_hosts [u] = {h}" "h \<notin> fst ` set hosts"
    "set (fill_host b u hosts) = insert (h, p, b) (set hosts)" "distinct (map fst (fill_host b u hosts))"
proof (cases "split_url u")
  case None
  then show thesis using that(1) by (simp add: fill_host_def url_hosts_def)
next
  case (Some hp)
  then obtain h p where s: "split_url u = Some (h, p)" by (cases hp) auto
  then have u: "url_hosts [u] = {h}" by (auto simp: url_hosts_def)
  show thesis
  proof (cases "map_of hosts h")
    case None
    then have n: "h \<notin> fst ` set hosts" by (simp add: map_of_eq_None_iff)
    show thesis
      using that(2) [OF s split_url_append [OF s] u n] map_entry_new [OF n, of "(p, b)" id] assms by (simp add: fill_host_def s None)
  next
    case (Some y)
    then have "h \<in> fst ` set hosts" by (metis map_of_eq_None_iff option.distinct(1))
    then show thesis using that(1) Some u by (simp add: fill_host_def s)
  qed
qed

lemma hosts_of_fill_first: "hosts_of us [] hosts \<Longrightarrow> hosts_of (us @ [u]) [] (fill_host True u hosts)"
proof -
  assume h: "hosts_of us [] hosts"
  then have "distinct (map fst hosts)" by (simp add: hosts_of_def)
  then show ?thesis
    by (cases rule: fill_host_cases [of hosts True u])
       (use h in \<open>auto simp: hosts_of_def url_hosts_append split: if_splits\<close>)
qed

lemma hosts_of_fill_second: "hosts_of us vs hosts \<Longrightarrow> hosts_of us (vs @ [u]) (fill_host False u hosts)"
proof -
  assume h: "hosts_of us vs hosts"
  then have "distinct (map fst hosts)" by (simp add: hosts_of_def)
  then show ?thesis
    by (cases rule: fill_host_cases [of hosts False u])
       (use h in \<open>auto simp: hosts_of_def url_hosts_append split: if_splits\<close>)
qed

lemma hosts_of_fold_first: "hosts_of us [] hosts \<Longrightarrow> hosts_of (us @ urls) [] (fold (fill_host True) urls hosts)"
proof (induction urls arbitrary: us hosts)
  case (Cons u urls)
  from Cons.IH [OF hosts_of_fill_first [OF Cons.prems]] show ?case by simp
qed simp

lemma hosts_of_fold_second: "hosts_of us vs hosts \<Longrightarrow> hosts_of us (vs @ urls) (fold (fill_host False) urls hosts)"
proof (induction urls arbitrary: vs hosts)
  case (Cons u urls)
  from Cons.IH [OF hosts_of_fill_second [OF Cons.prems]] show ?case by simp
qed simp

text \<open>The addresses of a job in the first and in the second copy.\<close>

definition copy_urls :: "lts \<Rightarrow> tile_protocol \<Rightarrow> bool \<Rightarrow> string list" where
  "copy_urls st job is_primary = projr (make_get_urls st job is_primary)"

definition has_urls :: "lts \<Rightarrow> tile_protocol \<Rightarrow> bool" where
  "has_urls st job \<longleftrightarrow> (\<exists>us vs. make_get_urls st job True = Inr us \<and> make_get_urls st job False = Inr vs)"

subsection \<open>Nothing is lost\<close>

text \<open>A request, as its address and its headers; and what is to be requested for an entry of the hosts.\<close>

type_synonym sent_request = "string \<times> string list"

definition request_for :: "string \<times> string \<times> bool \<Rightarrow> sent_request" where
  "request_for row = (case row of (h, p, b) \<Rightarrow> (h @ p, expiry_headers b))"

definition batch_requests :: "(string \<times> bool) \<times> string list \<Rightarrow> sent_request list" where
  "batch_requests itr = map (\<lambda>p. request_for (fst (fst itr), p, snd (fst itr))) (snd itr)"

definition pending :: "lts_queue \<Rightarrow> sent_request multiset" where
  "pending q = mset (concat (map batch_requests q))"

lemma pending_simps [simp]: "pending [] = {#}" "pending (itr # q) = mset (batch_requests itr) + pending q"
  by (simp_all add: pending_def)

lemma pending_entry: "pending (map_entry (h, b) [] (\<lambda>l. l @ [p]) q) = add_mset (request_for (h, p, b)) (pending q)"
  by (induction q) (auto simp: batch_requests_def split: prod.splits)

lemma pending_hosts: "pending (fold queue_host hosts q) = pending q + mset (map request_for hosts)"
  by (induction hosts arbitrary: q) (auto simp: queue_host_def pending_entry)

lemma queue_urls:
  assumes "has_urls st job"
  shows "\<exists>hosts. hosts_of (copy_urls st job True) (copy_urls st job False) hosts \<and>
    (\<forall>q. \<exists>q'. lts_queue_urls st job q = Inr q' \<and> pending q' = pending q + mset (map request_for hosts))"
proof -
  obtain us vs where u: "make_get_urls st job True = Inr us" "make_get_urls st job False = Inr vs" using assms by (auto simp: has_urls_def)
  have "hosts_of [] [] []" by (simp add: hosts_of_def url_hosts_def)
  from hosts_of_fold_second [OF hosts_of_fold_first [OF this, of us], of vs]
  have "hosts_of us vs (fold (fill_host False) vs (fold (fill_host True) us []))" by simp
  then show ?thesis using u pending_hosts
    by (intro exI [of _ "fold (fill_host False) vs (fold (fill_host True) us [])"]) (simp add: copy_urls_def lts_queue_urls_def lts_fill_hosts_def)
qed

text \<open>A library that makes handles and completes transfers, with a log of the requests performed: address and headers.\<close>

definition records :: "'w http_lib \<Rightarrow> ('w \<Rightarrow> sent_request list) \<Rightarrow> bool" where
  "records lib log \<longleftrightarrow>
     (\<forall>w h. tr_status (snd (easy_perform lib h w)) = 0 \<and> log (fst (easy_perform lib h w)) = log w @ [(o_url h, o_headers h)]) \<and>
     (\<forall>w. snd (easy_init lib w) \<and> log (fst (easy_init lib w)) = log w)"

lemma http_get_records:
  assumes "records lib log" "headers \<noteq> []"
  shows "\<exists>w' conn' r. http_get lib url conn headers kh t w = (w', conn', Inr r) \<and> log w' = log w @ [(url, headers)]"
proof -
  have i: "\<exists>w1. easy_init lib w = (w1, True) \<and> log w1 = log w"
    using assms(1) by (intro exI [of _ "fst (easy_init lib w)"]) (auto simp: records_def intro: prod_eqI)
  have p: "\<exists>w2 t. easy_perform lib h w1 = (w2, t) \<and> tr_status t = 0 \<and> log w2 = log w1 @ [(o_url h, o_headers h)]" for h w1
    using assms(1)
    by (intro exI [of _ "fst (easy_perform lib h w1)"] exI [of _ "snd (easy_perform lib h w1)"]) (auto simp: records_def)
  have o: "o_url (curl_get (curl_oper_opts h url headers kh) n 0) = url" "o_headers (curl_get (curl_oper_opts h url headers kh) n 0) = headers" for h n
    using assms(2) by (simp_all add: curl_get_def curl_oper_opts_def Let_def)
  show ?thesis
  proof (cases conn)
    case None
    from i obtain w1 where w1: "easy_init lib w = (w1, True)" "log w1 = log w" by blast
    obtain w2 tr where "easy_perform lib (curl_get (curl_oper_opts easy_reset url headers kh) (nat t) 0) w1 = (w2, tr)" "tr_status tr = 0"
        "log w2 = log w1 @ [(url, headers)]" using p o by metis
    then show ?thesis using None w1
      by (simp add: http_get_def perform_oper_def curl_oper_def createPersistentConnection_def finish_def Let_def)
  next
    case (Some h)
    obtain w2 tr where "easy_perform lib (curl_get (curl_oper_opts h url headers kh) (nat t) 0) w = (w2, tr)" "tr_status tr = 0"
        "log w2 = log w @ [(url, headers)]" using p o by metis
    then show ?thesis using Some by (simp add: http_get_def perform_oper_def curl_oper_def finish_def Let_def)
  qed
qed

lemma batch_gets_records:
  assumes "records lib log" "headers \<noteq> []"
  shows "\<exists>w'. batch_gets lib conn headers host paths w = (w', Inr True) \<and> log w' = log w @ map (\<lambda>p. (host @ p, headers)) paths"
proof (induction paths arbitrary: conn w)
  case (Cons p paths)
  obtain w1 conn1 r where w1: "http_get lib (host @ p) conn headers False 300 w = (w1, conn1, Inr r)" "log w1 = log w @ [(host @ p, headers)]"
    using http_get_records [OF assms] by metis
  with Cons.IH [of conn1 w1] show ?case by auto
qed simp

lemma perform_urls_records:
  assumes "records lib log"
  shows "\<exists>w'. lts_perform_urls lib itr w = (w', Inr True) \<and> log w' = log w @ batch_requests itr"
proof -
  obtain w1 ok where i: "easy_init lib w = (w1, ok)" "log w1 = log w" using assms by (cases "easy_init lib w") (auto simp: records_def, metis fst_conv)
  have "expiry_headers b \<noteq> []" for b by (simp add: expiry_headers_def make_headers_def)
  then show ?thesis using i batch_gets_records [OF assms, of "expiry_headers (snd (fst itr))" _ "fst (fst itr)" "snd itr" w1]
    by (auto simp: lts_perform_urls_def createPersistentConnection_def batch_requests_def request_for_def)
qed

lemma batches_records:
  assumes "records lib log" "due [] = False"
  shows "\<exists>w' q' reqs. lts_batches lib due q w = ((w', q'), Inr ()) \<and> log w' = log w @ reqs \<and> mset reqs + pending q' = pending q \<and>
    (\<forall>itr \<in> set q'. \<not> due (snd itr))"
proof (induction q arbitrary: w)
  case (Cons itr q)
  show ?case
  proof (cases "due (snd itr)")
    case True
    obtain w1 where w1: "lts_perform_urls lib itr w = (w1, Inr True)" "log w1 = log w @ batch_requests itr"
      using perform_urls_records [OF assms(1)] by blast
    obtain w2 q2 reqs where "lts_batches lib due q w1 = ((w2, q2), Inr ())" "log w2 = log w1 @ reqs" "mset reqs + pending q2 = pending q"
        "\<forall>itr \<in> set q2. \<not> due (snd itr)" using Cons.IH [of w1] by blast
    then show ?thesis using True w1 assms(2)
      by (intro exI [of _ w2] exI [of _ "(fst itr, []) # q2"] exI [of _ "batch_requests itr @ reqs"]) (auto simp: batch_requests_def)
  next
    case False
    then show ?thesis using Cons.IH [of w] by fastforce
  qed
qed simp

lemma expire_jobs_records:
  assumes "records lib log" "\<forall>job \<in> set jobs. has_urls st job"
  shows "\<exists>hosts w' q' reqs. (\<forall>job \<in> set jobs. hosts_of (copy_urls st job True) (copy_urls st job False) (hosts job)) \<and>
    lts_expire_jobs lib st jobs (w, q) = ((w', q'), Inr ()) \<and> log w' = log w @ reqs \<and>
    mset reqs + pending q' = pending q + mset (concat (map (\<lambda>job. map request_for (hosts job)) jobs))"
proof -
  have "\<forall>job. \<exists>hosts. has_urls st job \<longrightarrow> hosts_of (copy_urls st job True) (copy_urls st job False) hosts \<and>
      (\<forall>q. \<exists>q'. lts_queue_urls st job q = Inr q' \<and> pending q' = pending q + mset (map request_for hosts))"
    using queue_urls by blast
  then obtain hosts where hosts: "has_urls st job \<Longrightarrow> hosts_of (copy_urls st job True) (copy_urls st job False) (hosts job) \<and>
      (\<forall>q. \<exists>q'. lts_queue_urls st job q = Inr q' \<and> pending q' = pending q + mset (map request_for (hosts job)))" for job
    by metis
  have "\<exists>w' q' reqs. lts_expire_jobs lib st jobs (w, q) = ((w', q'), Inr ()) \<and> log w' = log w @ reqs \<and>
    mset reqs + pending q' = pending q + mset (concat (map (\<lambda>job. map request_for (hosts job)) jobs))"
    using assms(2)
  proof (induction jobs arbitrary: w q)
    case (Cons job jobs)
    obtain q1 where q1: "lts_queue_urls st job q = Inr q1" "pending q1 = pending q + mset (map request_for (hosts job))"
      using hosts [of job] Cons.prems by auto
    obtain w2 q2 r2 where w2: "lts_batches lib (\<lambda>paths. length paths > LTS_QUEUE_BATCH_SIZE) q1 w = ((w2, q2), Inr ())" "log w2 = log w @ r2"
        "mset r2 + pending q2 = pending q1"
      using batches_records [OF assms(1), of "\<lambda>paths. length paths > LTS_QUEUE_BATCH_SIZE" q1 w] by auto
    obtain w3 q3 r3 where "lts_expire_jobs lib st jobs (w2, q2) = ((w3, q3), Inr ())" "log w3 = log w2 @ r3"
        "mset r3 + pending q3 = pending q2 + mset (concat (map (\<lambda>job. map request_for (hosts job)) jobs))"
      using Cons.IH [of w2 q2] Cons.prems by auto
    then show ?case using q1 w2
      by (intro exI [of _ w3] exI [of _ q3] exI [of _ "r2 @ r3"])
         (simp add: lts_special_expire_def, metis (no_types, lifting) add.assoc add.commute)
  qed simp
  then show ?thesis using hosts assms(2) by blast
qed

lemma request_for_text:
  "request_for (h, p, b) = (h @ p, [''Last-Modified: '' @ http_date_formatter 0, ''Expect:'', if b then ''X-Replica: 0'' else ''X-Replica: 1''])"
  by (simp add: request_for_def expiry_headers_def make_headers_def INVALID_TIMESTAMP_def replica_header_def dec_nat.simps char_of_def bit_0)

text \<open>
  C36. The expiry tool tells every host once for each job, a job being a metatile in one style and format: when the addresses can be
  formed and all transfers succeed, a thread ends with empty batches, and for each job it has made one request to each
  host that has a tile of the metatile in either copy, and no other requests. The request is for an address of the first copy with
  the header of that copy, if the host has one, and else for an address of the second copy with its header.
\<close>

theorem lts_hosts_told_once:
  assumes "records lib log" "\<forall>sty \<in> set styles. formats sty \<noteq> None" "\<forall>job \<in> set (expire_jobs styles types formats tiles). has_urls st job"
  shows "\<exists>(hosts :: tile_protocol \<Rightarrow> uniq_host) w' q' reqs. expire_tiles_lts lib st True styles types formats tiles w = ((w', q'), Inr ()) \<and>
    (\<forall>itr \<in> set q'. snd itr = []) \<and> log w' = log w @ reqs \<and>
    mset reqs = mset (concat (map (\<lambda>job. map (\<lambda>(h, p, b). (h @ p,
      [''Last-Modified: '' @ http_date_formatter 0, ''Expect:'', if b then ''X-Replica: 0'' else ''X-Replica: 1''])) (hosts job))
      (expire_jobs styles types formats tiles))) \<and>
    (\<forall>job \<in> set (expire_jobs styles types formats tiles). distinct (map fst (hosts job)) \<and>
       fst ` set (hosts job) = url_hosts (copy_urls st job True @ copy_urls st job False) \<and>
       (\<forall>(h, p, b) \<in> set (hosts job). if b then h @ p \<in> set (copy_urls st job True)
          else h @ p \<in> set (copy_urls st job False) \<and> h \<notin> url_hosts (copy_urls st job True)))"
proof -
  let ?jobs = "expire_jobs styles types formats tiles"
  have rf: "request_for = (\<lambda>(h, p, b). (h @ p,
      [''Last-Modified: '' @ http_date_formatter 0, ''Expect:'', if b then ''X-Replica: 0'' else ''X-Replica: 1'']))"
    by (auto simp: fun_eq_iff request_for_text)
  obtain hosts w1 q1 r1 where h: "\<forall>job \<in> set ?jobs. hosts_of (copy_urls st job True) (copy_urls st job False) (hosts job)"
      "lts_expire_jobs lib st ?jobs (w, []) = ((w1, q1), Inr ())" "log w1 = log w @ r1"
      "mset r1 + pending q1 = mset (concat (map (\<lambda>job. map request_for (hosts job)) ?jobs))"
    using expire_jobs_records [OF assms(1,3), of w "[]"] by auto
  obtain w2 q2 r2 where d: "lts_batches lib (\<lambda>paths. paths \<noteq> []) q1 w1 = ((w2, q2), Inr ())" "log w2 = log w1 @ r2" "mset r2 + pending q2 = pending q1"
      "\<forall>itr \<in> set q2. snd itr = []"
    using batches_records [OF assms(1), of "\<lambda>paths. paths \<noteq> []" q1 w1] by auto
  have "pending q2 = {#}" using d(4) by (induction q2) (auto simp: batch_requests_def)
  then have "mset (r1 @ r2) = mset (concat (map (\<lambda>job. map request_for (hosts job)) ?jobs))" using d(3) h(4) by simp
  moreover have "expire_tiles_lts lib st True styles types formats tiles w = ((w2, q2), Inr ())"
    using assms(2) h(2) d(1) by (auto simp: expire_tiles_lts_def lts_special_drain_def)
  ultimately show ?thesis using h(1,3) d(2,4) unfolding hosts_of_def rf
    by - (rule exI [of _ hosts], rule exI [of _ w2], rule exI [of _ q2], rule exI [of _ "r1 @ r2"], simp)
qed

text \<open>A library whose world is the log.\<close>

definition ex_log :: "sent_request list http_lib" where
  "ex_log = \<lparr>easy_init = (\<lambda>w. (w, True)),
     easy_perform = (\<lambda>h w. (w @ [(o_url h, o_headers h)], \<lparr>tr_status = 0, tr_error = '''', tr_chunks = [], tr_lines = [], tr_code = 200, tr_filetime = 0\<rparr>)),
     multi_perform = (\<lambda>opts n w. (w, \<lparr>me_transfers = (\<lambda>i. \<lparr>tr_status = 0, tr_error = '''', tr_chunks = [], tr_lines = [], tr_code = 200, tr_filetime = 0\<rparr>),
       me_init = (True, True), me_rounds = []\<rparr>)), clock = (\<lambda>w. 0)\<rparr>"

lemma two_hosts:
  assumes "distinct (map fst hosts)" "fst ` set hosts = {a, c}" "a \<noteq> c" "\<forall>(h, p, b) \<in> set hosts. (h, p, b) \<in> {(a, x), (c, y)}"
  shows "mset hosts = {#(a, x), (c, y)#}"
proof -
  have sub: "set hosts \<subseteq> {(a, x), (c, y)}" using assms(4) by blast
  have "a \<in> fst ` set hosts" "c \<in> fst ` set hosts" using assms(2) by simp_all
  then obtain x' y' where "(a, x') \<in> set hosts" "(c, y') \<in> set hosts" by force
  then have "set hosts = {(a, x), (c, y)}" using sub assms(3) by blast
  moreover have "distinct hosts" using assms(1) by (metis distinct_map)
  ultimately have "mset hosts = mset_set {(a, x), (c, y)}" by (metis mset_set_set)
  then show ?thesis using assms(3) by simp
qed

theorem lts_hosts_told_once_witness:
  "\<exists>w' q'. expire_tiles_lts ex_log ex_lts True [''map''] [''map'' \<mapsto> ''/map''] [''map'' \<mapsto> [fmtPNG]] [XYZ 0 0 0] [] = ((w', q'), Inr ()) \<and>
     mset w' = {#(''http://lts2:8080/0/tiles/map/0/0/0.png'', [''Last-Modified: '' @ http_date_formatter 0, ''Expect:'', ''X-Replica: 0'']),
       (''http://lts1:8080/0/tiles/map/0/0/0.png'', [''Last-Modified: '' @ http_date_formatter 0, ''Expect:'', ''X-Replica: 1''])#}"
proof -
  let ?f = "[''map'' \<mapsto> [fmtPNG]]" and ?t = "[''map'' \<mapsto> ''/map'']" and ?p = "''/0/tiles/map/0/0/0.png''"
  define job where "job = default_tile\<lparr>status := cmdRenderBulk, tp_x := 0, tp_y := 0, tp_z := 0, style := ''/map'', format := fmtPNG\<rparr>"
  have jobs: "expire_jobs [''map''] ?t ?f [XYZ 0 0 0] = [job]" by (simp add: expire_jobs_def job_def)
  have rec: "records ex_log id" by (simp add: records_def ex_log_def)
  have d: "dec_int 0 = ''0''" "dec_int 8080 = ''8080''" by (simp_all add: dec_int_def dec_nat.simps char_of_def bit_0)
  have u: "make_get_urls ex_lts job True = Inr [''http://lts2:8080/0/tiles/map/0/0/0.png'']"
      "make_get_urls ex_lts job False = Inr [''http://lts1:8080/0/tiles/map/0/0/0.png'']"
    by (simp_all add: make_get_urls_def job_def default_tile_def get_formats_vec_def fmt_defs xy_to_meta_xy_def get_meta_dimensions_def METATILE_def
        form_url_def file_type_for_def hashed_host_def getHost_def ex_lts_def ex_hosts_def url_of_def d Let_def upto.simps)
  have cu: "copy_urls ex_lts job True = [''http://lts2:8080'' @ ?p]" "copy_urls ex_lts job False = [''http://lts1:8080'' @ ?p]"
    by (simp_all add: copy_urls_def u)
  have uh: "url_hosts [''http://lts2:8080'' @ ?p] = {''http://lts2:8080''}"
      "url_hosts [''http://lts2:8080'' @ ?p, ''http://lts1:8080'' @ ?p] = {''http://lts2:8080'', ''http://lts1:8080''}"
    by (auto simp: url_hosts_def split_url_def)
  have "has_urls ex_lts job" by (simp add: has_urls_def u)
  then obtain hosts :: "tile_protocol \<Rightarrow> uniq_host" and w' q' reqs where r: "expire_tiles_lts ex_log ex_lts True [''map''] ?t ?f [XYZ 0 0 0] [] = ((w', q'), Inr ())"
      "id w' = id [] @ reqs" "mset reqs = mset (concat (map (\<lambda>job. map (\<lambda>(h, p, b). (h @ p,
        [''Last-Modified: '' @ http_date_formatter 0, ''Expect:'', if b then ''X-Replica: 0'' else ''X-Replica: 1''])) (hosts job)) [job]))"
      "distinct (map fst (hosts job))" "fst ` set (hosts job) = url_hosts (copy_urls ex_lts job True @ copy_urls ex_lts job False)"
      "\<forall>(h, p, b) \<in> set (hosts job). if b then h @ p \<in> set (copy_urls ex_lts job True)
          else h @ p \<in> set (copy_urls ex_lts job False) \<and> h \<notin> url_hosts (copy_urls ex_lts job True)"
    using lts_hosts_told_once [OF rec, of "[''map'']" ?f ?t "[XYZ 0 0 0]" ex_lts "[]"] unfolding jobs by auto
  have f: "fst ` set (hosts job) = {''http://lts2:8080'', ''http://lts1:8080''}" using r(5) uh(2) by (simp add: cu)
  have "\<forall>(h, p, b) \<in> set (hosts job). (h, p, b) \<in> {(''http://lts2:8080'', ?p, True), (''http://lts1:8080'', ?p, False)}"
  proof (clarify, goal_cases)
    case (1 h p b)
    then have "h \<in> {''http://lts2:8080'', ''http://lts1:8080''}" using f by force
    moreover have "if b then h @ p = ''http://lts2:8080'' @ ?p else h @ p = ''http://lts1:8080'' @ ?p \<and> h \<noteq> ''http://lts2:8080''"
      using r(6) 1(1) unfolding cu uh(1) by fastforce
    ultimately show ?case using 1(2) by (auto split: if_splits)
  qed
  then have "mset (hosts job) = {#(''http://lts2:8080'', ?p, True), (''http://lts1:8080'', ?p, False)#}"
    using two_hosts [OF r(4) f] by simp
  then have "mset reqs = image_mset (\<lambda>(h, p, b). (h @ p,
        [''Last-Modified: '' @ http_date_formatter 0, ''Expect:'', if b then ''X-Replica: 0'' else ''X-Replica: 1'']))
      {#(''http://lts2:8080'', ?p, True), (''http://lts1:8080'', ?p, False)#}"
    using r(3) by (simp only: list.map concat.simps append_Nil2 mset_map)
  then show ?thesis using r(1,2) by simp
qed

end
