(* ===== verification/Istream.thy ===== *)
theory Istream
  imports Prelude
begin

text \<open>
  Reading lines from a stream, as the tools that take lists of tiles do.
\<close>

text \<open>An input stream is the characters it still has and its three state bits.\<close>

record istream =
  is_data :: string
  is_eof :: bool
  is_fail :: bool
  is_bad :: bool

text \<open>
  \<^verbatim>\<open>getline\<close> into a buffer of \<open>n\<close> characters: the line, the number of characters taken from the stream
  and the stream after. Nothing is read unless the stream is good. The end of the stream is looked at first, then the
  end of the line, which is taken and not stored, then the end of the buffer, which fails.
\<close>

definition getline :: "nat \<Rightarrow> istream \<Rightarrow> string \<times> nat \<times> istream" where
  "getline n s =
     (if is_eof s \<or> is_fail s \<or> is_bad s then ('''', 0, s\<lparr>is_fail := True\<rparr>)
      else let line = takeWhile (\<lambda>c. c \<noteq> CHR 0x0A) (is_data s) in
        if length line > n - 1 then (take (n - 1) line, n - 1, s\<lparr>is_data := drop (n - 1) (is_data s), is_fail := True\<rparr>)
        else if length line = length (is_data s)
        then (line, length line, s\<lparr>is_data := [], is_eof := True, is_fail := (line = [])\<rparr>)
        else (line, Suc (length line), s\<lparr>is_data := drop (Suc (length line)) (is_data s)\<rparr>))"

lemma getline_shorter: "getline n s = (line, k, s') \<Longrightarrow> line \<noteq> [] \<Longrightarrow> length (is_data s') < length (is_data s)"
proof -
  assume g: "getline n s = (line, k, s')" and l: "line \<noteq> []"
  have "is_data s \<noteq> []" using g l by (auto simp: getline_def Let_def split: if_splits)
  then obtain m where "length (is_data s) = Suc m" by (cases "is_data s") auto
  then show ?thesis using g l by (auto simp: getline_def Let_def split: if_splits)
qed

lemma takeWhile_notin: "c \<notin> set l \<Longrightarrow> takeWhile (\<lambda>d. d \<noteq> c) l = l"
  by (induction l) auto

lemma takeWhile_line: "CHR 0x0A \<notin> set l \<Longrightarrow> takeWhile (\<lambda>c. c \<noteq> CHR 0x0A) (l @ CHR 0x0A # rest) = l"
  by (induction l) auto

end
