(* ===== verification/Expire_Main.thy ===== *)
theory Expire_Main
  imports Expire_Tiles Storage_Config Istream
begin

text \<open>
  The main function of the tool that expires lists of tiles (\<^verbatim>\<open>expire_tiles.cpp\<close>), up to the start of its threads: the
  styles and formats from the configuration of the worker, the order of the coordinates, reading the files and sharing
  the metatiles. The parsers of the command line and of INI files are Boost's: the model starts from the options and the
  configuration they give.
\<close>

subsection \<open>Styles and formats\<close>

definition expire_parse_list :: "string \<Rightarrow> string list" where
  "expire_parse_list str = tokens_by (\<lambda>c. c \<in> {CHR '','', CHR '' '', CHR 0x09}) str []"

type_synonym style_table = "(string \<rightharpoonup> string) \<times> (string \<rightharpoonup> protoFmt list)"

fun style_formats :: "conf_tree \<Rightarrow> string list \<Rightarrow> style_table \<Rightarrow> cpp_error + style_table" where
  "style_formats config [] tables = Inr tables"
| "style_formats config (sty # styles) (types, formats) =
     (case get_text config (''formats.'' @ sty) of
        None \<Rightarrow> Inl (Runtime_Error (''No such node (formats.'' @ sty @ '')''))
      | Some strformats \<Rightarrow>
        style_formats config styles (types(sty \<mapsto> sty), formats(sty \<mapsto> map get_format_for (expire_parse_list strformats))))"

text \<open>The styles of the worker are read even when the command line has others.\<close>

definition expire_styles_of :: "conf_tree \<Rightarrow> string list option \<Rightarrow> cpp_error + string list" where
  "expire_styles_of config style_option =
     (case get_text config ''worker.styles'' of
        None \<Rightarrow> Inl (Runtime_Error ''No such node (worker.styles)'')
      | Some strstyles \<Rightarrow> Inr (case style_option of Some styles \<Rightarrow> styles | None \<Rightarrow> expire_parse_list strstyles))"

subsection \<open>Reading the files\<close>

text \<open>How often the loop can still run.\<close>

definition stream_left :: "istream \<Rightarrow> nat" where
  "stream_left s = (if is_fail s \<or> is_bad s then 0 else if is_eof s then 1 else 2 + length (is_data s))"

lemma getline_step:
  assumes "getline n s = (line, k, s')" "\<not> (is_fail s \<or> is_bad s)" "1 < n"
  shows "stream_left s' < stream_left s"
  using assms by (cases "is_data s") (auto simp: getline_def stream_left_def Let_def split: if_splits)

text \<open>A line ends at its first zero. The loop goes on until the stream fails.\<close>

function read_tiles :: "(string \<Rightarrow> cpp_error + tile_protocol) \<Rightarrow> int option \<Rightarrow> int option \<Rightarrow> istream \<Rightarrow> xyz set \<Rightarrow> cpp_error + xyz set" where
  "read_tiles parser emin emax s all_tiles =
     (if is_fail s \<or> is_bad s then Inr all_tiles
      else case getline 1024 s of
        (line, _, s') \<Rightarrow>
          (let str_line = takeWhile (\<lambda>c. c \<noteq> CHR 0x00) line
           in if str_line = [] then read_tiles parser emin emax s' all_tiles
              else case parser str_line of
                Inl e \<Rightarrow> Inl e
              | Inr tile \<Rightarrow>
                (case add_tile emin emax tile all_tiles of
                   None \<Rightarrow> Inl Undefined_Behaviour
                 | Some tiles \<Rightarrow> read_tiles parser emin emax s' tiles)))"
  by pat_completeness auto
termination
  by (relation "measure (\<lambda>(parser, emin, emax, s, tiles). stream_left s)") (auto dest: getline_step [OF sym])

declare read_tiles.simps [simp del]

text \<open>A file that cannot be opened gives a stream that has failed.\<close>

definition open_file :: "string option \<Rightarrow> istream" where
  "open_file f = \<lparr>is_data = (case f of Some d \<Rightarrow> d | None \<Rightarrow> []), is_eof = False, is_fail = (f = None), is_bad = False\<rparr>"

fun read_files :: "(string \<Rightarrow> cpp_error + tile_protocol) \<Rightarrow> int option \<Rightarrow> int option \<Rightarrow> string option list \<Rightarrow> xyz set \<Rightarrow> cpp_error + xyz set" where
  "read_files parser emin emax [] all_tiles = Inr all_tiles"
| "read_files parser emin emax (f # files) all_tiles =
     (case read_tiles parser emin emax (open_file f) all_tiles of
        Inl e \<Rightarrow> Inl e
      | Inr tiles \<Rightarrow> read_files parser emin emax files tiles)"

subsection \<open>The main function\<close>

record expire_options =
  opt_help :: bool
  opt_tiles :: bool
  opt_zxy :: bool
  opt_xyz :: bool
  opt_worker_config :: "conf_tree option"
  opt_style :: "string list option"
  opt_delim :: string
  opt_down_to :: "int option"
  opt_up_to :: "int option"
  opt_threads :: nat
  opt_files :: "string option list option"

text \<open>Without an order of the coordinates, an error is printed and the order that was never set is used.\<close>

definition input_order :: "expire_options \<Rightarrow> cpp_error + token_order" where
  "input_order opts =
     (if opt_zxy opts then Inr order_z_x_y else if opt_xyz opts then Inr order_x_y_z else Inl Undefined_Behaviour)"

text \<open>What the threads are given, or the code with which the process exits before it starts any.\<close>

record expire_plan =
  plan_styles :: "string list"
  plan_types :: "string \<rightharpoonup> string"
  plan_formats :: "string \<rightharpoonup> protoFmt list"
  plan_tiles :: "xyz list list"

text \<open>\<open>walk_set\<close> is the order in which the hash set of metatiles is walked.\<close>

definition expire_main :: "(xyz set \<Rightarrow> xyz list) \<Rightarrow> expire_options \<Rightarrow> cpp_error + (int + expire_plan)" where
  "expire_main walk_set opts =
     (case (opt_help opts, opt_files opts) of
        (False, Some files) \<Rightarrow>
          (case opt_worker_config opts of
             None \<Rightarrow> Inr (Inl 1)
           | Some config \<Rightarrow>
             (case expire_styles_of config (opt_style opts) of Inl e \<Rightarrow> Inl e | Inr styles \<Rightarrow>
             (case style_formats config styles (Map.empty, Map.empty) of Inl e \<Rightarrow> Inl e | Inr (types, formats) \<Rightarrow>
               if \<not> opt_tiles opts then Inr (Inl 1)
               else case input_order opts of Inl e \<Rightarrow> Inl e | Inr order \<Rightarrow>
               (case read_files (tile_parser (opt_delim opts) order) (opt_down_to opts) (opt_up_to opts) files {} of
                  Inl e \<Rightarrow> Inl e
                | Inr all_tiles \<Rightarrow>
                  (case thread_tiles (opt_threads opts) (walk_set all_tiles) of
                     None \<Rightarrow> Inl Undefined_Behaviour
                   | Some tile_lists \<Rightarrow>
                     Inr (Inr \<lparr>plan_styles = styles, plan_types = types, plan_formats = formats, plan_tiles = tile_lists\<rparr>))))))
      | _ \<Rightarrow> Inr (Inl 0))"

end
