(* ===== verification/Expire_Main_Props.thy ===== *)
theory Expire_Main_Props
  imports Expire_Main Expire_Props "HOL-Library.Product_Lexorder"
begin

text \<open>
  From the files with lists of tiles to the lists of the threads: which metatiles the tool expires.
\<close>

subsection \<open>Lines\<close>

definition entry_line :: "token_order \<Rightarrow> char \<Rightarrow> xyz \<Rightarrow> string" where
  "entry_line order d t =
     (case order of
        order_z_x_y \<Rightarrow> dec_int (m_z t) @ d # dec_int (m_x t) @ d # dec_int (m_y t)
      | order_x_y_z \<Rightarrow> dec_int (m_x t) @ d # dec_int (m_y t) @ d # dec_int (m_z t))"

definition file_text :: "token_order \<Rightarrow> char \<Rightarrow> xyz list \<Rightarrow> string" where
  "file_text order d ts = concat (map (\<lambda>t. entry_line order d t @ [CHR 0x0A]) ts)"

text \<open>A delimiter is not part of a number and not the end of a line.\<close>

definition delimiter_ok :: "char \<Rightarrow> bool" where
  "delimiter_ok d \<longleftrightarrow> \<not> is_digit d \<and> d \<noteq> CHR ''-'' \<and> d \<noteq> CHR 0x0A \<and> d \<noteq> CHR 0x00"

lemma dec_int_Nil [simp]: "dec_int n \<noteq> []"
  by (simp add: dec_int_def)

lemma dec_nat_short: "n < 10 ^ Suc k \<Longrightarrow> length (dec_nat n) \<le> Suc k"
proof (induction k arbitrary: n)
  case (Suc k)
  then have "n div 10 < 10 ^ Suc k" by (simp add: less_mult_imp_div_less)
  from Suc.IH [OF this] show ?case by (subst dec_nat.simps) auto
qed (simp add: dec_nat.simps)

lemma dec_int_short: "int32 n \<Longrightarrow> length (dec_int n) \<le> 11"
proof -
  assume "int32 n"
  then have "nat n < 10 ^ Suc 9" "nat (- n) < 10 ^ Suc 9" by (auto simp: int32_def)
  then show ?thesis using dec_nat_short [of "nat n" 9] dec_nat_short [of "nat (- n)" 9] by (simp add: dec_int_def)
qed

definition int32_xyz :: "xyz \<Rightarrow> bool" where
  "int32_xyz t \<longleftrightarrow> int32 (m_x t) \<and> int32 (m_y t) \<and> int32 (m_z t)"

lemma entry_line_plain:
  assumes "delimiter_ok d" "int32_xyz t"
  shows "CHR 0x0A \<notin> set (entry_line order d t)" "CHR 0x00 \<notin> set (entry_line order d t)" "length (entry_line order d t) \<le> 35"
    "entry_line order d t \<noteq> []"
proof -
  have "CHR 0x0A \<notin> set (dec_int n)" "CHR 0x00 \<notin> set (dec_int n)" for n
    using dec_int_chars [of "CHR 0x0A" n] dec_int_chars [of "CHR 0x00" n] by (auto simp: is_digit_def)
  then show "CHR 0x0A \<notin> set (entry_line order d t)" "CHR 0x00 \<notin> set (entry_line order d t)"
    using assms(1) by (auto simp: entry_line_def delimiter_ok_def split: token_order.splits)
  show "length (entry_line order d t) \<le> 35"
    using dec_int_short [of "m_x t"] dec_int_short [of "m_y t"] dec_int_short [of "m_z t"] assms(2)
    by (auto simp: entry_line_def int32_xyz_def split: token_order.splits)
  show "entry_line order d t \<noteq> []" by (simp add: entry_line_def split: token_order.splits)
qed

lemma tokens_by_plain: "\<forall>c \<in> set w. \<not> sep c \<Longrightarrow> tokens_by sep (w @ rest) tok = tokens_by sep rest (rev w @ tok)"
  by (induction w arbitrary: tok) auto

lemma tokens_by_three:
  assumes "delimiter_ok d"
  shows "tokens_by (\<lambda>c. c \<in> set [d]) (dec_int a @ d # dec_int b @ d # dec_int e) [] = [dec_int a, dec_int b, dec_int e]"
proof -
  have s: "\<forall>c \<in> set (dec_int n). \<not> c = d" for n
    using assms dec_int_chars [of _ n] by (auto simp: delimiter_ok_def)
  have "tokens_by (\<lambda>c. c = d) (dec_int e) [] = [dec_int e]" using tokens_by_plain [OF s, of e "[]" "[]"] by simp
  then show ?thesis by (simp add: tokens_by_plain [OF s])
qed

lemma lexical_cast_dec_int: "int32 n \<Longrightarrow> lexical_cast_int (dec_int n) = Inr n"
  using qi_int_dec [of n "[]"] by (simp add: lexical_cast_int_def)

lemma tile_parser_entry:
  assumes "delimiter_ok d" "int32_xyz t"
  shows "tile_parser [d] order (entry_line order d t) = Inr (default_tile\<lparr>tp_x := m_x t, tp_y := m_y t, tp_z := m_z t\<rparr>)"
  using assms(2) unfolding tile_parser_def entry_line_def
  by (cases order) (simp_all only: token_order.case tokens_by_three [OF assms(1)], simp_all add: lexical_cast_dec_int int32_xyz_def Let_def)

subsection \<open>Files\<close>

text \<open>
  The metatiles that the tool expires for a tile of the input, within the limits of the options: those of the tile
  itself and of the tiles above it; and those of the tiles below the first tile of its metatile. The tiles below the
  listed tile, or below the rest of its metatile, are not among them unless they happen to be in the same metatile.
\<close>

definition metatiles_above :: "int option \<Rightarrow> xyz \<Rightarrow> xyz set" where
  "metatiles_above emin t = xyz_meta ` {u. under u t \<and> min (m_z t) (limit_min emin) \<le> m_z u}"

definition metatiles_below_first :: "int option \<Rightarrow> xyz \<Rightarrow> xyz set" where
  "metatiles_below_first emax t = xyz_meta ` {u. under (xyz_meta t) u \<and> m_z u \<le> max (m_z t) (limit_max emax)}"

definition metatiles_for :: "int option \<Rightarrow> int option \<Rightarrow> xyz \<Rightarrow> xyz set" where
  "metatiles_for emin emax t = metatiles_above emin t \<union> metatiles_below_first emax t"

text \<open>Upwards it makes no difference whether one starts from the tile or from the first one of its metatile.\<close>

lemma metatiles_above_first:
  "metatiles_above emin t = xyz_meta ` {u. under u (xyz_meta t) \<and> min (m_z t) (limit_min emin) \<le> m_z u}"
proof (intro equalityI subsetI)
  fix m assume "m \<in> metatiles_above emin t"
  then obtain u where u: "under u t" "min (m_z t) (limit_min emin) \<le> m_z u" "m = xyz_meta u" by (auto simp: metatiles_above_def)
  obtain w where "under w (xyz_meta t)" "xyz_meta w = xyz_meta u" "m_z w = m_z u" using under_meta [OF u(1)] by auto
  then show "m \<in> xyz_meta ` {u. under u (xyz_meta t) \<and> min (m_z t) (limit_min emin) \<le> m_z u}"
    using u(2,3) by (intro image_eqI [of _ _ w]) simp_all
next
  fix m assume "m \<in> xyz_meta ` {u. under u (xyz_meta t) \<and> min (m_z t) (limit_min emin) \<le> m_z u}"
  then obtain w where w: "under w (xyz_meta t)" "min (m_z t) (limit_min emin) \<le> m_z w" "m = xyz_meta w" by auto
  define u where "u = XYZ (m_x t div 2 ^ nat (m_z t - m_z w)) (m_y t div 2 ^ nat (m_z t - m_z w)) (m_z w)"
  have u: "under u t" using w(1) by (simp add: u_def under_def xyz_meta_def)
  obtain w' where w': "under w' (xyz_meta t)" "xyz_meta w' = xyz_meta u" "m_z w' = m_z u" using under_meta [OF u] by auto
  have "w' = w" using w(1) w'(1,3) by (cases w; cases w') (auto simp: under_def u_def)
  then show "m \<in> metatiles_above emin t" using u w'(2) w(2,3) by (auto simp: metatiles_above_def u_def)
qed

definition valid_entry :: "int option \<Rightarrow> xyz \<Rightarrow> bool" where
  "valid_entry emax t \<longleftrightarrow> in_world t \<and> max (m_z t) (limit_max emax) \<le> 31"

lemma valid_entry_int32: "valid_entry emax t \<Longrightarrow> int32_xyz t"
proof -
  assume v: "valid_entry emax t"
  then have "(2 :: int) ^ nat (m_z t) \<le> 2 ^ 31" by (intro power_increasing) (auto simp: valid_entry_def)
  then show ?thesis using v by (auto simp: valid_entry_def in_world_def int32_xyz_def int32_def)
qed

lemma read_line:
  assumes "delimiter_ok d" "valid_entry emax t"
  shows "read_tiles (tile_parser [d] order) emin emax (open_file (Some (entry_line order d t @ CHR 0x0A # rest))) S =
    read_tiles (tile_parser [d] order) emin emax (open_file (Some rest)) (S \<union> metatiles_for emin emax t)"
proof -
  note v = valid_entry_int32 [OF assms(2)]
  note l = entry_line_plain [OF assms(1) v, of order]
  have g: "getline 1024 (open_file (Some (entry_line order d t @ CHR 0x0A # rest))) =
      (entry_line order d t, Suc (length (entry_line order d t)), open_file (Some rest))"
    using l(1,3) by (simp add: getline_def open_file_def takeWhile_line Let_def)
  have "add_tile emin emax (default_tile\<lparr>tp_x := m_x t, tp_y := m_y t, tp_z := m_z t\<rparr>) S = Some (S \<union> metatiles_for emin emax t)"
    using add_tile_set [of "default_tile\<lparr>tp_x := m_x t, tp_y := m_y t, tp_z := m_z t\<rparr>" emax emin S] assms(2)
    by (simp add: valid_entry_def metatiles_for_def metatiles_above_first metatiles_below_first_def ac_simps)
  then show ?thesis
    using tile_parser_entry [OF assms(1) v, of order] l(4)
    by (subst read_tiles.simps, simp only: g prod.case Let_def takeWhile_notin [OF l(2)]) (simp add: open_file_def)
qed

lemma read_end: "read_tiles parser emin emax (open_file (Some [])) S = Inr S"
  by (subst read_tiles.simps) (simp add: open_file_def getline_def read_tiles.simps)

lemma read_file_text:
  assumes "delimiter_ok d" "\<forall>t \<in> set ts. valid_entry emax t"
  shows "read_tiles (tile_parser [d] order) emin emax (open_file (Some (file_text order d ts))) S =
    Inr (S \<union> (\<Union>t \<in> set ts. metatiles_for emin emax t))"
  using assms(2)
proof (induction ts arbitrary: S)
  case (Cons t ts)
  then show ?case using read_line [OF assms(1), of emax t order emin "file_text order d ts" S]
    by (simp add: file_text_def Un_assoc)
qed (simp add: file_text_def read_end)

lemma read_files_text:
  assumes "delimiter_ok d" "\<forall>t \<in> set (concat tss). valid_entry emax t"
  shows "read_files (tile_parser [d] order) emin emax (map (\<lambda>ts. Some (file_text order d ts)) tss) S =
    Inr (S \<union> (\<Union>t \<in> set (concat tss). metatiles_for emin emax t))"
  using assms(2)
  by (induction tss arbitrary: S) (simp_all add: read_file_text [OF assms(1)] Un_assoc)

lemma child_tiles_finite: "finite S \<Longrightarrow> child_tiles t zmax S = Some R \<Longrightarrow> finite R"
proof (induction "nat (zmax - m_z t)" arbitrary: t S R rule: less_induct)
  case less
  show ?case
  proof (cases "m_z t < zmax")
    case True
    have IH: "finite S' \<Longrightarrow> child_tiles (XYZ a b (m_z t + 1)) zmax S' = Some R' \<Longrightarrow> finite R'" for a b S' R'
      using less.hyps [of "XYZ a b (m_z t + 1)"] True by simp
    from less.prems(2) True obtain x y T1 T2 T3 where
      "child_tiles (XYZ x y (m_z t + 1)) zmax (insert (xyz_meta t) S) = Some T1"
      "child_tiles (XYZ (x + 1) y (m_z t + 1)) zmax T1 = Some T2"
      "child_tiles (XYZ (x + 1) (y + 1) (m_z t + 1)) zmax T2 = Some T3"
      "child_tiles (XYZ x (y + 1) (m_z t + 1)) zmax T3 = Some R"
      by (subst (asm) child_tiles.simps) (simp add: Let_def split: option.splits xyz.splits)
    then show ?thesis using less.prems(1) IH by (meson finite_insert)
  next
    case False
    then show ?thesis using less.prems by (subst (asm) child_tiles.simps) (auto simp: Let_def)
  qed
qed

lemma parent_tiles_finite: "finite S \<Longrightarrow> finite (parent_tiles t zmin S)"
proof (induction t zmin S rule: parent_tiles.induct)
  case (1 tile min_z tiles)
  then show ?case by (subst parent_tiles.simps) (simp add: Let_def)
qed

lemma metatiles_for_finite:
  assumes "valid_entry emax t"
  shows "finite (metatiles_for emin emax t)"
proof -
  let ?t = "default_tile\<lparr>tp_x := m_x t, tp_y := m_y t, tp_z := m_z t\<rparr>"
  have "add_tile emin emax ?t {} = Some (metatiles_for emin emax t)"
    using add_tile_set [of ?t emax emin "{}"] assms
    by (simp add: valid_entry_def metatiles_for_def metatiles_above_first metatiles_below_first_def ac_simps)
  then obtain C where "child_tiles (xyz_meta t) (max (m_z t) (limit_max emax)) {} = Some C"
      "metatiles_for emin emax t = parent_tiles (xyz_meta t) (min (m_z t) (limit_min emin)) C"
    by (auto simp: add_tile_def xyz_meta_def Let_def)
  then show ?thesis using child_tiles_finite [OF finite.emptyI] parent_tiles_finite by metis
qed

subsection \<open>The lists of the threads\<close>

text \<open>
  C26. From the input files to the threads: when the lines of the files are tiles in the order given by the options, the threads
  together get each of the following metatiles once, and no other: those of the listed tiles, those of the tiles above them, and
  those of the tiles below the first tile of the metatile of each listed tile, within the limits of the options. So upwards the
  expiry is complete, while downwards what lies below the other tiles of the metatile is missed, even below the listed tile.
\<close>

theorem expire_input_metatiles:
  assumes opts: "\<not> opt_help opts" "opt_tiles opts" "opt_worker_config opts = Some config" "0 < opt_threads opts"
    and conf: "expire_styles_of config (opt_style opts) = Inr styles"
      "style_formats config styles (Map.empty, Map.empty) = Inr (types, formats)"
    and input: "input_order opts = Inr order" "opt_delim opts = [d]" "delimiter_ok d"
      "opt_files opts = Some (map (\<lambda>ts. Some (file_text order d ts)) tss)"
      "\<forall>t \<in> set (concat tss). valid_entry (opt_up_to opts) t"
    and walk: "\<forall>S. finite S \<longrightarrow> distinct (walk_set S) \<and> set (walk_set S) = S"
  shows "\<exists>ls. expire_main walk_set opts =
      Inr (Inr \<lparr>plan_styles = styles, plan_types = types, plan_formats = formats, plan_tiles = ls\<rparr>) \<and>
    length ls = opt_threads opts \<and> distinct (concat ls) \<and>
    set (concat ls) = (\<Union>t \<in> set (concat tss). metatiles_for (opt_down_to opts) (opt_up_to opts) t)"
proof -
  let ?S = "\<Union>t \<in> set (concat tss). metatiles_for (opt_down_to opts) (opt_up_to opts) t"
  have fin: "finite ?S" using input(5) metatiles_for_finite by blast
  have "read_files (tile_parser (opt_delim opts) order) (opt_down_to opts) (opt_up_to opts)
      (map (\<lambda>ts. Some (file_text order d ts)) tss) {} = Inr ?S"
    using read_files_text [OF input(3,5), of order "opt_down_to opts" "{}"] input(2) by simp
  moreover obtain ls where "thread_tiles (opt_threads opts) (walk_set ?S) = Some ls" "length ls = opt_threads opts"
      "concat ls = walk_set ?S"
    using work_shared [OF opts(4)] by blast
  ultimately show ?thesis
    using opts conf input(1,4) walk fin by (intro exI [of _ ls]) (simp add: expire_main_def)
qed

definition ex_walk :: "xyz set \<Rightarrow> xyz list" where
  "ex_walk S = map (\<lambda>(x, y, z). XYZ x y z) (sorted_list_of_set ((\<lambda>t. (m_x t, m_y t, m_z t)) ` S))"

lemma ex_walk_ok: "finite S \<Longrightarrow> distinct (ex_walk S) \<and> set (ex_walk S) = S"
  by (auto simp: ex_walk_def distinct_map inj_on_def image_image)

definition ex_options :: expire_options where
  "ex_options = \<lparr>opt_help = False, opt_tiles = True, opt_zxy = True, opt_xyz = False,
     opt_worker_config = Some (Conf '''' [(''worker'', Conf '''' [(''styles'', Conf ''map'' [])]), (''formats'', Conf '''' [(''map'', Conf ''png, jpeg'' [])])]),
     opt_style = None, opt_delim = '' '', opt_down_to = None, opt_up_to = Some 5, opt_threads = 2,
     opt_files = Some [Some (''4 9 6'' @ [CHR 0x0A] @ ''4 0 0'' @ [CHR 0x0A])]\<rparr>"

lemma below_first_missed:
  assumes "m_z t = 4" "m_y (xyz_meta t) = 0"
  shows "XYZ 16 8 5 \<notin> metatiles_for emin (Some 5) t"
proof
  assume "XYZ 16 8 5 \<in> metatiles_for emin (Some 5) t"
  then obtain u where u: "XYZ 16 8 5 = xyz_meta u" "under u t \<or> under (xyz_meta t) u"
    by (auto simp: metatiles_for_def metatiles_above_def metatiles_below_first_def)
  have "m_z u = 5" "m_y u div 8 = 1" using arg_cong [OF u(1), of m_z] arg_cong [OF u(1), of m_y] by (simp_all add: xyz_meta_eq)
  moreover have "m_z (xyz_meta t) = 4" using assms(1) by (simp add: xyz_meta_eq)
  ultimately have "m_y u div 2 = 0" using u(2) assms by (simp add: under_def)
  then show False using \<open>m_y u div 8 = 1\<close> by presburger
qed

lemma ex_below: "XYZ 16 8 5 \<notin> metatiles_for None (Some 5) (XYZ 9 6 4) \<union> metatiles_for None (Some 5) (XYZ 0 0 4)"
  using below_first_missed [of "XYZ 9 6 4"] below_first_missed [of "XYZ 0 0 4"] by (simp add: xyz_meta_eq)

text \<open>The listed tile (9,6) of level 4 is above (18,12) of level 5, whose metatile is not expired.\<close>

theorem expire_input_metatiles_witness:
  "\<exists>ls. expire_main ex_walk ex_options =
      Inr (Inr \<lparr>plan_styles = [''map''], plan_types = [''map'' \<mapsto> ''map''], plan_formats = [''map'' \<mapsto> [fmtPNG, fmtJPEG]], plan_tiles = ls\<rparr>) \<and>
    length ls = 2 \<and> distinct (concat ls) \<and> XYZ 8 0 4 \<in> set (concat ls) \<and> XYZ 16 0 5 \<in> set (concat ls) \<and>
    under (XYZ 9 6 4) (XYZ 18 12 5) \<and> xyz_meta (XYZ 18 12 5) \<notin> set (concat ls)"
proof -
  let ?tss = "[[XYZ 9 6 4, XYZ 0 0 4]]"
  have d: "dec_int 4 = ''4''" "dec_int 9 = ''9''" "dec_int 6 = ''6''" "dec_int 0 = ''0''" by code_simp+
  have f: "opt_files ex_options = Some (map (\<lambda>ts. Some (file_text order_z_x_y CHR '' '' ts)) ?tss)"
    by (simp add: ex_options_def file_text_def entry_line_def d)
  have s: "expire_styles_of (the (opt_worker_config ex_options)) None = Inr [''map'']"
    "style_formats (the (opt_worker_config ex_options)) [''map''] (Map.empty, Map.empty) =
       Inr ([''map'' \<mapsto> ''map''], [''map'' \<mapsto> [fmtPNG, fmtJPEG]])"
    by (simp_all add: ex_options_def expire_styles_of_def expire_parse_list_def get_text_def get_child_def get_format_for_def)
  have v: "\<forall>t \<in> set (concat ?tss). valid_entry (opt_up_to ex_options) t"
    by (simp add: valid_entry_def in_world_def limit_max_def ex_options_def)
  have "xyz_meta (XYZ 9 6 4) \<in> metatiles_above None (XYZ 9 6 4)"
    unfolding metatiles_above_def by (intro imageI CollectI conjI) simp_all
  moreover have "xyz_meta (XYZ 16 0 5) \<in> metatiles_below_first (Some 5) (XYZ 9 6 4)"
    unfolding metatiles_below_first_def by (intro imageI CollectI conjI) (simp_all add: under_def xyz_meta_eq limit_max_def)
  ultimately have m: "XYZ 8 0 4 \<in> (\<Union>t \<in> set (concat ?tss). metatiles_for (opt_down_to ex_options) (opt_up_to ex_options) t)"
      "XYZ 16 0 5 \<in> (\<Union>t \<in> set (concat ?tss). metatiles_for (opt_down_to ex_options) (opt_up_to ex_options) t)"
    by (simp_all add: ex_options_def metatiles_for_def xyz_meta_eq)
  have n: "under (XYZ 9 6 4) (XYZ 18 12 5)"
      "xyz_meta (XYZ 18 12 5) \<notin> (\<Union>t \<in> set (concat ?tss). metatiles_for (opt_down_to ex_options) (opt_up_to ex_options) t)"
    using ex_below by (simp_all add: ex_options_def under_def xyz_meta_eq)
  have o: "\<not> opt_help ex_options" "opt_tiles ex_options" "opt_worker_config ex_options = Some (the (opt_worker_config ex_options))"
    "0 < opt_threads ex_options" "opt_style ex_options = None" "input_order ex_options = Inr order_z_x_y" "opt_delim ex_options = [CHR '' '']"
    "delimiter_ok CHR '' ''" "opt_threads ex_options = 2"
    by (simp_all add: ex_options_def input_order_def delimiter_ok_def is_digit_def)
  have w: "\<forall>S. finite S \<longrightarrow> distinct (ex_walk S) \<and> set (ex_walk S) = S" using ex_walk_ok by blast
  show ?thesis
    using expire_input_metatiles [OF o(1-4) s(1) [folded o(5)] s(2) o(6-8) f v w] m n unfolding o(9) by metis
qed

text \<open>
  A file that cannot be opened is passed over. After a line that does not fit into the buffer nothing more of a file is
  read; its beginning is parsed like a line.
\<close>

lemma missing_file: "read_files parser emin emax (None # files) S = read_files parser emin emax files S"
  by (simp add: open_file_def read_tiles.simps)

lemma overlong_line_ends_file:
  assumes "CHR 0x0A \<notin> set l" "CHR 0x00 \<notin> set l" "1023 < length l" "parser (take 1023 l) = Inr t" "add_tile emin emax t S = Some R"
  shows "read_tiles parser emin emax (open_file (Some (l @ CHR 0x0A # rest))) S = Inr R"
proof -
  have "CHR 0x00 \<notin> set (take 1023 l)" using assms(2) by (meson in_set_takeD)
  then have "getline 1024 (open_file (Some (l @ CHR 0x0A # rest))) = (take 1023 l, 1023,
      \<lparr>is_data = drop 1023 l @ CHR 0x0A # rest, is_eof = False, is_fail = True, is_bad = False\<rparr>)"
      "takeWhile (\<lambda>c. c \<noteq> CHR 0x00) (take 1023 l) = take 1023 l"
    using assms(1,3) by (simp_all add: getline_def open_file_def takeWhile_line takeWhile_notin Let_def)
  moreover have "read_tiles parser emin emax \<lparr>is_data = x, is_eof = False, is_fail = True, is_bad = False\<rparr> R = Inr R" for x
    by (simp add: read_tiles.simps)
  moreover have "take 1023 l \<noteq> []" using assms(3) by auto
  ultimately show ?thesis using assms(4,5)
    by (subst read_tiles.simps, simp only: prod.case Let_def) (simp add: open_file_def)
qed

end
