(* ===== verification/Zstream.thy ===== *)
theory Zstream
  imports Tile_Types Decimal
begin

text \<open>
  The streams around 0MQ sockets (\<^verbatim>\<open>zstream.cpp\<close>, \<^verbatim>\<open>zstream.hpp\<close>, \<^verbatim>\<open>zstream_pbuf.cpp\<close>): messages of several parts, integers
  in network byte order, the addresses in front of routed messages, and tiles. A socket is the parts that went out
  over it or wait in it, each with the flag that more parts of the same message follow; a receive on an empty socket
  waits, which is the error \<open>No_Return\<close>. The machine is little-endian.
\<close>

type_synonym frame = "string \<times> bool"

record osocket =
  o_more :: bool
  o_sent :: "frame list"

record isocket =
  i_more :: bool
  i_queue :: "frame list"

subsection \<open>Parts\<close>

definition make_safe :: "string \<Rightarrow> string" where
  "make_safe s = map (\<lambda>c. if 0x20 \<le> (of_char c :: nat) \<and> (of_char c :: nat) \<le> 0x7E then c else CHR ''.'') s"

definition send_msg :: "string \<Rightarrow> osocket \<Rightarrow> osocket" where
  "send_msg msg out = \<lparr>o_more = False, o_sent = o_sent out @ [(msg, o_more out)]\<rparr>"

definition send_more :: "osocket \<Rightarrow> osocket" where
  "send_more out = out\<lparr>o_more := True\<rparr>"

definition recv_msg :: "isocket \<Rightarrow> isocket \<times> (cpp_error + string)" where
  "recv_msg s =
     (case i_queue s of
        [] \<Rightarrow> (s, Inl No_Return)
      | (msg, flag) # q \<Rightarrow> (\<lparr>i_more = flag, i_queue = q\<rparr>, Inr msg))"

definition has_more :: "isocket \<Rightarrow> bool" where
  "has_more s = i_more s"

subsection \<open>Integers\<close>

text \<open>The memory image of an unsigned integer, low byte first, and the integer in given memory.\<close>

definition mem_bytes :: "'a :: len word \<Rightarrow> string" where
  "mem_bytes w = map (\<lambda>i. char_of (drop_bit (8 * i) (uint w))) [0..<LENGTH('a) div 8]"

fun of_mem :: "string \<Rightarrow> 'a :: len word" where
  "of_mem [] = 0"
| "of_mem (c # cs) = word_of_int (of_char c) + 256 * of_mem cs"

definition bswap :: "'a :: len word \<Rightarrow> 'a word" where
  "bswap w = of_mem (rev (mem_bytes w))"

definition pod_send :: "'a :: len word \<Rightarrow> osocket \<Rightarrow> osocket" where
  "pod_send t out = send_msg (mem_bytes t) out"

definition pod_recv :: "isocket \<Rightarrow> isocket \<times> (cpp_error + 'a :: len word)" where
  "pod_recv s =
     (case recv_msg s of
        (s1, Inl e) \<Rightarrow> (s1, Inl e)
      | (s1, Inr msg) \<Rightarrow>
        (s1, if length msg \<noteq> LENGTH('a) div 8
             then Inl (Runtime_Error (''Recieved message of incorrect size for POD type. Was expecting '' @ dec_nat (LENGTH('a) div 8) @
               '' bytes, but received '' @ dec_nat (length msg) @ '' ('' @ make_safe msg @ '').''))
             else Inr (of_mem msg)))"

definition send_uint32 :: "32 word \<Rightarrow> osocket \<Rightarrow> osocket" where
  "send_uint32 x out = pod_send (bswap x) out"

definition send_uint64 :: "64 word \<Rightarrow> osocket \<Rightarrow> osocket" where
  "send_uint64 x out = pod_send (bswap x) out"

definition recv_uint32 :: "isocket \<Rightarrow> isocket \<times> (cpp_error + 32 word)" where
  "recv_uint32 s = (case pod_recv s of (s1, r) \<Rightarrow> (s1, map_sum id bswap r))"

definition recv_uint64 :: "isocket \<Rightarrow> isocket \<times> (cpp_error + 64 word)" where
  "recv_uint64 s = (case pod_recv s of (s1, r) \<Rightarrow> (s1, map_sum id bswap r))"

subsection \<open>Addresses\<close>

lemma recv_msg_shorter: "recv_msg s = (s1, Inr msg) \<Longrightarrow> length (i_queue s1) < length (i_queue s)"
  by (auto simp: recv_msg_def split: list.splits)

text \<open>Both readers stop at an empty part or at the end of the message.\<close>

function ignore_routing_headers :: "isocket \<Rightarrow> isocket \<times> (cpp_error + unit)" where
  "ignore_routing_headers s =
     (case recv_msg s of
        (s1, Inl e) \<Rightarrow> (s1, Inl e)
      | (s1, Inr msg) \<Rightarrow> if has_more s1 \<and> length msg > 0 then ignore_routing_headers s1 else (s1, Inr ()))"
  by pat_completeness auto
termination
  by (relation "measure (\<lambda>s. length (i_queue s))") (auto dest!: recv_msg_shorter [OF sym])

function routing_headers :: "isocket \<Rightarrow> isocket \<times> (cpp_error + string list)" where
  "routing_headers s =
     (case recv_msg s of
        (s1, Inl e) \<Rightarrow> (s1, Inl e)
      | (s1, Inr str) \<Rightarrow>
        if length str = 0 then (s1, Inr [])
        else if has_more s1 then
          (case routing_headers s1 of (s2, Inl e) \<Rightarrow> (s2, Inl e) | (s2, Inr headers) \<Rightarrow> (s2, Inr (str # headers)))
        else (s1, Inr [str]))"
  by pat_completeness auto
termination
  by (relation "measure (\<lambda>s. length (i_queue s))") (auto dest!: recv_msg_shorter [OF sym])

declare ignore_routing_headers.simps [simp del] routing_headers.simps [simp del]

text \<open>\<^verbatim>\<open>xrep::to\<close> for one address and for a list of them.\<close>

definition to_addr :: "string \<Rightarrow> osocket \<Rightarrow> osocket" where
  "to_addr addr out = send_msg '''' (send_more (send_msg addr (send_more out)))"

definition to_addrs :: "string list \<Rightarrow> osocket \<Rightarrow> osocket" where
  "to_addrs addrs out = send_msg '''' (send_more (fold (\<lambda>addr out. send_msg addr (send_more out)) addrs out))"

subsection \<open>Tiles\<close>

text \<open>Nothing is sent when a tile cannot be serialised; when it cannot be parsed, its message is consumed all the same.\<close>

definition send_tile_msg :: "(pb_tile \<Rightarrow> string option) \<Rightarrow> tile_protocol \<Rightarrow> osocket \<Rightarrow> osocket \<times> (cpp_error + unit)" where
  "send_tile_msg SerializeToString tile out =
     (case serialise SerializeToString tile of
        Some buf \<Rightarrow> (send_msg buf out, Inr ())
      | None \<Rightarrow> (out, Inl (Runtime_Error (''Can'' @ [CHR 0x27] @ ''t serialise tile to buffer!''))))"

definition recv_tile_msg :: "(string \<Rightarrow> pb_tile option) \<Rightarrow> tile_protocol \<Rightarrow> isocket \<Rightarrow> isocket \<times> (cpp_error + tile_protocol)" where
  "recv_tile_msg ParseFromString tile s =
     (case recv_msg s of
        (s1, Inl e) \<Rightarrow> (s1, Inl e)
      | (s1, Inr buf) \<Rightarrow>
        (case unserialise ParseFromString buf tile of
           (True, tile1) \<Rightarrow> (s1, Inr tile1)
         | (False, _) \<Rightarrow> (s1, Inl (Runtime_Error (''Can'' @ [CHR 0x27] @ ''t deserialise tile from buffer!'')))))"

end
