(* ===== verification/Zstream_Props.thy ===== *)
theory Zstream_Props
  imports Zstream
begin

text \<open>
  Properties of the streams. What is written as one part is read as the same value: the contract of a type of
  values is the locale \<open>wire_codec\<close>, interpreted for strings and for integers of both widths. Routed messages go there and back. The
  tile message is well typed.
\<close>

subsection \<open>Integers and their bytes\<close>

lemma mem_bytes_length [simp]: "length (mem_bytes (w :: 'a :: len word)) = LENGTH('a) div 8"
  by (simp add: mem_bytes_def)

lemma of_mem_bytes_upto:
  "of_mem (map (\<lambda>i. char_of (drop_bit (8 * i) n)) [0..<k]) = (word_of_int (take_bit (8 * k) n) :: 'a :: len word)" for n :: int
proof (induction k arbitrary: n)
  case (Suc k)
  have "[0..<Suc k] = 0 # map Suc [0..<k]" by (simp add: upt_conv_Cons map_Suc_upt del: upt_Suc)
  then have "of_mem (map (\<lambda>i. char_of (drop_bit (8 * i) n)) [0..<Suc k]) =
      word_of_int (n mod 256) + 256 * (word_of_int (take_bit (8 * k) (drop_bit 8 n)) :: 'a word)"
    using Suc [of "drop_bit 8 n"] by (simp add: comp_def add.commute)
  also have "\<dots> = word_of_int (n mod 256 + 256 * take_bit (8 * k) (drop_bit 8 n))" by simp
  also have "n mod 256 + 256 * take_bit (8 * k) (drop_bit 8 n) = take_bit (8 * Suc k) n"
    by (simp add: take_bit_eq_mod drop_bit_eq_div power_add zmod_zmult2_eq)
  finally show ?case .
qed simp

lemma of_mem_bytes: "8 dvd LENGTH('a) \<Longrightarrow> of_mem (mem_bytes w) = w" for w :: "'a :: len word"
  unfolding mem_bytes_def of_mem_bytes_upto by (simp add: take_bit_int_eq_self)

lemma of_char_range: "0 \<le> (of_char c :: int)" "(of_char c :: int) < 256"
  by (metis of_char_mod_256 pos_mod_sign zero_less_numeral) (metis of_char_mod_256 pos_mod_bound zero_less_numeral)

lemma uint_of_mem_Cons:
  assumes "8 * Suc (length cs) \<le> LENGTH('a)"
  shows "uint (of_mem (c # cs) :: 'a :: len word) = of_char c + 256 * uint (of_mem cs :: 'a word) \<and>
    uint (of_mem (c # cs) :: 'a word) < 256 ^ Suc (length cs)"
  using assms
proof (induction cs arbitrary: c)
  case Nil
  have "(256 :: int) \<le> 2 ^ LENGTH('a)" using power_increasing [of 8 "LENGTH('a)" "2 :: int"] Nil by simp
  moreover note of_char_range [of c]
  ultimately have "(of_char c :: int) mod 2 ^ LENGTH('a) = of_char c" by (intro mod_pos_pos_trivial) simp_all
  then show ?case using of_char_range [of c] by (simp add: uint_word_of_int)
next
  case (Cons d cs)
  let ?r = "uint (of_mem (d # cs) :: 'a word)"
  have "8 * Suc (length cs) \<le> LENGTH('a)" using Cons.prems by simp
  then have r: "0 \<le> ?r" "?r < 256 ^ Suc (length cs)" using Cons.IH [of d] by (blast intro: uint_ge_0)+
  have c: "0 \<le> (of_char c :: int)" "(of_char c :: int) < 256" by (simp_all add: of_char_range)
  have v: "of_char c + 256 * ?r < 256 ^ Suc (Suc (length cs))" using r c by simp
  have "(256 :: int) ^ Suc (Suc (length cs)) = 2 ^ (8 * Suc (Suc (length cs)))" by (simp only: power_mult) simp
  also have "\<dots> \<le> 2 ^ LENGTH('a)" using Cons.prems by (intro power_increasing) simp_all
  finally have b: "of_char c + 256 * ?r < 2 ^ LENGTH('a)" using v by linarith
  have "of_mem (c # d # cs) = (word_of_int (of_char c + 256 * ?r) :: 'a word)" by simp
  then have "uint (of_mem (c # d # cs) :: 'a word) = (of_char c + 256 * ?r) mod 2 ^ LENGTH('a)"
    by (simp only: uint_word_of_int)
  also have "\<dots> = of_char c + 256 * ?r" using b r(1) c(1) by (intro mod_pos_pos_trivial) simp_all
  finally show ?case using v by simp
qed

lemma mem_bytes_of_mem_upto:
  assumes "8 * length bs \<le> LENGTH('a)"
  shows "map (\<lambda>i. char_of (drop_bit (8 * i) (uint (of_mem bs :: 'a :: len word)))) [0..<length bs] = bs"
  using assms
proof (induction bs)
  case (Cons c cs)
  let ?u = "uint (of_mem (c # cs) :: 'a word)" and ?r = "uint (of_mem cs :: 'a word)"
  have u: "?u = of_char c + 256 * ?r" using uint_of_mem_Cons [where 'a = 'a, of cs c] Cons.prems by simp
  have "drop_bit 8 ?u = ?r" using of_char_range [of c] unfolding u by (simp add: drop_bit_eq_div)
  then have d: "drop_bit (8 * Suc i) ?u = drop_bit (8 * i) ?r" for i
    using drop_bit_drop_bit [of "8 * i" 8 ?u] by (simp add: add.commute del: of_mem.simps)
  have "?u mod 256 = of_char c" unfolding u by simp
  then have c: "char_of ?u = c" by (metis char_of_mod_256 char_of_char)
  have "[0..<length (c # cs)] = 0 # map Suc [0..<length cs]" by (simp add: upt_conv_Cons map_Suc_upt del: upt_Suc)
  then show ?case using Cons c by (simp only: list.map map_map comp_def d) simp
qed simp

lemma mem_bytes_of_mem: "length bs = LENGTH('a) div 8 \<Longrightarrow> mem_bytes (of_mem bs :: 'a :: len word) = bs"
  using mem_bytes_of_mem_upto [of bs, where 'a = 'a] by (simp add: mem_bytes_def)

lemma bswap_bswap: "8 dvd LENGTH('a) \<Longrightarrow> bswap (bswap w) = w" for w :: "'a :: len word"
  by (simp add: bswap_def mem_bytes_of_mem of_mem_bytes)

lemma mem_bytes_bswap: "mem_bytes (bswap w) = rev (mem_bytes w)"
  by (simp add: bswap_def mem_bytes_of_mem)

subsection \<open>Parts\<close>

text \<open>The parts of one message: all but the last announce more.\<close>

fun message :: "string list \<Rightarrow> frame list" where
  "message [] = []"
| "message [p] = [(p, False)]"
| "message (p # ps) = (p, True) # message ps"

text \<open>A sequence of values sent as one message, and as many received.\<close>

fun send_all :: "('a \<Rightarrow> osocket \<Rightarrow> osocket) \<Rightarrow> 'a list \<Rightarrow> osocket \<Rightarrow> osocket" where
  "send_all put [] out = out"
| "send_all put [x] out = put x out"
| "send_all put (x # xs) out = send_all put xs (put x (send_more out))"

fun recv_all :: "(isocket \<Rightarrow> isocket \<times> (cpp_error + 'a)) \<Rightarrow> nat \<Rightarrow> isocket \<Rightarrow> isocket \<times> (cpp_error + 'a list)" where
  "recv_all rcv 0 s = (s, Inr [])"
| "recv_all rcv (Suc n) s =
     (case rcv s of
        (s1, Inl e) \<Rightarrow> (s1, Inl e)
      | (s1, Inr x) \<Rightarrow> (case recv_all rcv n s1 of (s2, Inl e) \<Rightarrow> (s2, Inl e) | (s2, Inr xs) \<Rightarrow> (s2, Inr (x # xs))))"

text \<open>The contract of a type of values: one part each, read as what was written.\<close>

locale wire_codec =
  fixes snd_val :: "'a \<Rightarrow> osocket \<Rightarrow> osocket" and rcv_val :: "isocket \<Rightarrow> isocket \<times> (cpp_error + 'a)"
    and enc :: "'a \<Rightarrow> string"
  assumes snd_val: "snd_val x out = send_msg (enc x) out"
    and rcv_val: "rcv_val \<lparr>i_more = m, i_queue = (enc x, b) # q\<rparr> = (\<lparr>i_more = b, i_queue = q\<rparr>, Inr x)"
begin

lemma send_all_message:
  "xs \<noteq> [] \<Longrightarrow> \<not> o_more out \<Longrightarrow> o_sent (send_all snd_val xs out) = o_sent out @ message (map enc xs) \<and> \<not> o_more (send_all snd_val xs out)"
proof (induction xs arbitrary: out)
  case (Cons x xs)
  then show ?case by (cases xs) (simp_all add: snd_val send_msg_def send_more_def)
qed simp

lemma recv_all_message:
  "xs \<noteq> [] \<Longrightarrow> recv_all rcv_val (length xs) \<lparr>i_more = m, i_queue = message (map enc xs) @ q\<rparr> = (\<lparr>i_more = False, i_queue = q\<rparr>, Inr xs)"
proof (induction xs arbitrary: m)
  case (Cons x xs)
  then show ?case by (cases xs) (simp_all add: rcv_val)
qed simp

lemma values_roundtrip:
  assumes "xs \<noteq> []" "\<not> o_more out" "i_queue s = o_sent (send_all snd_val xs out) @ q" "o_sent out = []"
  shows "recv_all rcv_val (length xs) s = (\<lparr>i_more = False, i_queue = q\<rparr>, Inr xs)"
  using recv_all_message [OF assms(1), of "i_more s" q] send_all_message [OF assms(1,2)] assms(3,4)
  by (metis append_Nil isocket.surjective old.unit.exhaust)

end

interpretation string_wire: wire_codec send_msg recv_msg "\<lambda>s. s"
  by unfold_locales (simp_all add: recv_msg_def)

interpretation uint32_wire: wire_codec send_uint32 recv_uint32 "\<lambda>x. rev (mem_bytes x)"
proof
  fix m b q and x :: "32 word"
  show "recv_uint32 \<lparr>i_more = m, i_queue = (rev (mem_bytes x), b) # q\<rparr> = (\<lparr>i_more = b, i_queue = q\<rparr>, Inr x)"
    using bswap_bswap [of x] by (simp add: recv_uint32_def pod_recv_def recv_msg_def bswap_def)
qed (simp add: send_uint32_def pod_send_def mem_bytes_bswap)

interpretation uint64_wire: wire_codec send_uint64 recv_uint64 "\<lambda>x. rev (mem_bytes x)"
proof
  fix m b q and x :: "64 word"
  show "recv_uint64 \<lparr>i_more = m, i_queue = (rev (mem_bytes x), b) # q\<rparr> = (\<lparr>i_more = b, i_queue = q\<rparr>, Inr x)"
    using bswap_bswap [of x] by (simp add: recv_uint64_def pod_recv_def recv_msg_def bswap_def)
qed (simp add: send_uint64_def pod_send_def mem_bytes_bswap)

text \<open>
  Integers cross the wire: any sequence of integers of one width that is sent as one message is received again, each
  as one part of its size with the most significant byte first; a part of any other size is an error, and is
  consumed.
\<close>

theorem integers_on_wire:
  assumes "i_queue s = o_sent (send_all send_uint32 xs \<lparr>o_more = False, o_sent = []\<rparr>) @ q" "xs \<noteq> []"
    and "i_queue s' = o_sent (send_all send_uint64 ys \<lparr>o_more = False, o_sent = []\<rparr>) @ q'" "ys \<noteq> []"
    and "length msg \<noteq> 4"
  shows "recv_all recv_uint32 (length xs) s = (\<lparr>i_more = False, i_queue = q\<rparr>, Inr xs) \<and>
    recv_all recv_uint64 (length ys) s' = (\<lparr>i_more = False, i_queue = q'\<rparr>, Inr ys) \<and>
    o_sent (send_uint32 x \<lparr>o_more = b, o_sent = fs\<rparr>) = fs @ [(map (\<lambda>i. char_of (drop_bit (8 * (3 - i)) (uint x))) [0, 1, 2, 3], b)] \<and>
    (\<exists>e. recv_uint32 \<lparr>i_more = m, i_queue = (msg, b) # fs\<rparr> = (\<lparr>i_more = b, i_queue = fs\<rparr>, Inl (Runtime_Error e)))"
proof (intro conjI)
  show "recv_all recv_uint32 (length xs) s = (\<lparr>i_more = False, i_queue = q\<rparr>, Inr xs)"
    using uint32_wire.values_roundtrip [OF assms(2) _ assms(1)] by simp
  show "recv_all recv_uint64 (length ys) s' = (\<lparr>i_more = False, i_queue = q'\<rparr>, Inr ys)"
    using uint64_wire.values_roundtrip [OF assms(4) _ assms(3)] by simp
  show "o_sent (send_uint32 x \<lparr>o_more = b, o_sent = fs\<rparr>) =
      fs @ [(map (\<lambda>i. char_of (drop_bit (8 * (3 - i)) (uint x))) [0, 1, 2, 3], b)]"
    by (simp add: uint32_wire.snd_val send_msg_def mem_bytes_def upt_rec)
  show "\<exists>e. recv_uint32 \<lparr>i_more = m, i_queue = (msg, b) # fs\<rparr> = (\<lparr>i_more = b, i_queue = fs\<rparr>, Inl (Runtime_Error e))"
    using assms(5) by (simp add: recv_uint32_def pod_recv_def recv_msg_def)
qed

theorem integers_on_wire_witness:
  "recv_all recv_uint32 2 \<lparr>i_more = False, i_queue = o_sent (send_all send_uint32 [7, 258] \<lparr>o_more = False, o_sent = []\<rparr>)\<rparr> =
     (\<lparr>i_more = False, i_queue = []\<rparr>, Inr [7, 258]) \<and>
   recv_all recv_uint64 1 \<lparr>i_more = False, i_queue = o_sent (send_all send_uint64 [9] \<lparr>o_more = False, o_sent = []\<rparr>)\<rparr> =
     (\<lparr>i_more = False, i_queue = []\<rparr>, Inr [9]) \<and>
   o_sent (send_uint32 258 \<lparr>o_more = False, o_sent = []\<rparr>) = [([CHR 0x00, CHR 0x00, CHR 0x01, CHR 0x02], False)] \<and>
   (\<exists>e. recv_uint32 \<lparr>i_more = True, i_queue = [(''abc'', False)]\<rparr> = (\<lparr>i_more = False, i_queue = []\<rparr>, Inl (Runtime_Error e)))"
  using integers_on_wire [where xs = "[7, 258]" and ys = "[9]" and q = "[]" and q' = "[]" and msg = "''abc''" and x = 258 and b = False and fs = "[]" and m = True,
      of "\<lparr>i_more = False, i_queue = o_sent (send_all send_uint32 [7, 258] \<lparr>o_more = False, o_sent = []\<rparr>)\<rparr>"
         "\<lparr>i_more = False, i_queue = o_sent (send_all send_uint64 [9] \<lparr>o_more = False, o_sent = []\<rparr>)\<rparr>"]
  by (simp add: char_of_def drop_bit_Suc numeral_2_eq_2 [symmetric])

subsection \<open>Routed messages\<close>

definition route :: "string list \<Rightarrow> frame list" where
  "route addrs = map (\<lambda>a. (a, True)) addrs @ [('''', True)]"

lemma to_addrs_sent: "o_sent (to_addrs addrs out) = o_sent out @ route addrs \<and> \<not> o_more (to_addrs addrs out)"
proof -
  have "o_sent (fold (\<lambda>addr out. send_msg addr (send_more out)) addrs out) = o_sent out @ map (\<lambda>a. (a, True)) addrs" for out
    by (induction addrs arbitrary: out) (simp_all add: send_msg_def send_more_def)
  then show ?thesis by (simp add: to_addrs_def route_def send_msg_def send_more_def)
qed

lemma to_addr_single: "to_addr a out = to_addrs [a] out"
  by (simp add: to_addr_def to_addrs_def)

lemma routing_headers_route:
  "'''' \<notin> set addrs \<Longrightarrow> routing_headers \<lparr>i_more = m, i_queue = route addrs @ q\<rparr> = (\<lparr>i_more = True, i_queue = q\<rparr>, Inr addrs)"
proof (induction addrs arbitrary: m)
  case Nil
  then show ?case by (subst routing_headers.simps) (simp add: route_def recv_msg_def)
next
  case (Cons a addrs)
  then have "routing_headers \<lparr>i_more = True, i_queue = route addrs @ q\<rparr> = (\<lparr>i_more = True, i_queue = q\<rparr>, Inr addrs)" by simp
  with Cons.prems show ?case by (subst routing_headers.simps) (auto simp: route_def recv_msg_def has_more_def)
qed

lemma ignore_route:
  "'''' \<notin> set addrs \<Longrightarrow> ignore_routing_headers \<lparr>i_more = m, i_queue = route addrs @ q\<rparr> = (\<lparr>i_more = True, i_queue = q\<rparr>, Inr ())"
proof (induction addrs arbitrary: m)
  case Nil
  then show ?case by (subst ignore_routing_headers.simps) (simp add: route_def recv_msg_def)
next
  case (Cons a addrs)
  then have "ignore_routing_headers \<lparr>i_more = True, i_queue = route addrs @ q\<rparr> = (\<lparr>i_more = True, i_queue = q\<rparr>, Inr ())" by simp
  with Cons.prems show ?case by (subst ignore_routing_headers.simps) (auto simp: route_def recv_msg_def has_more_def)
qed

text \<open>
  What 0MQ documents for a message from one XREP socket to another: its first part is taken off and names the peer,
  which finds the identity of the sender in front of the rest.
\<close>

fun xrep_link :: "string \<Rightarrow> frame list \<Rightarrow> (string \<times> frame list) option" where
  "xrep_link me ((peer, True) # fs) = Some (peer, (me, True) # fs)"
| "xrep_link me _ = None"

definition fresh_out :: osocket where
  "fresh_out = \<lparr>o_more = False, o_sent = []\<rparr>"

lemma xrep_link_sent:
  "ps \<noteq> [] \<Longrightarrow> xrep_link me (o_sent (send_all send_msg ps (to_addrs (peer # hops) fresh_out))) = Some (peer, route (me # hops) @ message ps)"
  using string_wire.send_all_message [of ps "to_addrs (peer # hops) fresh_out"] to_addrs_sent [of "peer # hops" fresh_out]
  by (simp add: fresh_out_def route_def)

text \<open>
  C35. A request and its answer between two routed sockets, as between a worker and a broker: the request arrives at the peer it was addressed
  to, which reads the address of the sender and exactly the parts sent; what it answers to the addresses it read
  arrives at the sender, behind the identity of the peer, whether the sender reads or skips the addresses. Messages that wait
  behind are left alone.
\<close>

theorem routed_exchange:
  assumes "worker \<noteq> ''''" "peer \<noteq> ''''" "ps \<noteq> []" "rs \<noteq> []"
  shows "\<exists>m1 s1 addrs m2.
    xrep_link worker (o_sent (send_all send_msg ps (to_addr peer fresh_out))) = Some (peer, m1) \<and>
    routing_headers \<lparr>i_more = b, i_queue = m1 @ q\<rparr> = (s1, Inr addrs) \<and>
    recv_all recv_msg (length ps) s1 = (\<lparr>i_more = False, i_queue = q\<rparr>, Inr ps) \<and>
    xrep_link peer (o_sent (send_all send_msg rs (to_addrs addrs fresh_out))) = Some (worker, m2) \<and>
    (\<exists>s2. routing_headers \<lparr>i_more = b', i_queue = m2 @ q'\<rparr> = (s2, Inr [peer]) \<and>
       ignore_routing_headers \<lparr>i_more = b', i_queue = m2 @ q'\<rparr> = (s2, Inr ()) \<and>
       recv_all recv_msg (length rs) s2 = (\<lparr>i_more = False, i_queue = q'\<rparr>, Inr rs))"
proof -
  have h1: "routing_headers \<lparr>i_more = b, i_queue = (route [worker] @ message ps) @ q\<rparr> = (\<lparr>i_more = True, i_queue = message ps @ q\<rparr>, Inr [worker])"
    using routing_headers_route [of "[worker]" b "message ps @ q"] assms(1) by simp
  have h2: "routing_headers \<lparr>i_more = b', i_queue = (route [peer] @ message rs) @ q'\<rparr> = (\<lparr>i_more = True, i_queue = message rs @ q'\<rparr>, Inr [peer])"
      "ignore_routing_headers \<lparr>i_more = b', i_queue = (route [peer] @ message rs) @ q'\<rparr> = (\<lparr>i_more = True, i_queue = message rs @ q'\<rparr>, Inr ())"
    using routing_headers_route [of "[peer]" b' "message rs @ q'"] ignore_route [of "[peer]" b' "message rs @ q'"] assms(2) by simp_all
  have p: "recv_all recv_msg (length xs) \<lparr>i_more = True, i_queue = message xs @ r\<rparr> = (\<lparr>i_more = False, i_queue = r\<rparr>, Inr xs)" if "xs \<noteq> []" for xs r
    using string_wire.recv_all_message [OF that] by simp
  show ?thesis
    using xrep_link_sent [OF assms(3), of worker peer "[]"] xrep_link_sent [OF assms(4), of peer worker "[]"] h1 h2 p [OF assms(3)] p [OF assms(4)]
    unfolding to_addr_single by blast
qed

theorem routed_exchange_witness:
  "\<exists>m1 s1 addrs m2.
    xrep_link ''worker'' (o_sent (send_all send_msg [''GET_JOB''] (to_addr ''broker'' fresh_out))) = Some (''broker'', m1) \<and>
    routing_headers \<lparr>i_more = False, i_queue = m1\<rparr> = (s1, Inr addrs) \<and>
    recv_all recv_msg 1 s1 = (\<lparr>i_more = False, i_queue = []\<rparr>, Inr [''GET_JOB'']) \<and>
    xrep_link ''broker'' (o_sent (send_all send_msg [''JOB'', ''tile''] (to_addrs addrs fresh_out))) = Some (''worker'', m2) \<and>
    (\<exists>s2. routing_headers \<lparr>i_more = False, i_queue = m2\<rparr> = (s2, Inr [''broker'']) \<and>
       ignore_routing_headers \<lparr>i_more = False, i_queue = m2\<rparr> = (s2, Inr ()) \<and>
       recv_all recv_msg 2 s2 = (\<lparr>i_more = False, i_queue = []\<rparr>, Inr [''JOB'', ''tile'']))"
  using routed_exchange [of "''worker''" "''broker''" "[''GET_JOB'']" "[''JOB'', ''tile'']" False "[]" False "[]"]
  by (simp only: append_Nil2 list.size One_nat_def numeral_2_eq_2) simp

subsection \<open>Tiles\<close>

lemma wf_cmd_of_int: "int32 n \<Longrightarrow> wf_cmd (cmd_of_int n)"
  by (simp add: wf_cmd_def)

lemma sint64_range: "- (2 ^ 63) \<le> sint (w :: 64 word) \<and> sint w < 2 ^ 63"
  using sint_range_size [of w] by (simp add: word_size)

lemma wf_of_pb: "wf_pb m \<Longrightarrow> wf_tile (of_pb m) \<and> int32 (tp_id (of_pb m))"
  using sint64_range by (auto simp: wf_pb_def wf_tile_def of_pb_def wf_cmd_of_int split: option.split)

text \<open>
  C34. The tile message is well typed: with a serialiser and a parser that are inverse on messages whose fields fit their
  declared types, a well-formed tile is sent as one part, and received as the same tile with its client number reduced to 32
  bits. Whatever else arrives, only well-formed tiles come out of the stream; anything else is an error, and its
  part is consumed.
\<close>

theorem tile_message_typed:
  assumes codec: "\<forall>m. wf_pb m \<longrightarrow> (\<exists>buf. ser m = Some buf \<and> parse buf = Some m)" "\<forall>buf m. parse buf = Some m \<longrightarrow> wf_pb m"
    and t: "wf_tile t" and s: "i_queue s = f # q'"
  shows "(\<exists>buf. send_tile_msg ser t out = (send_msg buf out, Inr ()) \<and>
      recv_tile_msg parse t0 \<lparr>i_more = m, i_queue = (buf, b) # q\<rparr> =
        (\<lparr>i_more = b, i_queue = q\<rparr>, Inr (t\<lparr>tp_id := trunc32 (tp_id t)\<rparr>))) \<and>
    (case recv_tile_msg parse t0 s of
       (s1, Inr t1) \<Rightarrow> wf_tile t1 \<and> int32 (tp_id t1) \<and> i_queue s1 = q'
     | (s1, Inl e) \<Rightarrow> (\<exists>msg. e = Runtime_Error msg) \<and> i_queue s1 = q')"
proof (intro conjI)
  obtain buf where b: "ser (to_pb t) = Some buf" "parse buf = Some (to_pb t)" using codec(1) wf_pb_to_pb [OF t] by blast
  then show "\<exists>buf. send_tile_msg ser t out = (send_msg buf out, Inr ()) \<and>
      recv_tile_msg parse t0 \<lparr>i_more = m, i_queue = (buf, b) # q\<rparr> =
        (\<lparr>i_more = b, i_queue = q\<rparr>, Inr (t\<lparr>tp_id := trunc32 (tp_id t)\<rparr>))"
    by (intro exI [of _ buf]) (simp add: send_tile_msg_def recv_tile_msg_def recv_msg_def serialise_def unserialise_def of_pb_to_pb [OF t])
  show "case recv_tile_msg parse t0 s of
       (s1, Inr t1) \<Rightarrow> wf_tile t1 \<and> int32 (tp_id t1) \<and> i_queue s1 = q'
     | (s1, Inl e) \<Rightarrow> (\<exists>msg. e = Runtime_Error msg) \<and> i_queue s1 = q'"
  proof (cases "parse (fst f)")
    case None
    then show ?thesis using s by (cases f) (simp add: recv_tile_msg_def recv_msg_def unserialise_def)
  next
    case (Some m')
    then have "wf_tile (of_pb m') \<and> int32 (tp_id (of_pb m'))" using codec(2) wf_of_pb by blast
    then show ?thesis using s Some by (cases f) (simp add: recv_tile_msg_def recv_msg_def unserialise_def)
  qed
qed

text \<open>A serialiser and a parser of this kind, with fixed-width fields and the length of the style in unary.\<close>

definition ex_int :: "int \<Rightarrow> string" where
  "ex_int n = mem_bytes (word_of_int n :: 32 word)"

definition ex_word :: "64 word option \<Rightarrow> string" where
  "ex_word v = (case v of None \<Rightarrow> CHR ''n'' # mem_bytes (0 :: 64 word) | Some w \<Rightarrow> CHR ''s'' # mem_bytes w)"

definition ex_ser :: "pb_tile \<Rightarrow> string option" where
  "ex_ser m = Some (ex_int (pb_command m) @ ex_int (pb_x m) @ ex_int (pb_y m) @ ex_int (pb_z m) @ ex_int (pb_id m) @ ex_int (pb_format m) @
     ex_word (pb_last_modified m) @ ex_word (pb_request_last_modified m) @ (if pb_image m = None then ''n'' else ''s'') @
     replicate (length (pb_style m)) CHR ''x'' @ ''y'' @ pb_style m @ (case pb_image m of None \<Rightarrow> [] | Some d \<Rightarrow> d))"

definition ex_int_at :: "nat \<Rightarrow> string \<Rightarrow> int" where
  "ex_int_at k b = sint (of_mem (take 4 (drop k b)) :: 32 word)"

definition ex_word_at :: "nat \<Rightarrow> string \<Rightarrow> 64 word option" where
  "ex_word_at k b = (if take 1 (drop k b) = ''s'' then Some (of_mem (take 8 (drop (Suc k) b))) else None)"

definition ex_parse :: "string \<Rightarrow> pb_tile option" where
  "ex_parse b =
     (let r = drop 43 b; n = length (takeWhile (\<lambda>c. c = CHR ''x'') r); texts = drop (Suc n) r
      in Some \<lparr>pb_command = ex_int_at 0 b, pb_x = ex_int_at 4 b, pb_y = ex_int_at 8 b, pb_z = ex_int_at 12 b, pb_id = ex_int_at 16 b,
           pb_image = (if take 1 (drop 42 b) = ''s'' then Some (drop n texts) else None), pb_style = take n texts,
           pb_format = ex_int_at 20 b, pb_last_modified = ex_word_at 24 b, pb_request_last_modified = ex_word_at 33 b\<rparr>)"

lemma ex_int_length [simp]: "length (ex_int n) = 4"
  by (simp add: ex_int_def)

lemma ex_word_length [simp]: "length (ex_word v) = 9"
  by (simp add: ex_word_def split: option.split)

lemma ex_int_at_append: "int32 n \<Longrightarrow> length a = k \<Longrightarrow> ex_int_at k (a @ ex_int n @ b) = n"
  using of_mem_bytes [of "word_of_int n :: 32 word"] trunc32_id [of n] by (simp add: ex_int_at_def trunc32_def) (simp add: ex_int_def)

lemma ex_word_at_append: "length a = k \<Longrightarrow> ex_word_at k (a @ ex_word v @ b) = v"
  by (cases v) (auto simp: ex_word_at_def ex_word_def of_mem_bytes)

lemma int32_sint: "int32 (sint (w :: 32 word))"
  using sint_range_size [of w] by (simp add: int32_def word_size)

lemma ex_codec: "wf_pb m \<Longrightarrow> \<exists>buf. ex_ser m = Some buf \<and> ex_parse buf = Some m" "ex_parse buf = Some m \<Longrightarrow> wf_pb m"
proof -
  assume wf: "wf_pb m"
  define img sty where "img = pb_image m" and "sty = pb_style m"
  let ?tl = "(if img = None then ''n'' else ''s'') @ replicate (length sty) CHR ''x'' @ ''y'' @ sty @ (case img of None \<Rightarrow> [] | Some d \<Rightarrow> d)"
  let ?i = "ex_int (pb_command m) @ ex_int (pb_x m) @ ex_int (pb_y m) @ ex_int (pb_z m) @ ex_int (pb_id m) @ ex_int (pb_format m)"
  let ?w = "ex_word (pb_last_modified m) @ ex_word (pb_request_last_modified m)"
  define b where "b = ?i @ ?w @ ?tl"
  have b: "ex_ser m = Some b" by (simp add: ex_ser_def b_def img_def sty_def)
  have ints: "ex_int_at 0 b = pb_command m" "ex_int_at 4 b = pb_x m" "ex_int_at 8 b = pb_y m" "ex_int_at 12 b = pb_z m" "ex_int_at 16 b = pb_id m"
      "ex_int_at 20 b = pb_format m"
    using wf ex_int_at_append [of "pb_command m" "[]"] ex_int_at_append [of "pb_x m" "ex_int (pb_command m)" 4]
      ex_int_at_append [of "pb_y m" "ex_int (pb_command m) @ ex_int (pb_x m)" 8]
      ex_int_at_append [of "pb_z m" "ex_int (pb_command m) @ ex_int (pb_x m) @ ex_int (pb_y m)" 12]
      ex_int_at_append [of "pb_id m" "ex_int (pb_command m) @ ex_int (pb_x m) @ ex_int (pb_y m) @ ex_int (pb_z m)" 16]
      ex_int_at_append [of "pb_format m" "ex_int (pb_command m) @ ex_int (pb_x m) @ ex_int (pb_y m) @ ex_int (pb_z m) @ ex_int (pb_id m)" 20]
    by (simp_all add: wf_pb_def b_def)
  have words: "ex_word_at 24 b = pb_last_modified m" "ex_word_at 33 b = pb_request_last_modified m"
    using ex_word_at_append [of ?i 24] ex_word_at_append [of "?i @ ex_word (pb_last_modified m)" 33] by (simp_all add: b_def)
  have d: "drop 42 b = ?tl" by (simp add: b_def)
  have flag: "take 1 (drop 42 b) = ''s'' \<longleftrightarrow> img \<noteq> None" unfolding d by simp
  have "drop 43 b = drop 1 (drop 42 b)" by simp
  then have r: "drop 43 b = replicate (length sty) CHR ''x'' @ CHR ''y'' # sty @ (case img of None \<Rightarrow> [] | Some d \<Rightarrow> d)"
    unfolding d by simp
  have n: "length (takeWhile (\<lambda>c. c = CHR ''x'') (replicate k CHR ''x'' @ CHR ''y'' # u)) = k" for k u
    by (induction k) simp_all
  have "ex_parse b = Some m"
    unfolding ex_parse_def Let_def ints words flag r n
    by (cases m) (auto simp: img_def sty_def split: option.split)
  with b show "\<exists>buf. ex_ser m = Some buf \<and> ex_parse buf = Some m" by blast
next
  assume "ex_parse buf = Some m"
  then show "wf_pb m" by (auto simp: ex_parse_def Let_def wf_pb_def ex_int_at_def int32_sint)
qed

theorem tile_message_typed_witness:
  "(\<exists>buf. send_tile_msg ex_ser default_tile fresh_out = (send_msg buf fresh_out, Inr ()) \<and>
      recv_tile_msg ex_parse default_tile \<lparr>i_more = False, i_queue = [(buf, False)]\<rparr> = (\<lparr>i_more = False, i_queue = []\<rparr>, Inr default_tile)) \<and>
   (case recv_tile_msg ex_parse default_tile \<lparr>i_more = False, i_queue = [(''?'', False)]\<rparr> of
      (s1, Inr t1) \<Rightarrow> wf_tile t1 \<and> int32 (tp_id t1) \<and> i_queue s1 = []
    | (s1, Inl e) \<Rightarrow> (\<exists>msg. e = Runtime_Error msg) \<and> i_queue s1 = [])"
proof -
  have c: "\<forall>m. wf_pb m \<longrightarrow> (\<exists>buf. ex_ser m = Some buf \<and> ex_parse buf = Some m)" "\<forall>buf m. ex_parse buf = Some m \<longrightarrow> wf_pb m"
    using ex_codec by blast+
  have t: "wf_tile default_tile" "default_tile\<lparr>tp_id := trunc32 (tp_id default_tile)\<rparr> = default_tile"
    by (simp_all add: default_tile_def wf_tile_def int32_def fmt_defs)
  show ?thesis
    using tile_message_typed [OF c t(1), of "\<lparr>i_more = False, i_queue = [(''?'', False)]\<rparr>" "(''?'', False)" "[]" fresh_out default_tile False False "[]"]
    unfolding t(2) by simp
qed

end
