(* ===== verification/Tile_Submitter.thy ===== *)
theory Tile_Submitter
  imports Tile_Path Istream
begin

text \<open>
  The tool that submits lists of tiles for rendering in the background (\<^verbatim>\<open>tile_submitter.cpp\<close>): reading tile paths from a
  stream line by line, and the loop that puts them into the queue at the pace of the brokers. The queue runner and the clock
  act on a world \<open>'w\<close>. Loops that wait for the queue or the clock are partial functions; \<open>None\<close> is not returning.
\<close>

subsection \<open>Reading tiles\<close>

record reader =
  m_in :: istream
  m_line_count :: nat

text \<open>\<^verbatim>\<open>read_from_iostream::next\<close>: the buffer has 1024 characters, of which all but one are offered; the line ends at its first zero.\<close>

definition next_tile :: "reader \<Rightarrow> reader \<times> tile_protocol option" where
  "next_tile r =
     (if is_eof (m_in r) \<or> is_bad (m_in r) then (r, None)
      else case getline 1023 (m_in r) of
        (line, gcount, s) \<Rightarrow>
          (\<lparr>m_in = s, m_line_count = m_line_count r + 1\<rparr>,
           if gcount = 1023 then None else tile_path_grammar (takeWhile (\<lambda>c. c \<noteq> CHR 0x00) line) default_tile))"

subsection \<open>Submitting\<close>

record 'w submit_env =
  runner_poll :: "int \<Rightarrow> 'w \<Rightarrow> 'w"
  runner_queue_length :: "'w \<Rightarrow> nat"
  runner_put_job :: "tile_protocol \<Rightarrow> 'w \<Rightarrow> 'w \<times> (cpp_error + unit)"
  local_time :: "'w \<Rightarrow> 'w \<times> int"

partial_function (option) settle :: "'w submit_env \<Rightarrow> 'w \<Rightarrow> 'w option" where
  "settle env w = (if 1000000 \<le> runner_queue_length env w then settle env (runner_poll env 1000 w) else Some w)"

text \<open>The loop before a tile, while the queue is long.\<close>

partial_function (option) wait_short :: "'w submit_env \<Rightarrow> nat \<Rightarrow> bool \<Rightarrow> 'w \<Rightarrow> 'w option" where
  "wait_short env short_queue_length queue_short w =
     (if queue_short then Some w
      else wait_short env short_queue_length
        (runner_queue_length env (runner_poll env (- 1) w) < short_queue_length) (runner_poll env (- 1) w))"

definition submitted :: "tile_protocol \<Rightarrow> tile_protocol" where
  "submitted tile = tile\<lparr>tp_x := tp_x tile AND NOT 7, tp_y := tp_y tile AND NOT 7, tp_id := - 1, status := cmdRenderBulk\<rparr>"

text \<open>The pause in microseconds, of which whole milliseconds count: \<^verbatim>\<open>milliseconds(pause_time / 1000)\<close>.\<close>

definition pause_length :: "int \<Rightarrow> int" where
  "pause_length pause_time = 1000 * (sgn pause_time * (\<bar>pause_time\<bar> div 1000))"

text \<open>The loop after a tile, until the pause is over.\<close>

partial_function (option) pause_loop :: "'w submit_env \<Rightarrow> nat \<Rightarrow> int \<Rightarrow> int \<Rightarrow> bool \<Rightarrow> 'w \<Rightarrow> ('w \<times> bool) option" where
  "pause_loop env short_queue_length pause_time wait_until queue_short w =
     (case local_time env w of
        (w1, now) \<Rightarrow>
          if now < wait_until
          then pause_loop env short_queue_length pause_time wait_until
            (runner_queue_length env (runner_poll env pause_time w1) < short_queue_length) (runner_poll env pause_time w1)
          else Some (w1, queue_short))"

text \<open>The loop over the tiles. An exception of \<^verbatim>\<open>put_job\<close> is only logged, and the tile is not tried again.\<close>

partial_function (option) submit_loop :: "'w submit_env \<Rightarrow> nat \<Rightarrow> int \<Rightarrow> bool \<Rightarrow> reader \<Rightarrow> 'w \<Rightarrow> 'w option" where
  "submit_loop env short_queue_length pause_time queue_short r w =
     (case next_tile r of
        (r1, None) \<Rightarrow> Some w
      | (r1, Some mtile) \<Rightarrow>
        Option.bind (wait_short env short_queue_length queue_short w) (\<lambda>w1.
          case local_time env (fst (runner_put_job env (submitted mtile) w1)) of
            (w2, now) \<Rightarrow>
              Option.bind (pause_loop env short_queue_length pause_time (now + pause_length pause_time) True w2) (\<lambda>p.
                submit_loop env short_queue_length pause_time (snd p) r1 (fst p))))"

definition enqueue_tiles :: "'w submit_env \<Rightarrow> nat \<Rightarrow> int \<Rightarrow> reader \<Rightarrow> 'w \<Rightarrow> 'w option" where
  "enqueue_tiles env short_queue_length pause_time r w =
     Option.bind (settle env w) (submit_loop env short_queue_length pause_time False r)"

end
