(* ===== verification/Tile_Submitter_Props.thy ===== *)
theory Tile_Submitter_Props
  imports Tile_Submitter
begin

text \<open>
  Properties of the submitting tool: which tiles it reads from a file, that it submits exactly those and ends when the
  queue and the clock move on, and when it does not look at the queue any more.
\<close>

subsection \<open>Reading\<close>

lemma grammar_empty [simp]: "tile_path_grammar [] t = None"
  by (simp add: tile_path_grammar_def)

lemma next_tile_shorter:
  assumes "next_tile r = (r1, Some t)"
  shows "length (is_data (m_in r1)) < length (is_data (m_in r))"
proof -
  obtain line k s where g: "getline 1023 (m_in r) = (line, k, s)" by (metis prod.exhaust)
  then have r1: "m_in r1 = s" "tile_path_grammar (takeWhile (\<lambda>c. c \<noteq> CHR 0x00) line) default_tile = Some t"
    using assms by (auto simp: next_tile_def split: if_splits)
  then have "line \<noteq> []" by auto
  from getline_shorter [OF g this] show ?thesis by (simp add: r1)
qed

text \<open>All tiles a reader gives.\<close>

function reader_tiles :: "reader \<Rightarrow> tile_protocol list" where
  "reader_tiles r = (case next_tile r of (r1, None) \<Rightarrow> [] | (r1, Some t) \<Rightarrow> t # reader_tiles r1)"
  by pat_completeness auto
termination
  by (relation "measure (\<lambda>r. length (is_data (m_in r)))") (auto dest!: next_tile_shorter [OF sym])

declare reader_tiles.simps [simp del]

definition open_reader :: "string \<Rightarrow> nat \<Rightarrow> reader" where
  "open_reader data n = \<lparr>m_in = \<lparr>is_data = data, is_eof = False, is_fail = False, is_bad = False\<rparr>, m_line_count = n\<rparr>"

text \<open>A line that is short enough is read as a whole.\<close>

definition line_ok :: "string \<Rightarrow> bool" where
  "line_ok l \<longleftrightarrow> CHR 0x0A \<notin> set l \<and> CHR 0x00 \<notin> set l \<and> length l < 1022"

lemma next_tile_line:
  "line_ok l \<Longrightarrow> next_tile (open_reader (l @ CHR 0x0A # rest) n) = (open_reader rest (n + 1), tile_path_grammar l default_tile)"
  by (simp add: next_tile_def open_reader_def getline_def takeWhile_line takeWhile_notin line_ok_def Let_def)

lemma reader_tiles_empty: "reader_tiles (open_reader [] n) = []"
  by (subst reader_tiles.simps) (simp add: next_tile_def open_reader_def getline_def)

lemma reader_tiles_lines:
  assumes "\<forall>l \<in> set ls. line_ok l \<and> tile_path_grammar l default_tile = Some (f l)"
  shows "reader_tiles (open_reader (concat (map (\<lambda>l. l @ [CHR 0x0A]) ls) @ rest) n) =
    map f ls @ reader_tiles (open_reader rest (n + length ls))"
  using assms
proof (induction ls arbitrary: n)
  case (Cons l ls)
  then have "next_tile (open_reader (l @ CHR 0x0A # concat (map (\<lambda>l. l @ [CHR 0x0A]) ls) @ rest) n) =
      (open_reader (concat (map (\<lambda>l. l @ [CHR 0x0A]) ls) @ rest) (n + 1), Some (f l))"
    using next_tile_line [of l] by simp
  then show ?case using Cons by (subst reader_tiles.simps) simp
qed simp

text \<open>
  A line of exactly the length of the buffer is refused, as is meant. Of a longer one the beginning is parsed like a
  line, and whatever comes of it, nothing behind it is read.
\<close>

lemma overlong_line:
  assumes "CHR 0x0A \<notin> set l" "CHR 0x00 \<notin> set l" "1022 \<le> length l"
  shows "reader_tiles (open_reader (l @ CHR 0x0A # rest) n) =
    (if length l = 1022 then []
     else case tile_path_grammar (take 1022 l) default_tile of Some t \<Rightarrow> [t] | None \<Rightarrow> [])"
proof (cases "length l = 1022")
  case True
  then show ?thesis using assms
    by (subst reader_tiles.simps) (simp add: next_tile_def open_reader_def getline_def takeWhile_line Let_def)
next
  case False
  have stuck: "reader_tiles \<lparr>m_in = \<lparr>is_data = d, is_eof = False, is_fail = True, is_bad = False\<rparr>, m_line_count = k\<rparr> = []" for d k
    by (subst reader_tiles.simps) (simp add: next_tile_def getline_def)
  have "CHR 0x00 \<notin> set (take 1022 l)" using assms(2) by (meson in_set_takeD)
  then show ?thesis using assms False
    by (subst reader_tiles.simps)
       (simp add: next_tile_def open_reader_def getline_def takeWhile_line takeWhile_notin Let_def stuck split: option.split)
qed

subsection \<open>Submitting\<close>

text \<open>
  What the tool relies on in the queue, seen through a log of the calls of \<^verbatim>\<open>put_job\<close> with whether they returned: a call
  is added to the log, and neither polling the queue nor looking at the clock puts a job.
\<close>

definition records_jobs :: "'w submit_env \<Rightarrow> ('w \<Rightarrow> (tile_protocol \<times> bool) list) \<Rightarrow> bool" where
  "records_jobs env log \<longleftrightarrow>
     (\<forall>t w. log (fst (runner_put_job env t w)) = log w @ [(t, \<not> isl (snd (runner_put_job env t w)))]) \<and>
     (\<forall>n w. log (runner_poll env n w) = log w) \<and> (\<forall>w. log (fst (local_time env w)) = log w)"

text \<open>The calls of a run, for the jobs in turn.\<close>

definition put_in_turn :: "'w submit_env \<Rightarrow> tile_protocol list \<Rightarrow> (tile_protocol \<times> bool) list \<Rightarrow> bool" where
  "put_in_turn env jobs rs \<longleftrightarrow> map fst rs = jobs \<and> (\<forall>(t, ok) \<in> set rs. \<exists>w. ok \<longleftrightarrow> \<not> isl (snd (runner_put_job env t w)))"

lemma put_in_turn_Nil [simp]: "put_in_turn env [] []"
  by (simp add: put_in_turn_def)

lemma put_in_turn_Cons: "put_in_turn env jobs rs \<Longrightarrow> put_in_turn env (t # jobs) ((t, \<not> isl (snd (runner_put_job env t w))) # rs)"
  by (auto simp: put_in_turn_def)

text \<open>
  The queue and the clock move on: the queue gets short when it is polled often enough, and time passes between two looks at
  the clock with a poll in between.
\<close>

definition moves_on :: "'w submit_env \<Rightarrow> nat \<Rightarrow> int \<Rightarrow> bool" where
  "moves_on env short pause \<longleftrightarrow>
     (\<forall>w. \<exists>n. runner_queue_length env ((runner_poll env 1000 ^^ n) w) < 1000000) \<and>
     (\<forall>w. \<exists>n. runner_queue_length env ((runner_poll env (- 1) ^^ Suc n) w) < short) \<and>
     (\<forall>w. snd (local_time env w) < snd (local_time env (runner_poll env pause (fst (local_time env w)))))"

lemma settle_ends:
  assumes "records_jobs env log" "runner_queue_length env ((runner_poll env 1000 ^^ n) w) < 1000000"
  shows "\<exists>w'. settle env w = Some w' \<and> log w' = log w"
  using assms(2)
proof (induction n arbitrary: w)
  case 0
  then show ?case by (subst settle.simps) simp
next
  case (Suc n)
  then have "\<exists>w'. settle env (runner_poll env 1000 w) = Some w' \<and> log w' = log (runner_poll env 1000 w)"
    by (simp add: funpow_swap1)
  then show ?case using assms(1) by (subst settle.simps) (auto simp: records_jobs_def)
qed

lemma wait_short_ends:
  assumes "records_jobs env log" "runner_queue_length env ((runner_poll env (- 1) ^^ Suc n) w) < short"
  shows "\<exists>w'. wait_short env short False w = Some w' \<and> log w' = log w"
  using assms(2)
proof (induction n arbitrary: w)
  case 0
  then show ?case using assms(1) by (subst wait_short.simps, simp, subst wait_short.simps) (simp add: records_jobs_def)
next
  case (Suc n)
  let ?w = "runner_poll env (- 1) w"
  have "\<exists>w'. wait_short env short False ?w = Some w' \<and> log w' = log ?w"
    using Suc by (simp add: funpow_swap1)
  moreover have "runner_queue_length env ?w < short \<Longrightarrow> wait_short env short True ?w = Some ?w" by (subst wait_short.simps) simp
  moreover have "log ?w = log w" using assms(1) by (simp add: records_jobs_def)
  ultimately show ?case by (subst wait_short.simps) (cases "runner_queue_length env ?w < short", auto)
qed

lemma pause_ends:
  assumes "records_jobs env log" "\<forall>w. snd (local_time env w) < snd (local_time env (runner_poll env pause (fst (local_time env w))))"
  shows "\<exists>w' qs'. pause_loop env short pause until qs w = Some (w', qs') \<and> log w' = log w"
proof (induction "nat (until - snd (local_time env w))" arbitrary: w qs rule: less_induct)
  case less
  show ?case
  proof (cases "snd (local_time env w) < until")
    case True
    let ?w = "runner_poll env pause (fst (local_time env w))"
    have "\<exists>w' qs'. pause_loop env short pause until (runner_queue_length env ?w < short) ?w = Some (w', qs') \<and> log w' = log ?w"
      using assms(2) True by (intro less) (smt (verit) nat_mono_iff)
    moreover have "log ?w = log w" using assms(1) by (simp add: records_jobs_def)
    ultimately show ?thesis using True by (subst pause_loop.simps) (simp add: case_prod_beta)
  next
    case False
    then show ?thesis using assms(1) by (subst pause_loop.simps) (simp add: case_prod_beta records_jobs_def)
  qed
qed

lemma submit_loop_ends:
  assumes "moves_on env short pause" "records_jobs env log"
  shows "\<exists>w' rs. submit_loop env short pause qs r w = Some w' \<and> log w' = log w @ rs \<and>
    put_in_turn env (map submitted (reader_tiles r)) rs"
proof (induction r arbitrary: qs w rule: reader_tiles.induct)
  case (1 r)
  obtain r1 t where n: "next_tile r = (r1, t)" by (metis prod.exhaust)
  have "\<exists>w'. wait_short env short qs w = Some w' \<and> log w' = log w"
  proof (cases qs)
    case True
    then show ?thesis by (subst wait_short.simps) simp
  next
    case False
    then show ?thesis using assms(1) wait_short_ends [OF assms(2)] unfolding moves_on_def by metis
  qed
  then obtain w1 where w1: "wait_short env short qs w = Some w1" "log w1 = log w" by blast
  show ?case
  proof (cases t)
    case None
    then show ?thesis by (subst submit_loop.simps) (simp add: n reader_tiles.simps [of r])
  next
    case (Some tile)
    let ?j = "submitted tile"
    obtain w2 now where w2: "local_time env (fst (runner_put_job env ?j w1)) = (w2, now)" by (metis prod.exhaust)
    have l2: "log w2 = log w @ [(?j, \<not> isl (snd (runner_put_job env ?j w1)))]"
      using assms(2) w1(2) w2 unfolding records_jobs_def by (metis fst_conv)
    obtain w3 qs3 where w3: "pause_loop env short pause (now + pause_length pause) True w2 = Some (w3, qs3)" "log w3 = log w2"
      using pause_ends [OF assms(2)] assms(1) unfolding moves_on_def by metis
    obtain w4 rs where w4: "submit_loop env short pause qs3 r1 w3 = Some w4" "log w4 = log w3 @ rs"
        "put_in_turn env (map submitted (reader_tiles r1)) rs"
      using "1.IH" [OF n [symmetric] Some] by blast
    have "submit_loop env short pause qs r w = Some w4"
      by (subst submit_loop.simps) (simp add: n Some w1 w2 w3 w4)
    then show ?thesis using l2 w3(2) w4(2) put_in_turn_Cons [OF w4(3), of ?j w1]
      by (simp add: n Some reader_tiles.simps [of r])
  qed
qed

lemma enqueue_ends:
  assumes "moves_on env short pause" "records_jobs env log"
  shows "\<exists>w' rs. enqueue_tiles env short pause r w = Some w' \<and> log w' = log w @ rs \<and>
    put_in_turn env (map submitted (reader_tiles r)) rs"
proof -
  obtain w1 where "settle env w = Some w1" "log w1 = log w"
    using assms(1) settle_ends [OF assms(2)] unfolding moves_on_def by metis
  then show ?thesis using submit_loop_ends [OF assms, of False r w1] by (simp add: enqueue_tiles_def)
qed

subsection \<open>From a file to the queue\<close>

lemma segment_plain: "segment_ok g \<Longrightarrow> c \<in> set g \<Longrightarrow> is_alnum c"
  by (cases g) (auto simp: segment_ok_def is_alnum_def)

lemma path_text_plain:
  assumes "\<forall>g \<in> set segs. segment_ok g" "(ext, f) \<in> set formats_table" "c \<in> {CHR 0x0A, CHR 0x00}"
  shows "c \<notin> set (tile_path_text segs z x y ext '''')"
proof -
  have c: "\<not> is_digit c" "\<not> is_alnum c" "c \<noteq> CHR ''-''" "c \<noteq> CHR ''/''" "c \<noteq> CHR ''.''"
    using assms(3) by (auto simp: is_digit_def is_alnum_def is_alpha_def)
  moreover have "c \<notin> set (slashed segs)" using assms(1) segment_plain c by (auto simp: slashed_def)
  moreover have "c \<notin> set (dec_int n)" for n using dec_int_chars c by blast
  moreover have "c \<notin> set ext" using assms(2,3) by (auto simp: formats_table_def)
  ultimately show ?thesis by (simp add: tile_path_text_def)
qed

text \<open>The tiles of a list as the lines of a file, and as the jobs that are to come of them.\<close>

type_synonym listed_tile = "string list \<times> int \<times> int \<times> int \<times> string \<times> protoFmt"

definition listed_ok :: "listed_tile \<Rightarrow> bool" where
  "listed_ok = (\<lambda>(segs, z, x, y, ext, f). segs \<noteq> [] \<and> (\<forall>g \<in> set segs. segment_ok g) \<and> int32 x \<and> int32 y \<and> int32 z \<and>
     (ext, f) \<in> set formats_table \<and> length (tile_path_text segs z x y ext '''') < 1022)"

definition listed_line :: "listed_tile \<Rightarrow> string" where
  "listed_line = (\<lambda>(segs, z, x, y, ext, f). tile_path_text segs z x y ext '''')"

definition listed_job :: "listed_tile \<Rightarrow> tile_protocol" where
  "listed_job = (\<lambda>(segs, z, x, y, ext, f). \<lparr>status = cmdRenderBulk, tp_x = x - x mod 8, tp_y = y - y mod 8, tp_z = z, tp_id = - 1,
     style = tl (slashed segs), format = f, last_modified = 0, request_last_modified = 0, tile_data = ''''\<rparr>)"

text \<open>
  C37. The tiles of a file are submitted: if the queue keeps getting short and the clock moves on, the tool ends, and it has
  called \<^verbatim>\<open>put_job\<close> of the queue once for each tile listed in the file and for nothing else, in their order, each moved to
  the corner of its metatile, without a client and as work for the background. The jobs for which the call threw are not put
  again; if none throws, all are in the queue.
\<close>

theorem submit_file:
  assumes "moves_on env short pause" "records_jobs env log" "\<forall>t \<in> set ts. listed_ok t"
  shows "\<exists>w' rs. enqueue_tiles env short pause (open_reader (concat (map (\<lambda>t. listed_line t @ [CHR 0x0A]) ts)) 0) w = Some w' \<and>
    log w' = log w @ rs \<and> map fst rs = map listed_job ts \<and>
    (\<forall>(t, ok) \<in> set rs. \<exists>v. ok \<longleftrightarrow> \<not> isl (snd (runner_put_job env t v))) \<and>
    ((\<forall>t v. snd (runner_put_job env t v) = Inr ()) \<longrightarrow> log w' = log w @ map (\<lambda>t. (listed_job t, True)) ts)"
proof -
  define tile where "tile l = the (tile_path_grammar l default_tile)" for l
  have p: "line_ok (listed_line t) \<and> tile_path_grammar (listed_line t) default_tile = Some (tile (listed_line t)) \<and>
      submitted (tile (listed_line t)) = listed_job t" if "t \<in> set ts" for t
  proof -
    obtain segs z x y ext f where t: "t = (segs, z, x, y, ext, f)" by (metis prod.exhaust)
    have ok: "segs \<noteq> []" "\<forall>g \<in> set segs. segment_ok g" "int32 x" "int32 y" "int32 z" "(ext, f) \<in> set formats_table"
        "length (tile_path_text segs z x y ext '''') < 1022"
      using assms(3) that by (auto simp: t listed_ok_def)
    have "commands_rule '''' = Some (cmdRender, [])" by (simp add: commands_rule_def)
    note g = grammar_parsed [OF ok(1-6) this]
    show ?thesis
      using path_text_plain [OF ok(2,6)] ok(7) and_not_7 [of x] and_not_7 [of y]
      by (simp add: t listed_line_def listed_job_def line_ok_def tile_def g submitted_def) (simp add: default_tile_def)
  qed
  have "reader_tiles (open_reader (concat (map (\<lambda>l. l @ [CHR 0x0A]) (map listed_line ts)) @ []) 0) =
      map tile (map listed_line ts) @ reader_tiles (open_reader [] (0 + length (map listed_line ts)))"
    by (rule reader_tiles_lines) (use p in auto)
  then have "map submitted (reader_tiles (open_reader (concat (map (\<lambda>t. listed_line t @ [CHR 0x0A]) ts)) 0)) = map listed_job ts"
    using p by (simp add: reader_tiles_empty comp_def)
  then obtain w' rs where e: "enqueue_tiles env short pause (open_reader (concat (map (\<lambda>t. listed_line t @ [CHR 0x0A]) ts)) 0) w = Some w'"
      "log w' = log w @ rs" "put_in_turn env (map listed_job ts) rs"
    using enqueue_ends [OF assms(1,2), of "open_reader (concat (map (\<lambda>t. listed_line t @ [CHR 0x0A]) ts)) 0" w] by auto
  have "rs = map (\<lambda>t. (listed_job t, True)) ts" if "\<forall>t v. snd (runner_put_job env t v) = Inr ()"
  proof (rule nth_equalityI)
    have m: "map fst rs = map listed_job ts" using e(3) by (simp add: put_in_turn_def)
    then show l: "length rs = length (map (\<lambda>t. (listed_job t, True)) ts)" by (metis length_map)
    fix i assume i: "i < length rs"
    have "fst (rs ! i) = listed_job (ts ! i)" using arg_cong [OF m, of "\<lambda>l. l ! i"] i l by simp
    moreover have "snd (rs ! i)"
    proof -
      obtain v where "snd (rs ! i) \<longleftrightarrow> \<not> isl (snd (runner_put_job env (fst (rs ! i)) v))"
        using e(3) nth_mem [OF i] unfolding put_in_turn_def by fastforce
      then show ?thesis using that by simp
    qed
    ultimately show "rs ! i = map (\<lambda>t. (listed_job t, True)) ts ! i" using i l by (simp add: prod_eq_iff)
  qed
  then show ?thesis using e unfolding put_in_turn_def by blast
qed

text \<open>
  A queue with its length, a clock that counts the looks at it, and the log of the calls: it shrinks by one with every poll, and
  refuses tiles of zoom level 20.
\<close>

definition ex_submit :: "(nat \<times> int \<times> (tile_protocol \<times> bool) list) submit_env" where
  "ex_submit = \<lparr>runner_poll = (\<lambda>t (n, c, l). (n - 1, c, l)), runner_queue_length = fst,
     runner_put_job = (\<lambda>t (n, c, l). if tp_z t = 20 then ((n, c, l @ [(t, False)]), Inl (Broker_Error ''refused''))
       else ((n + 1, c, l @ [(t, True)]), Inr ())),
     local_time = (\<lambda>(n, c, l). ((n, c + 1, l), c))\<rparr>"

lemma ex_submit_moves: "moves_on ex_submit 1 5000" "records_jobs ex_submit (\<lambda>(n, c, l). l)"
proof -
  have p: "fst (((\<lambda>(n, c, l). (n - Suc 0, c, l)) ^^ k) w) = fst w - k" for k and w :: "nat \<times> int \<times> (tile_protocol \<times> bool) list"
    by (induction k arbitrary: w) (auto simp: case_prod_beta)
  have "\<exists>k. fst (((\<lambda>(n, c, l). (n - Suc 0, c, l)) ^^ k) w) < 1000000" "\<exists>k. fst (((\<lambda>(n, c, l). (n - Suc 0, c, l)) ^^ Suc k) w) < 1"
    for w :: "nat \<times> int \<times> (tile_protocol \<times> bool) list"
    unfolding p by (intro exI [of _ "fst w"], simp)+
  then show "moves_on ex_submit 1 5000" by (simp add: moves_on_def ex_submit_def split: prod.split)
  show "records_jobs ex_submit (\<lambda>(n, c, l). l)" by (simp add: records_jobs_def ex_submit_def split: prod.split)
qed

theorem submit_file_witness:
  "\<exists>n c. enqueue_tiles ex_submit 1 5000 (open_reader (''/map/3/5/1.png'' @ [CHR 0x0A] @ ''/map/20/100/9.jpg'' @ [CHR 0x0A]) 0) (7, 0, []) =
     Some (n, c, [(\<lparr>status = cmdRenderBulk, tp_x = 0, tp_y = 0, tp_z = 3, tp_id = - 1, style = ''map'', format = fmtPNG,
                    last_modified = 0, request_last_modified = 0, tile_data = ''''\<rparr>, True),
                  (\<lparr>status = cmdRenderBulk, tp_x = 96, tp_y = 8, tp_z = 20, tp_id = - 1, style = ''map'', format = fmtJPEG,
                    last_modified = 0, request_last_modified = 0, tile_data = ''''\<rparr>, False)])"
proof -
  have d: "dec_int 3 = ''3''" "dec_int 5 = ''5''" "dec_int 1 = ''1''" "dec_int 20 = ''20''" "dec_int 100 = ''100''" "dec_int 9 = ''9''"
    by code_simp+
  let ?ts = "[([''map''], 3, 5, 1, ''png'', fmtPNG), ([''map''], 20, 100, 9, ''jpg'', fmtJPEG)]"
  have ok: "\<forall>t \<in> set ?ts. listed_ok t"
    by (simp add: listed_ok_def tile_path_text_def segment_ok_def is_alnum_def is_alpha_def int32_def formats_table_def d)
  obtain n c l rs where e: "enqueue_tiles ex_submit 1 5000 (open_reader (concat (map (\<lambda>t. listed_line t @ [CHR 0x0A]) ?ts)) 0) (7, 0, []) = Some (n, c, l)"
      "l = rs" "map fst rs = map listed_job ?ts" "\<forall>(t, ok) \<in> set rs. \<exists>v. ok \<longleftrightarrow> \<not> isl (snd (runner_put_job ex_submit t v))"
    using submit_file [OF ex_submit_moves ok, of "(7, 0, [])"] by (elim exE conjE) (simp only: append_Nil prod.case split_paired_all)
  have r: "\<not> isl (snd (runner_put_job ex_submit t v)) \<longleftrightarrow> tp_z t \<noteq> 20" for t v by (simp add: ex_submit_def split: prod.split)
  have "\<forall>(t, ok) \<in> set rs. ok \<longleftrightarrow> tp_z t \<noteq> 20" using e(4) unfolding r by auto
  then have "rs = map (\<lambda>t. (t, tp_z t \<noteq> 20)) (map fst rs)" by (induction rs) auto
  then show ?thesis using e(1,2) unfolding e(3)
    by (intro exI [of _ n] exI [of _ c]) (simp add: listed_line_def listed_job_def tile_path_text_def d)
qed

text \<open>
  The pace is lost when the pause is below a millisecond: once the queue was short, the tool puts all remaining tiles into the queue
  without another look at its length; between two jobs it only looks at the clock.
\<close>

theorem short_pause_unthrottled:
  assumes "0 \<le> pause" "pause < 1000" "\<forall>w. snd (local_time env w) \<le> snd (local_time env (fst (local_time env w)))"
  shows "submit_loop env short pause True r w =
    Some (fold (\<lambda>t w. fst (local_time env (fst (local_time env (fst (runner_put_job env t w)))))) (map submitted (reader_tiles r)) w)"
proof (induction r arbitrary: w rule: reader_tiles.induct)
  case (1 r)
  have z: "pause_length pause = 0" using assms(1,2) by (simp add: pause_length_def)
  have p: "pause_loop env short pause (snd (local_time env w)) True (fst (local_time env w)) =
      Some (fst (local_time env (fst (local_time env w))), True)" for w
    using assms(3) by (subst pause_loop.simps) (simp add: case_prod_beta leD)
  have s: "wait_short env short True w = Some w" by (subst wait_short.simps) simp
  obtain r1 t where n: "next_tile r = (r1, t)" by (metis prod.exhaust)
  show ?case
  proof (cases t)
    case None
    then show ?thesis by (subst submit_loop.simps) (simp add: n reader_tiles.simps [of r])
  next
    case (Some tile)
    then show ?thesis using "1.IH" [OF n [symmetric] Some]
      by (subst submit_loop.simps) (simp add: n s p z case_prod_beta reader_tiles.simps [of r])
  qed
qed

theorem short_pause_unthrottled_witness:
  "submit_loop ex_submit 1 999 True (open_reader (''/map/3/5/1.png'' @ [CHR 0x0A] @ ''/map/3/5/2.png'' @ [CHR 0x0A]) 0) (0, 0, []) =
    Some (fold (\<lambda>t w. fst (local_time ex_submit (fst (local_time ex_submit (fst (runner_put_job ex_submit t w))))))
            (map submitted (reader_tiles (open_reader (''/map/3/5/1.png'' @ [CHR 0x0A] @ ''/map/3/5/2.png'' @ [CHR 0x0A]) 0))) (0, 0, []))"
  by (rule short_pause_unthrottled) (simp_all add: ex_submit_def split: prod.split)

end
