(* ===== verification/Pgq_Backend.thy ===== *)
theory Pgq_Backend
  imports Tile_Path
begin

text \<open>
  The queue in a PostgreSQL table (\<^verbatim>\<open>dqueue/pgq_backend.cpp\<close>): the wrappers around libpq, transactions that are
  committed or rolled back, and the operations of the queue with the statements they send. The database and libpq are the
  parameter \<open>db\<close>, which acts on a world \<open>'w\<close>.
\<close>

subsection \<open>libpq\<close>

text \<open>The result of a statement; a row is the list of its fields with their values, both as text.\<close>

datatype pg_result = Command_Ok | Tuples_Ok "(string \<times> string) list list" | Pg_Error string

record 'w postgres =
  PQconnectdb :: "string \<Rightarrow> 'w \<Rightarrow> 'w \<times> string option"
  PQexec :: "string \<Rightarrow> 'w \<Rightarrow> 'w \<times> pg_result option"
  PQescapeLiteral :: "string \<Rightarrow> string option"
  PQconsumeInput :: "'w \<Rightarrow> 'w \<times> string option"
  PQnotifies :: "'w \<Rightarrow> 'w \<times> string option"
  pg_sleep :: "nat \<Rightarrow> 'w \<Rightarrow> 'w"

type_synonym row = "string \<rightharpoonup> string"

definition PQerrorMessage :: "pg_result \<Rightarrow> string" where
  "PQerrorMessage r = (case r of Pg_Error m \<Rightarrow> m | _ \<Rightarrow> '''')"

definition lowlevel_exec :: "'w postgres \<Rightarrow> string \<Rightarrow> 'w \<Rightarrow> 'w \<times> (cpp_error + pg_result)" where
  "lowlevel_exec db command w =
     (case PQexec db command w of
        (w', None) \<Rightarrow> (w', Inl (Runtime_Error ''Fatal error: NULL result from PQexec.''))
      | (w', Some res) \<Rightarrow> (w', Inr res))"

definition exec :: "'w postgres \<Rightarrow> string \<Rightarrow> 'w \<Rightarrow> 'w \<times> (cpp_error + unit)" where
  "exec db command w =
     (case lowlevel_exec db command w of
        (w', Inl e) \<Rightarrow> (w', Inl e)
      | (w', Inr res) \<Rightarrow>
        (w', if res \<noteq> Command_Ok then Inl (Runtime_Error (''Error exec()ing postgres command: '' @ PQerrorMessage res)) else Inr ()))"

text \<open>Each row becomes a map; of several fields with the same name the first counts.\<close>

definition query :: "'w postgres \<Rightarrow> string \<Rightarrow> 'w \<Rightarrow> 'w \<times> (cpp_error + row list)" where
  "query db command w =
     (case lowlevel_exec db command w of
        (w', Inl e) \<Rightarrow> (w', Inl e)
      | (w', Inr res) \<Rightarrow>
        (w', (case res of
                Tuples_Ok rows \<Rightarrow> Inr (map map_of rows)
              | _ \<Rightarrow> Inl (Runtime_Error (''Error exec()ing postgres query: '' @ PQerrorMessage res)))))"

definition field :: "row \<Rightarrow> string \<Rightarrow> string" where
  "field row name = (case row name of Some v \<Rightarrow> v | None \<Rightarrow> '''')"

definition escape :: "'w postgres \<Rightarrow> string \<Rightarrow> cpp_error + string" where
  "escape db s = (case PQescapeLiteral db s of None \<Rightarrow> Inl (Runtime_Error ''Failed to escape string.'') | Some e \<Rightarrow> Inr e)"

text \<open>Operations one after the other, and a result that does not touch the world.\<close>

definition pg_bind :: "('w \<Rightarrow> 'w \<times> (cpp_error + 'a)) \<Rightarrow> ('a \<Rightarrow> 'w \<Rightarrow> 'w \<times> (cpp_error + 'b)) \<Rightarrow> 'w \<Rightarrow> 'w \<times> (cpp_error + 'b)" where
  "pg_bind m f w = (case m w of (w', Inl e) \<Rightarrow> (w', Inl e) | (w', Inr a) \<Rightarrow> f a w')"

definition pure :: "cpp_error + 'a \<Rightarrow> 'w \<Rightarrow> 'w \<times> (cpp_error + 'a)" where
  "pure r w = (w, r)"

subsection \<open>Transactions\<close>

text \<open>
  A transaction object around the \<open>steps\<close> of an operation: they are committed if they give something, and \<open>after\<close> runs
  while the object still lives. Its destructor rolls back what was not committed; when that fails while an exception is on its
  way, the process ends.
\<close>

definition rollback :: "'w postgres \<Rightarrow> cpp_error + 'a \<Rightarrow> 'w \<Rightarrow> 'w \<times> (cpp_error + 'a)" where
  "rollback db r w =
     (case exec db ''rollback'' w of
        (w', Inr _) \<Rightarrow> (w', r)
      | (w', Inl e) \<Rightarrow> (w', Inl (case r of Inl _ \<Rightarrow> Terminate | Inr _ \<Rightarrow> e)))"

definition transaction :: "'w postgres \<Rightarrow> ('w \<Rightarrow> 'w \<times> (cpp_error + 'a option)) \<Rightarrow> ('a option \<Rightarrow> 'w \<Rightarrow> 'w \<times> 'b) \<Rightarrow> 'w \<Rightarrow>
    'w \<times> (cpp_error + 'b)" where
  "transaction db steps after w =
     (case exec db ''begin transaction'' w of
        (w0, Inl e) \<Rightarrow> (w0, Inl e)
      | (w0, Inr _) \<Rightarrow>
        (case steps w0 of
           (w1, Inl e) \<Rightarrow> rollback db (Inl e) w1
         | (w1, Inr None) \<Rightarrow> (case after None w1 of (w2, b) \<Rightarrow> rollback db (Inr b) w2)
         | (w1, Inr (Some a)) \<Rightarrow>
           (case exec db ''commit'' w1 of
              (w2, Inl e) \<Rightarrow> rollback db (Inl e) w2
            | (w2, Inr _) \<Rightarrow> (case after (Some a) w2 of (w3, b) \<Rightarrow> (w3, Inr b)))))"

subsection \<open>Names of channels\<close>

definition safe_identifier :: "string \<Rightarrow> string" where
  "safe_identifier s = filter is_alnum s"

definition int64 :: "int \<Rightarrow> bool" where
  "int64 n \<longleftrightarrow> - (2 ^ 63) \<le> n \<and> n < 2 ^ 63"

definition lexical_cast_int64 :: "string \<Rightarrow> cpp_error + int" where
  "lexical_cast_int64 s =
     (let (neg, u) = (case s of c # r \<Rightarrow> if c = CHR ''-'' then (True, r) else if c = CHR ''+'' then (False, r) else (False, s)
                      | [] \<Rightarrow> (False, s));
          v = (if neg then - int (undec u) else int (undec u))
      in if u = [] \<or> \<not> (\<forall>c \<in> set u. is_digit c) \<or> \<not> int64 v then Inl Bad_Lexical_Cast else Inr v)"

definition parse_gid_and_style :: "string \<Rightarrow> cpp_error + (int \<times> string)" where
  "parse_gid_and_style s =
     (case dropWhile (\<lambda>c. c \<noteq> CHR ''_'') s of
        [] \<Rightarrow> Inl (Runtime_Error (''Cannot parse GID & style from `'' @ s @ [CHR 0x27] @ ''.''))
      | _ # r \<Rightarrow>
        (case dropWhile (\<lambda>c. c \<noteq> CHR ''_'') r of
           [] \<Rightarrow> Inl (Runtime_Error (''Cannot parse GID & style from `'' @ s @ [CHR 0x27] @ ''.''))
         | _ # sty \<Rightarrow>
           (case lexical_cast_int64 (takeWhile (\<lambda>c. c \<noteq> CHR ''_'') r) of Inl e \<Rightarrow> Inl e | Inr gid \<Rightarrow> Inr (gid, sty))))"

definition channel :: "int \<Rightarrow> string \<Rightarrow> string" where
  "channel gid sty = ''client_'' @ dec_int gid @ ''_'' @ safe_identifier sty"

subsection \<open>The queue\<close>

definition pgq_backend :: "'w postgres \<Rightarrow> string \<Rightarrow> 'w \<Rightarrow> 'w \<times> (cpp_error + unit)" where
  "pgq_backend db conninfo w =
     (case PQconnectdb db conninfo w of
        (w', Some m) \<Rightarrow> (w', Inl (Runtime_Error (''Cannot connect to PGQ broker: '' @ m)))
      | (w', None) \<Rightarrow> exec db ''set transaction isolation level serializable'' w')"

text \<open>The number of a job is computed in 64 bits; shifting negative values or beyond the sign is undefined.\<close>

definition job_gid :: "tile_protocol \<Rightarrow> cpp_error + int" where
  "job_gid job =
     (if tp_z job < 0 \<or> 2 ^ 23 \<le> tp_z job \<or> tp_x job < 0 then Inl Undefined_Behaviour
      else Inr (push_bit 40 (tp_z job) OR push_bit 20 (tp_x job) OR tp_y job))"

text \<open>The list of values in both insert statements, from the client to the style.\<close>

definition insert_values :: "tile_protocol \<Rightarrow> string \<Rightarrow> string" where
  "insert_values job escaped_style =
     dec_int (tp_id job) @ '', '' @ dec_int (tp_x job) @ '', '' @ dec_int (tp_y job) @ '', '' @ dec_int (tp_z job) @ '', 1, '' @
     dec_int (cmd_to_int (status job)) @ '', E'' @ [CHR 0x27] @ escaped_style @ [CHR 0x27]"

definition insert_task :: "'w postgres \<Rightarrow> tile_protocol \<Rightarrow> int \<Rightarrow> string \<Rightarrow> 'w \<Rightarrow> 'w \<times> (cpp_error + int)" where
  "insert_task db job gid escaped_style w =
     (case exec db (''insert into tasks (gid, clientid, x, y, z, priority, status, style) values ('' @ dec_int gid @ '', '' @
         insert_values job escaped_style @ '')'') w of
        (w', Inr _) \<Rightarrow> (w', Inr gid)
      | (w', Inl _) \<Rightarrow>
        pg_bind (query db (''insert into tasks (clientid, x, y, z, priority, status, style) values ('' @ insert_values job escaped_style @ '') returning gid''))
          (\<lambda>res. pure (case res of [] \<Rightarrow> Inl Undefined_Behaviour | row # _ \<Rightarrow> lexical_cast_int64 (field row ''gid''))) w')"

definition pgq_send :: "'w postgres \<Rightarrow> tile_protocol \<Rightarrow> 'w \<Rightarrow> 'w \<times> (cpp_error + unit)" where
  "pgq_send db job =
     transaction db
       (pg_bind (pure (job_gid job)) (\<lambda>gid. pg_bind (pure (escape db (style job))) (\<lambda>escaped_style.
        pg_bind (insert_task db job gid escaped_style) (\<lambda>gid.
        pg_bind (exec db (''listen '' @ channel gid (style job))) (\<lambda>_. pure (Inr (Some ())))))))
       (\<lambda>_ w. (w, ()))"

text \<open>The fields of a row as a job.\<close>

definition row_job :: "row \<Rightarrow> int \<Rightarrow> cpp_error + tile_protocol" where
  "row_job row n =
     (case lexical_cast_int (field row ''status'') of Inl e \<Rightarrow> Inl e | Inr st \<Rightarrow>
     (case lexical_cast_int (field row ''x'') of Inl e \<Rightarrow> Inl e | Inr x \<Rightarrow>
     (case lexical_cast_int (field row ''y'') of Inl e \<Rightarrow> Inl e | Inr y \<Rightarrow>
     (case lexical_cast_int (field row ''z'') of Inl e \<Rightarrow> Inl e | Inr z \<Rightarrow>
        Inr (default_tile\<lparr>status := cmd_of_int st, tp_x := x, tp_y := y, tp_z := z, tp_id := n, style := field row ''style''\<rparr>)))))"

definition get_job_steps :: "'w postgres \<Rightarrow> 'w \<Rightarrow> 'w \<times> (cpp_error + tile_protocol option)" where
  "get_job_steps db =
     pg_bind (query db (''select * from tasks where (scheduled is null or extract( epoch from (now() - scheduled ) )  > 30) '' @
       ''and completed is null order by priority desc limit 1 for update''))
     (\<lambda>res. case res of
        [row] \<Rightarrow>
          pg_bind (pure (lexical_cast_int64 (field row ''gid''))) (\<lambda>gid.
          pg_bind (pure (escape db (field row ''style''))) (\<lambda>escaped_style.
          pg_bind (exec db (''update tasks set scheduled = now() where gid = '' @ dec_int gid @ '' and style = '' @ escaped_style)) (\<lambda>_.
          pg_bind (pure (row_job row gid)) (\<lambda>job. pure (Inr (Some job))))))
      | _ \<Rightarrow> pure (Inr None))"

text \<open>\<^verbatim>\<open>get_job\<close> waits for a job, asking again after a sleep.\<close>

partial_function (option) pgq_get_job :: "'w postgres \<Rightarrow> 'w \<Rightarrow> ('w \<times> (cpp_error + tile_protocol)) option" where
  "pgq_get_job db w =
     (case transaction db (get_job_steps db) (\<lambda>job w. (if job = None then pg_sleep db 2 w else w, job)) w of
        (w', Inl e) \<Rightarrow> Some (w', Inl e)
      | (w', Inr (Some job)) \<Rightarrow> Some (w', Inr job)
      | (w', Inr None) \<Rightarrow> pgq_get_job db w')"

definition pgq_notify :: "'w postgres \<Rightarrow> tile_protocol \<Rightarrow> 'w \<Rightarrow> 'w \<times> (cpp_error + unit)" where
  "pgq_notify db job =
     transaction db
       (pg_bind (pure (escape db (style job))) (\<lambda>escaped_style.
        pg_bind (exec db (''update tasks set completed = now(), status = '' @ dec_int (cmd_to_int (status job)) @ '' where gid = '' @
          dec_int (tp_id job) @ '' and style = '' @ escaped_style)) (\<lambda>_.
        pg_bind (exec db (''notify '' @ channel (tp_id job) (style job))) (\<lambda>_. pure (Inr (Some ()))))))
       (\<lambda>_ w. (w, ()))"

text \<open>One notification: the finished job of its channel, which is taken out of the table.\<close>

definition read_one_result :: "'w postgres \<Rightarrow> string \<Rightarrow> 'w \<Rightarrow> 'w \<times> (cpp_error + tile_protocol option)" where
  "read_one_result db relname =
     pg_bind (pure (parse_gid_and_style relname)) (\<lambda>(gid, sty).
     pg_bind (pure (escape db sty)) (\<lambda>escaped_style.
     pg_bind (query db (''select * from tasks where gid = '' @ dec_int gid @ '' and style = '' @ escaped_style)) (\<lambda>res.
       case res of
         [] \<Rightarrow> pure (Inr None)
       | row # _ \<Rightarrow>
         pg_bind (pure (row_job row 0)) (\<lambda>job0.
         pg_bind (pure (lexical_cast_int (field row ''clientid''))) (\<lambda>n.
         pg_bind (pure (escape db (style job0))) (\<lambda>escaped.
         pg_bind (exec db (''delete from tasks where gid = '' @ dec_int gid @ '' and style = '' @ escaped)) (\<lambda>_.
         pg_bind (exec db (''unlisten '' @ channel gid (style job0))) (\<lambda>_. pure (Inr (Some (job0\<lparr>tp_id := n\<rparr>)))))))))))"

text \<open>All notifications; the next one is looked up before the transaction object goes away.\<close>

partial_function (option) drain :: "'w postgres \<Rightarrow> string option \<Rightarrow> tile_protocol list \<Rightarrow> 'w \<Rightarrow> ('w \<times> (cpp_error + tile_protocol list)) option" where
  "drain db n jobs w =
     (case n of
        None \<Rightarrow> Some (w, Inr jobs)
      | Some relname \<Rightarrow>
        (case transaction db (read_one_result db relname) (\<lambda>job w. case PQnotifies db w of (w', n') \<Rightarrow> (w', job, n')) w of
           (w', Inl e) \<Rightarrow> Some (w', Inl e)
         | (w', Inr (job, n')) \<Rightarrow> drain db n' (jobs @ (case job of Some j \<Rightarrow> [j] | None \<Rightarrow> [])) w'))"

definition pgq_handle_pollitems :: "'w postgres \<Rightarrow> bool \<Rightarrow> 'w \<Rightarrow> ('w \<times> (cpp_error + (bool \<times> tile_protocol list))) option" where
  "pgq_handle_pollitems db pollin w =
     (if \<not> pollin then Some (w, Inr (False, []))
      else case PQconsumeInput db w of
        (w', Some m) \<Rightarrow> Some (w', Inl (Runtime_Error (''Error while consuming input from socket: '' @ m)))
      | (w', None) \<Rightarrow>
        (case PQnotifies db w' of
           (w1, n) \<Rightarrow> Option.bind (drain db n [] w1) (\<lambda>p.
             Some (fst p, map_sum id (\<lambda>jobs. (jobs \<noteq> [], jobs)) (snd p)))))"

definition pgq_queue_length :: nat where
  "pgq_queue_length = 0"

end
