(* ===== verification/Pgq_Props.thy ===== *)
theory Pgq_Props
  imports Pgq_Backend
begin

text \<open>
  Properties of the queue in a database: no operation leaves a transaction open unless the rollback fails, the numbers of jobs and the names of
  their channels are unambiguous within limits, and what happens to jobs when a notification cannot be read.
\<close>

subsection \<open>Transactions\<close>

text \<open>
  What PostgreSQL documents of transactions, with \<open>open_tx\<close> telling whether one is open: a commit and a rollback that succeed
  end it, a \<^verbatim>\<open>begin\<close> that fails opens none, and waiting for notifications does not change it. Any statement may fail, the
  rollback too, as when the connection is broken.
\<close>

definition pg_laws :: "'w postgres \<Rightarrow> ('w \<Rightarrow> bool) \<Rightarrow> bool" where
  "pg_laws db open_tx \<longleftrightarrow>
     (\<forall>w w'. PQexec db ''commit'' w = (w', Some Command_Ok) \<longrightarrow> \<not> open_tx w') \<and>
     (\<forall>w w'. PQexec db ''rollback'' w = (w', Some Command_Ok) \<longrightarrow> \<not> open_tx w') \<and>
     (\<forall>w. snd (PQexec db ''begin transaction'' w) \<noteq> Some Command_Ok \<longrightarrow>
        open_tx (fst (PQexec db ''begin transaction'' w)) = open_tx w) \<and>
     (\<forall>w. open_tx (fst (PQnotifies db w)) = open_tx w) \<and> (\<forall>w. open_tx (fst (PQconsumeInput db w)) = open_tx w)"

lemma pg_lawsD:
  assumes "pg_laws db open_tx"
  shows "snd (PQexec db ''begin transaction'' w) \<noteq> Some Command_Ok \<Longrightarrow> open_tx (fst (PQexec db ''begin transaction'' w)) = open_tx w"
    and "open_tx (fst (PQnotifies db w)) = open_tx w" and "open_tx (fst (PQconsumeInput db w)) = open_tx w"
  using assms unfolding pg_laws_def by blast+

lemma exec_ok: "exec db c w = (w', Inr u) \<longleftrightarrow> PQexec db c w = (w', Some Command_Ok)"
  by (auto simp: exec_def lowlevel_exec_def split: prod.splits option.splits if_splits)

lemma exec_failed: "exec db c w = (w', Inl e) \<Longrightarrow> fst (PQexec db c w) = w' \<and> snd (PQexec db c w) \<noteq> Some Command_Ok \<and> e \<noteq> Terminate"
  by (auto simp: exec_def lowlevel_exec_def split: prod.splits option.splits if_splits)

text \<open>
  How an operation leaves the database: no transaction is open, or the last thing done was a rollback that failed, and the
  operation ends with the exception of that, or with the process if another exception was on its way.
\<close>

definition tx_over :: "'w postgres \<Rightarrow> ('w \<Rightarrow> bool) \<Rightarrow> 'w \<times> (cpp_error + 'a) \<Rightarrow> bool" where
  "tx_over db open_tx p \<longleftrightarrow> \<not> open_tx (fst p) \<or>
     (\<exists>v e. exec db ''rollback'' v = (fst p, Inl e) \<and> (snd p = Inl e \<or> snd p = Inl Terminate))"

lemma tx_over_result: "tx_over db open_tx (w, Inr a) \<Longrightarrow> \<not> open_tx w"
  by (simp add: tx_over_def)

lemma tx_over_Inl: "tx_over db open_tx (w, Inl e :: cpp_error + 'a) \<Longrightarrow> tx_over db open_tx (w, Inl e :: cpp_error + 'b)"
  by (simp add: tx_over_def)

lemma rollback_over:
  assumes "pg_laws db open_tx"
  shows "tx_over db open_tx (rollback db r w)"
proof -
  obtain w' q where e: "exec db ''rollback'' w = (w', q)" by (metis prod.exhaust)
  show ?thesis
  proof (cases q)
    case (Inr u)
    then have "\<not> open_tx w'" using e exec_ok [of db "''rollback''" w w' u] assms by (simp add: pg_laws_def)
    then show ?thesis using e Inr by (simp add: rollback_def tx_over_def)
  next
    case (Inl x)
    then show ?thesis using e by (cases r) (auto simp: rollback_def tx_over_def)
  qed
qed

lemma transaction_over:
  assumes "pg_laws db open_tx" "\<not> open_tx w" "\<And>a w. \<not> open_tx w \<Longrightarrow> \<not> open_tx (fst (after (Some a) w))"
  shows "tx_over db open_tx (transaction db steps after w)"
proof (cases "exec db ''begin transaction'' w")
  case (Pair w0 r0)
  show ?thesis
  proof (cases r0)
    case (Inl e)
    then show ?thesis using Pair exec_failed [of db "''begin transaction''" w w0 e] pg_lawsD(1) [OF assms(1), of w] assms(2)
      by (auto simp: transaction_def tx_over_def)
  next
    case (Inr u)
    obtain w1 r1 where s: "steps w0 = (w1, r1)" by (metis prod.exhaust)
    consider (err) e where "r1 = Inl e" | (none) "r1 = Inr None" | (some) a where "r1 = Inr (Some a)" by (metis sum.exhaust option.exhaust)
    then show ?thesis
    proof cases
      case some
      obtain w2 r2 where c: "exec db ''commit'' w1 = (w2, r2)" by (metis prod.exhaust)
      show ?thesis
      proof (cases r2)
        case (Inr v)
        then have "\<not> open_tx w2" using c exec_ok [of db "''commit''" w1 w2 v] assms(1) by (simp add: pg_laws_def)
        then show ?thesis using Pair \<open>r0 = Inr u\<close> s some c Inr assms(3) [of w2 a]
          by (simp add: transaction_def case_prod_beta tx_over_def)
      qed (use Pair Inr s some c in \<open>simp add: transaction_def rollback_over [OF assms(1)]\<close>)
    qed (use Pair Inr s in \<open>simp_all add: transaction_def case_prod_beta rollback_over [OF assms(1)]\<close>)
  qed
qed

lemma get_job_over:
  assumes "pgq_get_job db w = Some r" "pg_laws db open_tx" "\<not> open_tx w"
  shows "tx_over db open_tx r"
proof -
  have "pg_laws db open_tx \<longrightarrow> \<not> open_tx w \<longrightarrow> tx_over db open_tx r"
  proof (rule pgq_get_job.raw_induct [where P = "\<lambda>db w r. pg_laws db open_tx \<longrightarrow> \<not> open_tx w \<longrightarrow> tx_over db open_tx r", OF _ assms(1)], intro impI)
    fix rec and db :: "'a postgres" and w r
    assume rec: "\<And>db w r. rec db w = Some r \<Longrightarrow> pg_laws db open_tx \<longrightarrow> \<not> open_tx w \<longrightarrow> tx_over db open_tx r"
      and eq: "(case transaction db (get_job_steps db) (\<lambda>job w. (if job = None then pg_sleep db 2 w else w, job)) w of
          (w', Inl e) \<Rightarrow> Some (w', Inl e) | (w', Inr None) \<Rightarrow> rec db w' | (w', Inr (Some job)) \<Rightarrow> Some (w', Inr job)) = Some r"
      and l: "pg_laws db open_tx" "\<not> open_tx w"
    obtain w1 x where t: "transaction db (get_job_steps db) (\<lambda>job w. (if job = None then pg_sleep db 2 w else w, job)) w = (w1, x)"
      by (rule that [OF prod.collapse [symmetric]])
    have o: "tx_over db open_tx (w1, x)" unfolding t [symmetric] by (rule transaction_over [OF l]) simp
    show "tx_over db open_tx r"
    proof (cases x)
      case (Inl e)
      then have "r = (w1, Inl e)" using eq t by simp
      then show ?thesis using tx_over_Inl o [unfolded Inl] by simp
    next
      case (Inr j)
      then have "\<not> open_tx w1" using o tx_over_result by metis
      then show ?thesis using eq rec l(1) t Inr by (auto simp: tx_over_def split: option.splits)
    qed
  qed
  then show ?thesis using assms by blast
qed

lemma drain_over:
  assumes "drain db n jobs w = Some r" "pg_laws db open_tx" "\<not> open_tx w"
  shows "tx_over db open_tx r"
proof -
  have "pg_laws db open_tx \<longrightarrow> \<not> open_tx w \<longrightarrow> tx_over db open_tx r"
  proof (rule drain.raw_induct [where P = "\<lambda>db n jobs w r. pg_laws db open_tx \<longrightarrow> \<not> open_tx w \<longrightarrow> tx_over db open_tx r", OF _ assms(1)], intro impI)
    fix rec and db :: "'a postgres" and n jobs w r
    assume rec: "\<And>db n jobs w r. rec db n jobs w = Some r \<Longrightarrow> pg_laws db open_tx \<longrightarrow> \<not> open_tx w \<longrightarrow> tx_over db open_tx r"
      and eq: "(case n of None \<Rightarrow> Some (w, Inr jobs)
         | Some relname \<Rightarrow>
           (case transaction db (read_one_result db relname) (\<lambda>job w. case PQnotifies db w of (w', n') \<Rightarrow> (w', job, n')) w of
              (w', Inl e) \<Rightarrow> Some (w', Inl e)
            | (w', Inr (job, n')) \<Rightarrow> rec db n' (jobs @ (case job of None \<Rightarrow> [] | Some j \<Rightarrow> [j])) w')) = Some r"
      and l: "pg_laws db open_tx" "\<not> open_tx w"
    show "tx_over db open_tx r"
    proof (cases n)
      case None
      then show ?thesis using eq l(2) by (auto simp: tx_over_def)
    next
      case (Some relname)
      obtain w1 x where t: "transaction db (read_one_result db relname) (\<lambda>job w. case PQnotifies db w of (w', n') \<Rightarrow> (w', job, n')) w = (w1, x)"
        by (metis prod.exhaust)
      have o: "tx_over db open_tx (w1, x)"
        unfolding t [symmetric] by (rule transaction_over [OF l]) (use pg_lawsD(2) [OF l(1)] in \<open>simp add: case_prod_beta\<close>)
      show ?thesis
      proof (cases x)
        case (Inl e)
        then have "r = (w1, Inl e)" using eq t Some by simp
        then show ?thesis using tx_over_Inl o [unfolded Inl] by simp
      next
        case (Inr j)
        then have "\<not> open_tx w1" using o tx_over_result by metis
        then show ?thesis using eq rec l(1) t Some Inr by (auto split: prod.splits)
      qed
    qed
  qed
  then show ?thesis using assms by blast
qed

text \<open>
  C38. No operation of the queue leaves a transaction open, whichever statement fails, except for the rollback: an operation that
  returns a result has committed or rolled back, and so has one that ends with an exception, unless its last statement was
  a rollback that failed; then it ends with the error of the rollback, or ends the process.
\<close>

theorem pgq_transactions_closed:
  assumes "pg_laws db open_tx" "\<not> open_tx w"
  shows "tx_over db open_tx (pgq_send db job w) \<and> tx_over db open_tx (pgq_notify db job w) \<and>
    (\<forall>r. pgq_get_job db w = Some r \<longrightarrow> tx_over db open_tx r) \<and>
    (\<forall>r. pgq_handle_pollitems db b w = Some r \<longrightarrow> tx_over db open_tx r) \<and>
    (\<forall>w' u. pgq_send db job w = (w', Inr u) \<or> pgq_notify db job w = (w', Inr u) \<longrightarrow> \<not> open_tx w')"
proof (intro conjI allI impI)
  show s: "tx_over db open_tx (pgq_send db job w)" and n: "tx_over db open_tx (pgq_notify db job w)"
    unfolding pgq_send_def pgq_notify_def by (rule transaction_over [OF assms], simp)+
  show "\<not> open_tx w'" if "pgq_send db job w = (w', Inr u) \<or> pgq_notify db job w = (w', Inr u)" for w' u
    using that s n tx_over_result by metis
  show "tx_over db open_tx r" if "pgq_get_job db w = Some r" for r
    using get_job_over [OF that assms] .
  have k: "\<not> open_tx (fst (PQnotifies db u))" "\<not> open_tx (fst (PQconsumeInput db u))" if "\<not> open_tx u" for u
    using that pg_lawsD(2,3) [OF assms(1)] by simp_all
  show "tx_over db open_tx r" if h: "pgq_handle_pollitems db b w = Some r" for r
  proof (cases "b \<and> snd (PQconsumeInput db w) = None")
    case True
    let ?u = "PQnotifies db (fst (PQconsumeInput db w))"
    have c: "\<not> open_tx (fst ?u)" using k assms(2) by blast
    from True h obtain w1 x where d: "drain db (snd ?u) [] (fst ?u) = Some (w1, x)"
        "fst r = w1" "\<forall>e. x = Inl e \<longrightarrow> snd r = Inl e"
      by (auto simp: pgq_handle_pollitems_def Option.bind_eq_Some_conv case_prod_beta split: option.splits sum.splits)
    from drain_over [OF d(1) assms(1) c] show ?thesis using d(2,3) by (cases x) (auto simp: tx_over_def)
  next
    case False
    then show ?thesis using h k(2) [OF assms(2)] assms(2)
      by (auto simp: pgq_handle_pollitems_def case_prod_beta tx_over_def split: if_splits option.splits)
  qed
qed

text \<open>
  A database that is up, out of space or cut off, and knows whether a transaction is open. Out of space only a rollback still
  succeeds after the beginning of a transaction; cut off not even that.
\<close>

datatype ex_health = Up | Out_Of_Space | Cut_Off

definition ex_pg :: "ex_health \<Rightarrow> bool postgres" where
  "ex_pg health = \<lparr>PQconnectdb = (\<lambda>c w. (w, None)),
     PQexec = (\<lambda>c w. if c = ''begin transaction'' then (True, Some Command_Ok)
       else if c = ''rollback'' then (if health = Cut_Off then (w, None) else (False, Some Command_Ok))
       else if health \<noteq> Up then (w, Some (Pg_Error ''failed''))
       else if c = ''commit'' then (False, Some Command_Ok)
       else (w, Some Command_Ok)),
     PQescapeLiteral = (\<lambda>s. Some (CHR 0x27 # s @ [CHR 0x27])), PQconsumeInput = (\<lambda>w. (w, None)), PQnotifies = (\<lambda>w. (w, None)),
     pg_sleep = (\<lambda>n w. w)\<rparr>"

lemma ex_pg_laws: "pg_laws (ex_pg health) (\<lambda>w. w)"
  by (auto simp: pg_laws_def ex_pg_def split: if_splits)

theorem pgq_transactions_closed_witness:
  "tx_over (ex_pg Out_Of_Space) (\<lambda>w. w) (pgq_send (ex_pg Out_Of_Space) default_tile False) \<and>
   pgq_send (ex_pg Cut_Off) default_tile False = (True, Inl Terminate) \<and>
   (\<exists>w'. pgq_notify (ex_pg Up) default_tile False = (w', Inr ()) \<and> \<not> w') \<and>
   (\<exists>w' e. pgq_get_job (ex_pg Out_Of_Space) False = Some (w', Inl e) \<and> tx_over (ex_pg Out_Of_Space) (\<lambda>w. w) (w', Inl e :: cpp_error + tile_protocol)) \<and>
   (\<exists>w'. pgq_handle_pollitems (ex_pg Up) True False = Some (w', Inr (False, [])) \<and> \<not> w')"
proof (intro conjI)
  note t = pgq_transactions_closed [OF ex_pg_laws, of False _ default_tile True]
  show "tx_over (ex_pg Out_Of_Space) (\<lambda>w. w) (pgq_send (ex_pg Out_Of_Space) default_tile False)" using t by blast
  show "pgq_send (ex_pg Cut_Off) default_tile False = (True, Inl Terminate)"
    by (simp add: pgq_send_def transaction_def insert_task_def query_def exec_def lowlevel_exec_def pg_bind_def pure_def rollback_def ex_pg_def
        job_gid_def escape_def default_tile_def)
  have "\<exists>w'. pgq_notify (ex_pg Up) default_tile False = (w', Inr ())"
    by (simp add: pgq_notify_def transaction_def exec_def lowlevel_exec_def pg_bind_def pure_def ex_pg_def escape_def, blast)
  then show "\<exists>w'. pgq_notify (ex_pg Up) default_tile False = (w', Inr ()) \<and> \<not> w'" using t [of Up] by blast
  have "\<exists>w' e. pgq_get_job (ex_pg Out_Of_Space) False = Some (w', Inl e)"
    by (subst pgq_get_job.simps) (simp add: transaction_def get_job_steps_def query_def exec_def lowlevel_exec_def pg_bind_def pure_def rollback_def ex_pg_def, blast)
  then show "\<exists>w' e. pgq_get_job (ex_pg Out_Of_Space) False = Some (w', Inl e) \<and>
      tx_over (ex_pg Out_Of_Space) (\<lambda>w. w) (w', Inl e :: cpp_error + tile_protocol)"
    using t [of Out_Of_Space] by blast
  have "\<exists>w'. pgq_handle_pollitems (ex_pg Up) True False = Some (w', Inr (False, []))"
    by (simp add: pgq_handle_pollitems_def drain.simps ex_pg_def, blast)
  then obtain w' where h: "pgq_handle_pollitems (ex_pg Up) True False = Some (w', Inr (False, []))" by blast
  then have "tx_over (ex_pg Up) (\<lambda>w. w) (w', Inr (False, [] :: tile_protocol list) :: cpp_error + bool \<times> tile_protocol list)" using t [of Up] by blast
  then have "\<not> w'" by (rule tx_over_result)
  with h show "\<exists>w'. pgq_handle_pollitems (ex_pg Up) True False = Some (w', Inr (False, [])) \<and> \<not> w'" by blast
qed

subsection \<open>Numbers and channels\<close>

lemma takeWhile_to: "c \<notin> set a \<Longrightarrow> takeWhile (\<lambda>d. d \<noteq> c) (a @ c # s) = a \<and> dropWhile (\<lambda>d. d \<noteq> c) (a @ c # s) = c # s"
  by (induction a) auto

lemma lexical_cast_dec: "int64 n \<Longrightarrow> lexical_cast_int64 (dec_int n) = Inr n"
proof (cases "n < 0")
  case True
  then show ?thesis if "int64 n"
    using that is_digit_dec_nat [of "nat (- n)"] by (simp add: lexical_cast_int64_def dec_int_def undec_dec_nat Let_def)
next
  case False
  obtain c r where c: "dec_nat (nat n) = c # r" by (cases "dec_nat (nat n)") auto
  then have "is_digit c" using is_digit_dec_nat [of "nat n"] by simp
  then have "c \<noteq> CHR ''-''" "c \<noteq> CHR ''+''" by (auto simp: is_digit_def)
  moreover have "undec (c # r) = nat n" using undec_dec_nat [of "nat n"] c by simp
  ultimately show ?thesis if "int64 n"
    using that False is_digit_dec_nat [of "nat n"] by (simp add: lexical_cast_int64_def dec_int_def c Let_def)
qed

lemma dec_int_no_underscore: "CHR ''_'' \<notin> set (dec_int n)"
proof -
  have "\<not> is_digit (CHR ''_'')" by (simp add: is_digit_def)
  then show ?thesis using is_digit_dec_nat by (auto simp: dec_int_def)
qed

lemma parse_channel: "int64 gid \<Longrightarrow> parse_gid_and_style (channel gid sty) = Inr (gid, safe_identifier sty)"
proof -
  assume g: "int64 gid"
  have "CHR ''_'' \<notin> set ''client''" by simp
  note a = takeWhile_to [OF this, of "dec_int gid @ CHR ''_'' # safe_identifier sty"]
    and b = takeWhile_to [OF dec_int_no_underscore [of gid], of "safe_identifier sty"]
  have "channel gid sty = ''client'' @ CHR ''_'' # dec_int gid @ CHR ''_'' # safe_identifier sty" by (simp add: channel_def)
  then show ?thesis using a b by (simp only: parse_gid_and_style_def) (simp add: lexical_cast_dec [OF g])
qed

text \<open>
  The name of a channel tells which job was finished: parsing it gives back the number of the job, for every number of 64 bits, and
  its style with all characters taken out that are not letters or digits. So two jobs share a channel exactly if they have the same
  number and their styles differ in such characters at most, and the style that is looked up in the table is the one of
  the job exactly if it has no such characters.
\<close>

theorem channel_roundtrip:
  assumes "int64 gid" "int64 gid'"
  shows "parse_gid_and_style (channel gid sty) = Inr (gid, safe_identifier sty) \<and>
    (channel gid sty = channel gid' sty' \<longleftrightarrow> gid = gid' \<and> safe_identifier sty = safe_identifier sty') \<and>
    (safe_identifier sty = sty \<longleftrightarrow> (\<forall>c \<in> set sty. is_alnum c))"
proof (intro conjI)
  show p: "parse_gid_and_style (channel gid sty) = Inr (gid, safe_identifier sty)" by (rule parse_channel [OF assms(1)])
  show "channel gid sty = channel gid' sty' \<longleftrightarrow> gid = gid' \<and> safe_identifier sty = safe_identifier sty'"
    using p parse_channel [OF assms(2), of sty'] by (metis channel_def prod.inject sum.inject(2))
  show "safe_identifier sty = sty \<longleftrightarrow> (\<forall>c \<in> set sty. is_alnum c)"
    by (simp add: safe_identifier_def filter_id_conv)
qed

theorem channel_roundtrip_witness:
  "parse_gid_and_style (channel 3298534883330 ''osm-night'') = Inr (3298534883330, ''osmnight'')"
proof -
  have "int64 3298534883330" by (simp add: int64_def)
  from channel_roundtrip [OF this this, of "''osm-night''"] show ?thesis
    by (simp add: safe_identifier_def is_alnum_def is_alpha_def is_digit_def)
qed

lemma gid_parts:
  fixes x y z :: int
  assumes "0 \<le> x" "x < 2 ^ 20" "0 \<le> y" "y < 2 ^ 20"
  defines "g \<equiv> push_bit 40 z OR push_bit 20 x OR y"
  shows "take_bit 20 g = y" "take_bit 20 (drop_bit 20 g) = x" "drop_bit 40 g = z"
proof -
  have y: "take_bit 20 y = y" "drop_bit 20 y = 0" "drop_bit 40 y = 0"
    using assms(3,4) by (simp_all add: take_bit_int_eq_self drop_bit_eq_div)
  have x: "take_bit 20 x = x" "drop_bit 20 x = 0" using assms(1,2) by (simp_all add: take_bit_int_eq_self drop_bit_eq_div)
  have d: "drop_bit 20 (push_bit 40 z) = push_bit 20 z" "drop_bit 40 (push_bit 20 x) = drop_bit 20 x"
      "drop_bit 40 (push_bit 40 z) = z"
    by (simp_all add: drop_bit_eq_div push_bit_eq_mult)
  show "take_bit 20 g = y" by (simp add: g_def take_bit_or take_bit_push_bit y)
  show "take_bit 20 (drop_bit 20 g) = x" by (simp add: g_def drop_bit_or take_bit_or take_bit_push_bit d x y drop_bit_push_bit)
  show "drop_bit 40 g = z" by (simp add: g_def drop_bit_or d x y)
qed

lemma int64_drop:
  fixes g :: int
  assumes "0 \<le> g" "drop_bit 40 g < 2 ^ 23"
  shows "int64 g"
proof -
  have "g div 2 ^ 40 < 2 ^ 23" using assms(2) by (simp add: drop_bit_eq_div)
  then have "g < 2 ^ 40 * 2 ^ 23" using assms(1) by simp
  then show ?thesis using assms(1) by (simp add: int64_def)
qed

text \<open>
  C39. Jobs have different numbers if they are for different tiles, as long as both coordinates are below \<open>2\<^sup>2\<^sup>0\<close>, which
  holds up to zoom level 20; the number fits into 64 bits. Beyond that they clash: the tiles \<open>2\<^sup>2\<^sup>0/0\<close> and
  \<open>0/0\<close> of the odd zoom level 21 have the same number.
\<close>

theorem gid_unique:
  assumes "0 \<le> tp_z a" "tp_z a < 2 ^ 23" "0 \<le> tp_x a" "tp_x a < 2 ^ 20" "0 \<le> tp_y a" "tp_y a < 2 ^ 20"
    and "0 \<le> tp_z b" "tp_z b < 2 ^ 23" "0 \<le> tp_x b" "tp_x b < 2 ^ 20" "0 \<le> tp_y b" "tp_y b < 2 ^ 20"
  shows "(job_gid a = job_gid b \<longleftrightarrow> tp_z a = tp_z b \<and> tp_x a = tp_x b \<and> tp_y a = tp_y b) \<and>
    (\<exists>g. job_gid a = Inr g \<and> int64 g) \<and>
    job_gid (a\<lparr>tp_z := 21, tp_x := 2 ^ 20\<rparr>) = job_gid (a\<lparr>tp_z := 21, tp_x := 0\<rparr>)"
proof -
  let ?g = "\<lambda>t. push_bit 40 (tp_z t) OR push_bit 20 (tp_x t) OR tp_y t"
  have g: "job_gid a = Inr (?g a)" "job_gid b = Inr (?g b)" using assms by (auto simp: job_gid_def)
  have "?g a = ?g b \<longleftrightarrow> tp_z a = tp_z b \<and> tp_x a = tp_x b \<and> tp_y a = tp_y b"
    using gid_parts [OF assms(3-6), of "tp_z a"] gid_parts [OF assms(9-12), of "tp_z b"] by metis
  moreover have "int64 (?g a)" using assms(1-3,5) gid_parts(3) [OF assms(3-6), of "tp_z a"] by (intro int64_drop) simp_all
  moreover have "23089744183296 OR (1099511627776 OR y) = 23089744183296 OR y" for y :: int
  proof -
    have "23089744183296 OR 1099511627776 = (23089744183296 :: int)" by code_simp
    then show ?thesis by (metis or.assoc)
  qed
  ultimately show ?thesis using g by (simp add: job_gid_def)
qed

theorem gid_unique_witness:
  "job_gid (default_tile\<lparr>tp_z := 3, tp_x := 2, tp_y := 1\<rparr>) \<noteq> job_gid (default_tile\<lparr>tp_z := 3, tp_x := 1, tp_y := 2\<rparr>)"
  using gid_unique [of "default_tile\<lparr>tp_z := 3, tp_x := 2, tp_y := 1\<rparr>" "default_tile\<lparr>tp_z := 3, tp_x := 1, tp_y := 2\<rparr>"]
  by (simp add: default_tile_def)

subsection \<open>Failures\<close>

text \<open>
  The second insert of \<^verbatim>\<open>send\<close> is made for the case that the number is taken. It cannot succeed: in PostgreSQL every statement
  after a failed one in the same transaction fails, up to the rollback.
\<close>

lemma send_conflict_fails:
  assumes aborted: "\<forall>w c. failed w \<and> c \<noteq> ''rollback'' \<longrightarrow> (\<exists>m. snd (PQexec db c w) = Some (Pg_Error m))"
    and db: "PQexec db ''begin transaction'' w = (w1, Some Command_Ok)"
    and job: "job_gid job = Inr gid" "PQescapeLiteral db (style job) = Some esc"
    and conflict: "PQexec db (''insert into tasks (gid, clientid, x, y, z, priority, status, style) values ('' @ dec_int gid @ '', '' @
      insert_values job esc @ '')'') w1 = (w2, Some (Pg_Error m))" "failed w2"
  shows "\<exists>w' e. pgq_send db job w = (w', Inl e)"
proof -
  let ?q = "''insert into tasks (clientid, x, y, z, priority, status, style) values ('' @ insert_values job esc @ '') returning gid''"
  obtain m' where "snd (PQexec db ?q w2) = Some (Pg_Error m')" using aborted conflict(2) by fastforce
  then obtain w3 where q: "PQexec db ?q w2 = (w3, Some (Pg_Error m'))" by (metis prod.collapse)
  have "exec db ''begin transaction'' w = (w1, Inr ())" using db by (simp add: exec_ok)
  moreover have "insert_task db job gid esc w1 = (w3, Inl (Runtime_Error (''Error exec()ing postgres query: '' @ m')))"
    using conflict(1) q by (simp add: insert_task_def exec_def query_def lowlevel_exec_def pg_bind_def PQerrorMessage_def)
  moreover have "\<exists>w' e. rollback db (Inl x :: cpp_error + unit) w3 = (w', Inl e)" for x
    by (auto simp: rollback_def split: prod.splits sum.splits)
  ultimately show ?thesis
    using job by (simp add: pgq_send_def transaction_def pg_bind_def pure_def escape_def)
qed

text \<open>When a notification cannot be handled, the finished jobs read before it are lost, though they are gone from the table.\<close>

lemma failed_notification_loses_jobs:
  assumes "transaction db (read_one_result db rel1) (\<lambda>job w. case PQnotifies db w of (w', n') \<Rightarrow> (w', job, n')) w = (w1, Inr (Some job, Some rel2))"
    and "transaction db (read_one_result db rel2) (\<lambda>job w. case PQnotifies db w of (w', n') \<Rightarrow> (w', job, n')) w1 = (w2, Inl e)"
  shows "drain db (Some rel1) jobs w = Some (w2, Inl e)"
  by (subst drain.simps, simp add: assms(1), subst drain.simps, simp add: assms(2))

end
