(* ===== verification/Entry_Points.thy ===== *)
theory Entry_Points
  imports Distributed_Queue Storage_Config Expiry Broker
begin

text \<open>
  How the processes start (\<^verbatim>\<open>tile_handler_main.cpp\<close>, \<^verbatim>\<open>tile_broker.cpp\<close>, \<^verbatim>\<open>storage/expiry_server_main.cpp\<close>, \<^verbatim>\<open>zmq_utils.cpp\<close>),
  and the tool that sends commands to the brokers and watches their queues (\<^verbatim>\<open>broker_ctl.cpp\<close>). The parsers of the
  command line and of INI files are Boost's; the left side of the inner sum is the code with which a process exits.
\<close>

subsection \<open>The version of 0MQ\<close>

definition zmq_check_version_ok :: "int \<times> int \<times> int \<Rightarrow> int \<times> int \<times> int \<Rightarrow> int option" where
  "zmq_check_version_ok compiled loaded = (if loaded = compiled then None else Some 1)"

subsection \<open>The tile handler\<close>

text \<open>The sections that are tried for an instance: its name, the short and the full name of the host before it.\<close>

definition host_sections :: "string option \<Rightarrow> string \<Rightarrow> int + string list" where
  "host_sections gethostname inst =
     (case gethostname of
        None \<Rightarrow> Inl 1
      | Some name \<Rightarrow>
        (let hostname = map (\<lambda>c. if c = CHR ''-'' then CHR ''_'' else c) name;
             short_hostname = takeWhile (\<lambda>c. c \<noteq> CHR ''.'') hostname
         in Inr [inst, short_hostname @ ''_'' @ inst, hostname @ ''_'' @ inst]))"

fun first_section :: "conf_tree \<Rightarrow> string list \<Rightarrow> conf_tree option" where
  "first_section conf [] = None"
| "first_section conf (section # sections) =
     (case get_child conf section of Some host_config \<Rightarrow> Some host_config | None \<Rightarrow> first_section conf sections)"

definition handler_uuid :: "conf_tree \<Rightarrow> string option \<Rightarrow> string option \<Rightarrow> string option \<Rightarrow> int + string" where
  "handler_uuid conf gethostname opt_uuid opt_instance =
     (case opt_uuid of
        Some uuid \<Rightarrow> Inr uuid
      | None \<Rightarrow>
        (case opt_instance of
           None \<Rightarrow> Inl 1
         | Some inst \<Rightarrow>
           (case host_sections gethostname inst of
              Inl code \<Rightarrow> Inl code
            | Inr sections \<Rightarrow>
              (case first_section conf sections of
                 None \<Rightarrow> Inl 1
               | Some host_config \<Rightarrow>
                 (case get_text host_config ''uuid'' of None \<Rightarrow> Inl 1 | Some uuid \<Rightarrow> Inr uuid)))))"

text \<open>
  The options are kept by name. The file for the logging is looked up under another name than the one that was tested; an
  option that is not there has no value to convert, and the exception leaves \<^verbatim>\<open>main\<close>. \<open>setup\<close> says whether the
  logging can be set up from a file.
\<close>

definition load_logging :: "(string \<Rightarrow> bool) \<Rightarrow> (string \<rightharpoonup> string) \<Rightarrow> cpp_error + int option" where
  "load_logging setup vm =
     (if vm ''logging-config'' = None then Inr None
      else case vm ''logging_config'' of
        None \<Rightarrow> Inl Terminate
      | Some logging_conf_file \<Rightarrow> Inr (if setup logging_conf_file then None else Some 1))"

text \<open>The settings, with Boost's conversions to numbers and booleans; what is missing or cannot be converted has its default.\<close>

definition conf_get :: "(string \<Rightarrow> 'a option) \<Rightarrow> conf_tree \<Rightarrow> string \<Rightarrow> 'a \<Rightarrow> 'a" where
  "conf_get read conf key dflt = (case Option.bind (get_text conf key) read of Some v \<Rightarrow> v | None \<Rightarrow> dflt)"

record handler_settings =
  hs_in_endpoint :: string
  hs_out_endpoint :: string
  hs_max_age :: int
  hs_stale :: nat
  hs_satisfy :: nat
  hs_max :: nat
  hs_stale_render_background :: bool
  hs_max_io_concurrency :: nat

definition handler_settings_of :: "(string \<Rightarrow> int option) \<Rightarrow> (string \<Rightarrow> nat option) \<Rightarrow> (string \<Rightarrow> bool option) \<Rightarrow> conf_tree \<Rightarrow> handler_settings" where
  "handler_settings_of read_int read_nat read_bool conf =
     \<lparr>hs_in_endpoint = conf_get Some conf ''mongrel2.in_endpoint'' ''ipc:///tmp/mongrel_send'',
      hs_out_endpoint = conf_get Some conf ''mongrel2.out_endpoint'' ''ipc:///tmp/mongrel_recv'',
      hs_max_age = conf_get read_int conf ''mongrel2.max_age'' (60 * 60 * 24),
      hs_stale = conf_get read_nat conf ''mongrel2.queue_threshold_stale'' 100,
      hs_satisfy = conf_get read_nat conf ''mongrel2.queue_threshold_satisfy'' 500,
      hs_max = conf_get read_nat conf ''mongrel2.queue_threshold_max'' 1000,
      hs_stale_render_background = conf_get read_bool conf ''mongrel2.stale_render_background'' False,
      hs_max_io_concurrency = conf_get read_nat conf ''mongrel2.max_io_concurrency'' 64\<rparr>"

subsection \<open>The broker\<close>

text \<open>
  Without a name or a configuration the usage is printed, and the start goes on. The name that is used is not the option
  but the second argument. \<open>read_ini\<close> reads the configuration; its name is empty if there is none.
\<close>

definition tile_broker_main :: "(string \<Rightarrow> 'c option) \<Rightarrow> int option \<Rightarrow> (string \<Rightarrow> bool) \<Rightarrow> string list \<Rightarrow> (string \<rightharpoonup> string) option \<Rightarrow>
    cpp_error + (int + 'c \<times> string)" where
  "tile_broker_main read_ini version setup argv parsed =
     (case parsed of
        None \<Rightarrow> Inr (Inl 1)
      | Some vm \<Rightarrow>
        if vm ''help'' \<noteq> None then Inr (Inl 0)
        else case read_ini (case vm ''queue-config'' of Some f \<Rightarrow> f | None \<Rightarrow> '''') of
          None \<Rightarrow> Inr (Inl 1)
        | Some config \<Rightarrow>
          (case version of Some code \<Rightarrow> Inr (Inl code) | None \<Rightarrow>
          (case load_logging setup vm of
             Inl e \<Rightarrow> Inl e
           | Inr (Some code) \<Rightarrow> Inr (Inl code)
           | Inr None \<Rightarrow> if length argv > 2 then Inr (Inr (config, argv ! 2)) else Inl Undefined_Behaviour)))"

text \<open>The constructor of the broker: its addresses, and its identities, which are made up when the configuration has none.\<close>

record broker_sockets =
  bs_conf :: broker_conf
  bs_frontend_identity :: string
  bs_backend_identity :: string
  bs_internal_monitor :: string

definition mk_broker_impl :: "(string \<Rightarrow> string option) \<Rightarrow> ptree \<Rightarrow> string \<Rightarrow> string \<times> string \<Rightarrow> cpp_error + broker_sockets" where
  "mk_broker_impl resolve config broker_name uuids =
     (case mk_conf_common resolve config of
        Inl e \<Rightarrow> Inl e
      | Inr brokers \<Rightarrow>
        (case map_of brokers broker_name of
           None \<Rightarrow> Inl (Runtime_Error (''Broker name `'' @ broker_name @ [CHR 0x27] @ '' isn'' @ [CHR 0x27] @ ''t present in config file.''))
         | Some self \<Rightarrow>
           Inr \<lparr>bs_conf = self,
                bs_frontend_identity = (case in_identity self of Some i \<Rightarrow> i | None \<Rightarrow> fst uuids),
                bs_backend_identity = (case out_identity self of Some i \<Rightarrow> i | None \<Rightarrow> snd uuids),
                bs_internal_monitor = ''inproc://monitor-'' @ broker_name\<rparr>))"

subsection \<open>The expiry server\<close>

definition expiry_server_main :: "(string \<Rightarrow> 'c option) \<Rightarrow> (string \<rightharpoonup> string) option \<Rightarrow> int + state_t \<times> 'c" where
  "expiry_server_main read_ini parsed =
     (case parsed of
        None \<Rightarrow> Inl 1
      | Some vm \<Rightarrow>
        if vm ''help'' \<noteq> None then Inl 0
        else case read_ini (case vm ''config'' of Some f \<Rightarrow> f | None \<Rightarrow> ''expiry_server.conf'') of
          None \<Rightarrow> Inl 1
        | Some conf \<Rightarrow>
          if (vm ''primary'' \<noteq> None) = (vm ''backup'' \<noteq> None) then Inl 1
          else Inr (if vm ''primary'' \<noteq> None then state_primary else state_backup, conf))"

subsection \<open>Commands for the brokers\<close>

text \<open>\<open>ask\<close> sends a message to a monitor socket and waits for the reply. A name that is not in the configuration ends the process.\<close>

fun send_commands :: "(string \<Rightarrow> string \<Rightarrow> 'w \<Rightarrow> 'w \<times> string) \<Rightarrow> (string \<times> broker_conf) list \<Rightarrow> string \<Rightarrow> string list \<Rightarrow> 'w \<Rightarrow>
    'w \<times> (string \<times> string) list \<times> int option" where
  "send_commands ask conf message [] w = (w, [], None)"
| "send_commands ask conf message (broker_name # names) w =
     (case map_of conf broker_name of
        None \<Rightarrow> (w, [], Some 1)
      | Some self \<Rightarrow>
        (case ask (monitor self) message w of
           (w1, reply) \<Rightarrow>
             (case send_commands ask conf message names w1 of (w2, replies, code) \<Rightarrow> (w2, (broker_name, reply) # replies, code))))"

definition broker_command :: "(string \<Rightarrow> string \<Rightarrow> 'w \<Rightarrow> 'w \<times> string) \<Rightarrow> (string \<times> broker_conf) list \<Rightarrow> string \<Rightarrow> string list \<Rightarrow> 'w \<Rightarrow>
    'w \<times> (string \<times> string) list \<times> int option" where
  "broker_command ask conf message broker_names =
     send_commands ask conf message (if broker_names = [] then map fst conf else broker_names)"

subsection \<open>Watching the brokers\<close>

record broker_info =
  last_seen :: int
  queue_size_seen :: "64 word"

fun info_put :: "string \<Rightarrow> broker_info \<Rightarrow> (string \<times> broker_info) list \<Rightarrow> (string \<times> broker_info) list" where
  "info_put n b [] = [(n, b)]"
| "info_put n b ((m, c) # r) =
     (if n < m then (n, b) # (m, c) # r else if n = m then (n, b) # r else (m, c) # info_put n b r)"

record ctl_monitor =
  broker_infos :: "(string \<times> broker_info) list"
  last_update :: int

text \<open>
  A pass of the loop: a message from the brokers, if there is one; the update that is printed, if it is due; and whether the loop ends.
  The times, in seconds, are those of the message and of the check.
\<close>

definition ctl_pass :: "int \<Rightarrow> bool \<Rightarrow> (string \<times> 64 word) option \<Rightarrow> int \<Rightarrow> int \<Rightarrow> ctl_monitor \<Rightarrow>
    ((string \<times> 64 word \<times> int) list \<times> 64 word) option \<times> ctl_monitor \<times> bool" where
  "ctl_pass screen_update_time single msg seen now m =
     (let infos = (case msg of
                     Some (broker_id, qsize) \<Rightarrow> info_put broker_id \<lparr>last_seen = seen, queue_size_seen = qsize\<rparr> (broker_infos m)
                   | None \<Rightarrow> broker_infos m)
      in if now - last_update m \<ge> screen_update_time
         then (Some (map (\<lambda>(n, b). (n, queue_size_seen b, now - last_seen b)) infos,
                     fold (\<lambda>(n, b) total. total + queue_size_seen b) infos 0),
               \<lparr>broker_infos = infos, last_update = now\<rparr>, single)
         else (None, m\<lparr>broker_infos := infos\<rparr>, False))"

fun ctl_run :: "int \<Rightarrow> bool \<Rightarrow> ((string \<times> 64 word) option \<times> int \<times> int) list \<Rightarrow> ctl_monitor \<Rightarrow>
    ((string \<times> 64 word \<times> int) list \<times> 64 word) list \<times> ctl_monitor" where
  "ctl_run upd single [] m = ([], m)"
| "ctl_run upd single ((msg, seen, now) # passes) m =
     (case ctl_pass upd single msg seen now m of
        (printed, m', stop) \<Rightarrow>
          (case (if stop then ([], m') else ctl_run upd single passes m') of
             (rest, m'') \<Rightarrow> ((case printed of Some p \<Rightarrow> [p] | None \<Rightarrow> []) @ rest, m'')))"

end
