(* ===== verification/Entry_Points_Props.thy ===== *)
theory Entry_Points_Props
  imports Entry_Points
begin

text \<open>
  Properties of the start of the processes and of the tool that watches the brokers.
\<close>

subsection \<open>The name of the host\<close>

text \<open>A configuration as an INI file gives it: sections of entries.\<close>

definition ini_conf :: "conf_tree \<Rightarrow> bool" where
  "ini_conf conf \<longleftrightarrow> (\<forall>(k, s) \<in> set (conf_kids conf). \<forall>(j, v) \<in> set (conf_kids s). conf_kids v = [])"

lemma split_on_two: "sep \<in> set s \<Longrightarrow> \<exists>a b r. split_on sep s = a # b # r"
proof (induction s)
  case (Cons c s)
  obtain a r where "split_on sep s = a # r" using split_on_not_Nil [of sep s] by (cases "split_on sep s") auto
  then show ?case using Cons by (auto split: list.splits)
qed simp

lemma walk_ini:
  assumes "ini_conf conf" "walk conf (a # b # r) = Some n"
  shows "conf_kids n = []"
proof -
  from assms(2) obtain s v where s: "map_of (conf_kids conf) a = Some s" "map_of (conf_kids s) b = Some v" "walk v r = Some n"
    by (auto split: option.splits)
  have "conf_kids v = []" using assms(1) map_of_SomeD [OF s(1)] map_of_SomeD [OF s(2)] by (fastforce simp: ini_conf_def)
  then show ?thesis using s(3) by (cases r) auto
qed

lemma dotted_section_no_uuid:
  assumes "ini_conf conf" "CHR ''.'' \<in> set section" "get_child conf section = Some n"
  shows "get_text n ''uuid'' = None"
proof -
  obtain a b r where s: "split_on (CHR ''.'') section = a # b # r" using split_on_two [OF assms(2)] by blast
  have "walk conf (a # b # r) = Some n" using assms(3) unfolding get_child_def s .
  from walk_ini [OF assms(1) this] have "conf_kids n = []" .
  then show ?thesis by (simp add: get_text_def get_child_def)
qed

text \<open>
  The section of a host is never found under its full name: a name with a dot is taken for the path of an entry in a
  section. The handler of an instance that has only such a section does not start.
\<close>

theorem full_hostname_not_found:
  assumes "ini_conf conf" "CHR ''.'' \<in> set name" "host_sections (Some name) inst = Inr [inst, short, full]"
    and "get_child conf inst = None" "get_child conf short = None"
  shows "handler_uuid conf (Some name) None (Some inst) = Inl 1"
proof -
  have full: "CHR ''.'' \<in> set full" using assms(2,3) by (force simp: host_sections_def Let_def)
  show ?thesis
  proof (cases "get_child conf full")
    case (Some n)
    from dotted_section_no_uuid [OF assms(1) full this] show ?thesis
      by (simp add: handler_uuid_def assms(3-5) Some)
  qed (simp add: handler_uuid_def assms(3-5))
qed

theorem full_hostname_not_found_witness:
  "handler_uuid (Conf '''' [(''web_1.example.com_0'', Conf '''' [(''uuid'', Conf ''U'' [])])]) (Some ''web-1.example.com'') None (Some ''0'') = Inl 1"
  using full_hostname_not_found [of "Conf '''' [(''web_1.example.com_0'', Conf '''' [(''uuid'', Conf ''U'' [])])]" "''web-1.example.com''"
      "''0''" "''web_1_0''" "''web_1.example.com_0''"]
  by (simp add: ini_conf_def host_sections_def get_child_def Let_def)

lemma short_hostname_found:
  "handler_uuid (Conf '''' [(''web_1_0'', Conf '''' [(''uuid'', Conf ''U'' [])])]) (Some ''web-1.example.com'') None (Some ''0'') = Inr ''U''"
  by (simp add: handler_uuid_def host_sections_def get_child_def get_text_def Let_def)

subsection \<open>Options that are not looked at\<close>

text \<open>A broker that is given a configuration for its logging ends with an exception, whatever the configuration is.\<close>

lemma logging_option_aborts:
  assumes "vm ''help'' = None" "vm ''queue-config'' = Some f" "read_ini f = Some config" "vm ''logging-config'' = Some l"
    and "vm ''logging_config'' = None"
  shows "tile_broker_main read_ini None setup argv (Some vm) = Inl Terminate"
  using assms by (simp add: tile_broker_main_def load_logging_def)

text \<open>The name of the broker is its second argument. With the options in the other order it is taken from the wrong one.\<close>

lemma broker_name_by_position:
  assumes "tile_broker_main read_ini None setup argv (Some vm) = Inr (Inr (config, name))"
  shows "name = argv ! 2"
  using assms by (auto simp: tile_broker_main_def split: if_splits option.splits sum.splits)

subsection \<open>Watching the brokers\<close>

definition infos_ok :: "(string \<times> broker_info) list \<Rightarrow> (string \<times> 64 word) list \<Rightarrow> bool" where
  "infos_ok infos msgs \<longleftrightarrow> sorted_wrt (<) (map fst infos) \<and> map_of (map (\<lambda>(n, b). (n, queue_size_seen b)) infos) = map_of (rev msgs)"

lemma info_put_keys: "fst ` set (info_put n b infos) = insert n (fst ` set infos)"
  by (induction n b infos rule: info_put.induct) auto

lemma info_put_sorted: "sorted_wrt (<) (map fst infos) \<Longrightarrow> sorted_wrt (<) (map fst (info_put n b infos))"
proof (induction n b infos rule: info_put.induct)
  case (2 n b m c r)
  then show ?case using info_put_keys [of n b r] by (fastforce simp: image_iff)
qed simp

lemma info_put_map:
  "sorted_wrt (<) (map fst infos) \<Longrightarrow>
   map_of (map (\<lambda>(n, b). (n, queue_size_seen b)) (info_put n b infos)) = (map_of (map (\<lambda>(n, b). (n, queue_size_seen b)) infos))(n \<mapsto> queue_size_seen b)"
  by (induction n b infos rule: info_put.induct) (auto simp: fun_eq_iff)

lemma infos_ok_put:
  "infos_ok infos msgs \<Longrightarrow> infos_ok (info_put n \<lparr>last_seen = t, queue_size_seen = q\<rparr> infos) (msgs @ [(n, q)])"
  unfolding infos_ok_def using info_put_sorted info_put_map by (auto simp: fun_eq_iff)

lemma fold_total: "fold (\<lambda>(n, b) total. total + queue_size_seen b) infos a = a + sum_list (map (\<lambda>(n, b). queue_size_seen b) infos)"
  by (induction infos arbitrary: a) (auto simp: add.assoc)

lemma infos_ok_total:
  assumes "infos_ok infos msgs"
  shows "sum_list (map (\<lambda>(n, b). queue_size_seen b) infos) = (\<Sum>n \<in> dom (map_of (rev msgs)). the (map_of (rev msgs) n))"
    and "map fst infos = sorted_list_of_set (dom (map_of (rev msgs)))"
proof -
  let ?l = "map (\<lambda>(n, b). (n, queue_size_seen b)) infos"
  have m: "map_of ?l = map_of (rev msgs)" and s: "sorted_wrt (<) (map fst infos)" using assms by (auto simp: infos_ok_def)
  have k: "map fst ?l = map fst infos" by auto
  have d: "distinct (map fst ?l)" using s strict_sorted_iff unfolding k by blast
  have "sum_list (map (\<lambda>(n, b). queue_size_seen b) infos) = sum_list (map (\<lambda>n. the (map_of ?l n)) (map fst ?l))"
    using map_of_is_SomeI [OF d] by (force intro!: arg_cong [where f = sum_list])
  also have "\<dots> = (\<Sum>n \<in> set (map fst ?l). the (map_of ?l n))" by (rule sum_list_distinct_conv_sum_set [OF d])
  also have "set (map fst ?l) = dom (map_of ?l)" by (simp only: dom_map_of_conv_image_fst set_map)
  finally show "sum_list (map (\<lambda>(n, b). queue_size_seen b) infos) = (\<Sum>n \<in> dom (map_of (rev msgs)). the (map_of (rev msgs) n))"
    unfolding m .
  have "set (map fst infos) = dom (map_of (rev msgs))" 
    unfolding m [symmetric] dom_map_of_conv_image_fst k [symmetric] by (simp only: set_map)
  then show "map fst infos = sorted_list_of_set (dom (map_of (rev msgs)))"
    using s by (metis sorted_list_of_set.idem_if_sorted_distinct strict_sorted_iff)
qed

text \<open>The messages that were received in some passes.\<close>

definition pass_msgs :: "((string \<times> 64 word) option \<times> int \<times> int) list \<Rightarrow> (string \<times> 64 word) list" where
  "pass_msgs ps = concat (map (\<lambda>(msg, _). case msg of Some m \<Rightarrow> [m] | None \<Rightarrow> []) ps)"

lemma ctl_run_infos:
  assumes "infos_ok (broker_infos m) msgs" "ctl_run upd False ps m = (out, m')"
  shows "infos_ok (broker_infos m') (msgs @ pass_msgs ps)"
  using assms
proof (induction ps arbitrary: m msgs out)
  case (Cons p ps)
  obtain msg seen now where p: "p = (msg, seen, now)" by (cases p) auto
  obtain pr m1 stop where c: "ctl_pass upd False msg seen now m = (pr, m1, stop)" by (metis prod.exhaust)
  have s: "\<not> stop" and i: "infos_ok (broker_infos m1) (msgs @ (case msg of Some x \<Rightarrow> [x] | None \<Rightarrow> []))"
    using c Cons.prems(1) infos_ok_put by (auto simp: ctl_pass_def Let_def split: if_splits option.splits)
  obtain rest where "ctl_run upd False ps m1 = (rest, m')" using Cons.prems(2) p c s by (auto split: prod.splits)
  from Cons.IH [OF i this] show ?case by (simp add: p pass_msgs_def)
qed (simp add: pass_msgs_def)

lemma ctl_run_snoc:
  "ctl_run upd False ps m = (out, m1) \<Longrightarrow> ctl_pass upd False msg seen now m1 = (pr, m2, stop) \<Longrightarrow>
   ctl_run upd False (ps @ [(msg, seen, now)]) m = (out @ (case pr of Some p \<Rightarrow> [p] | None \<Rightarrow> []), m2)"
proof (induction ps arbitrary: m out)
  case (Cons p ps)
  obtain msg' seen' now' where p: "p = (msg', seen', now')" by (cases p) auto
  obtain pr' m' stop' where c: "ctl_pass upd False msg' seen' now' m = (pr', m', stop')" by (metis prod.exhaust)
  have s: "\<not> stop'" using c by (auto simp: ctl_pass_def Let_def split: if_splits)
  obtain rest where r: "ctl_run upd False ps m' = (rest, m1)" "out = (case pr' of Some p \<Rightarrow> [p] | None \<Rightarrow> []) @ rest"
    using Cons.prems(1) p c s by (auto split: prod.splits)
  show ?case using Cons.IH [OF r(1) Cons.prems(2)] r(2) p c s by simp
qed (auto split: if_splits)

text \<open>
  What the tool prints when it watches the brokers: one line for every broker that it has heard of, in the order of their names, and as the
  total the sum of the sizes that each of them last published, as an unsigned number of 64 bits.
\<close>

theorem watch_total:
  assumes run: "ctl_run upd False ps \<lparr>broker_infos = [], last_update = t0\<rparr> = (out, m)"
    and due: "now - last_update m \<ge> upd"
    and k: "known = map_of (rev (pass_msgs (ps @ [(msg, seen, now)])))"
  shows "\<exists>shown m'. ctl_run upd False (ps @ [(msg, seen, now)]) \<lparr>broker_infos = [], last_update = t0\<rparr> =
      (out @ [(shown, \<Sum>n \<in> dom known. the (known n))], m') \<and> map fst shown = sorted_list_of_set (dom known)"
proof -
  obtain pr m2 stop where c: "ctl_pass upd False msg seen now m = (pr, m2, stop)" by (metis prod.exhaust)
  note all = ctl_run_snoc [OF run c]
  have ok: "infos_ok (broker_infos m2) (pass_msgs (ps @ [(msg, seen, now)]))"
    using ctl_run_infos [OF _ all, of "[]"] by (simp add: infos_ok_def)
  have pr: "pr = Some (map (\<lambda>(n, b). (n, queue_size_seen b, now - last_seen b)) (broker_infos m2),
      sum_list (map (\<lambda>(n, b). queue_size_seen b) (broker_infos m2)))"
    using c due fold_total [of _ 0] by (auto simp: ctl_pass_def Let_def)
  have keys: "map fst (map (\<lambda>(n, b). (n, queue_size_seen b, now - last_seen b)) (broker_infos m2)) = map fst (broker_infos m2)" by auto
  show ?thesis unfolding k all pr option.case infos_ok_total(1) [OF ok] using keys infos_ok_total(2) [OF ok] by auto
qed

theorem watch_total_witness:
  "\<exists>shown m'. ctl_run 5 False [(Some (''b'', 7), 1, 1), (Some (''a'', 3), 2, 2), (Some (''b'', 4), 9, 9)] \<lparr>broker_infos = [], last_update = 0\<rparr> =
     ([(shown, 7)], m') \<and> map fst shown = sorted_list_of_set {''a'', ''b''}"
proof -
  let ?ps = "[(Some (''b'', 7), 1, 1), (Some (''a'', 3), 2, 2)] :: ((string \<times> 64 word) option \<times> int \<times> int) list"
  let ?m = "\<lparr>broker_infos = [(''a'', \<lparr>last_seen = 2, queue_size_seen = 3\<rparr>), (''b'', \<lparr>last_seen = 1, queue_size_seen = 7\<rparr>)], last_update = 0\<rparr>"
  let ?k = "map_of (rev (pass_msgs (?ps @ [(Some (''b'', 4), 9, 9)])))"
  have run: "ctl_run 5 False ?ps \<lparr>broker_infos = [], last_update = 0\<rparr> = ([], ?m)"
    by (simp add: ctl_pass_def less_char_def)
  have due: "(9 :: int) - last_update ?m \<ge> 5" by simp
  have d: "dom ?k = {''a'', ''b''}" "(\<Sum>n \<in> {''a'', ''b''}. the (?k n)) = 7" by (auto simp: pass_msgs_def)
  show ?thesis using watch_total [OF run due refl, of "Some (''b'', 4)" 9] unfolding d by simp
qed

text \<open>
  Together with the brokers: after one heartbeat of each, in any order, the total is the number of tasks that wait in all of them.
\<close>

definition queue_counts :: "out_msg list \<Rightarrow> (string \<times> 64 word) list" where
  "queue_counts outs = concat (map (\<lambda>m. case m of Queue_Count i n \<Rightarrow> [(i, n)] | _ \<Rightarrow> []) outs)"

lemma heartbeat_counts:
  "queue_counts (fst (handle_monitor now ''HEARTBEAT'' br)) = [(frontend_identity br, of_nat (count_unprocessed (br_queue br)))]"
  by (cases "front (br_queue br)") (simp_all add: handle_monitor_def queue_counts_def publish_availability_def)

lemma heartbeats_total:
  assumes "distinct (map frontend_identity brs)"
    and "msgs = concat (map (\<lambda>br. queue_counts (fst (handle_monitor now ''HEARTBEAT'' br))) brs)"
  shows "(\<Sum>n \<in> dom (map_of (rev msgs)). the (map_of (rev msgs) n)) = of_nat (sum_list (map (\<lambda>br. count_unprocessed (br_queue br)) brs))"
proof -
  have m: "msgs = map (\<lambda>br. (frontend_identity br, of_nat (count_unprocessed (br_queue br)))) brs"
    unfolding assms(2) heartbeat_counts by (induction brs) auto
  have d: "distinct (map fst msgs)" using assms(1) by (simp add: m comp_def)
  have "map_of (rev msgs) = map_of msgs" using d by (metis distinct_rev map_of_inject_set rev_map set_rev)
  moreover have "(\<Sum>n \<in> dom (map_of msgs). the (map_of msgs n)) = sum_list (map snd msgs)"
  proof -
    have "map snd msgs = map (\<lambda>n. the (map_of msgs n)) (map fst msgs)" using d by (auto intro: map_of_is_SomeI)
    then have "sum_list (map snd msgs) = (\<Sum>n \<in> set (map fst msgs). the (map_of msgs n))"
      by (simp only: sum_list_distinct_conv_sum_set [OF d])
    then show ?thesis by (simp add: dom_map_of_conv_image_fst)
  qed
  moreover have "sum_list (map snd msgs) = of_nat (sum_list (map (\<lambda>br. count_unprocessed (br_queue br)) brs))"
    unfolding m by (induction brs) simp_all
  ultimately show ?thesis by simp
qed

end
