(* ===== verification/Spec2Isabelle.thy ===== *)
theory Spec2Isabelle
  imports Broker_Props Distributed_Queue Zmq_Worker Storage_Props Disk_Props Expiry_Props
    Storage_Worker_Props Tile_Handler_Props Http_Client_Props Http_Storage_Props Lts_Roundtrip Expire_Props
    Expire_Lts_Props Expire_Main_Props Zstream_Props Tile_Submitter_Props Pgq_Props Entry_Points_Props
begin

text \<open>
  \<^bold>\<open>The MapQuest render stack.\<close> The program serves map tiles. A tile handler takes requests from the web server
  Mongrel2, asks its storage worker for the tile and, when there is none or it is stale, sends a job to one of
  several brokers. A broker keeps a queue of tasks, one for each metatile of eight by eight tiles, and hands them to workers;
  the worker returns the rendered metatile, the broker cuts it up for everyone who asked, and the handler replies. Storages
  keep metatiles on disk or elsewhere, and an expiry service knows which are out of date.

  \<^bold>\<open>What models what.\<close> Each theory models the sources it names, one definition for each function or block, and a
  theory with the suffix \<^verbatim>\<open>_Props\<close> holds the properties of the one before.

  \<^item> \<open>Prelude\<close>, \<open>Decimal\<close>: conventions for integers and errors, decimal numbers.
  \<^item> \<open>Tile_Types\<close>: the tile message, formats, commands and wire form (\<^verbatim>\<open>tile_protocol.hpp\<close>, \<^verbatim>\<open>tile_utils.cpp\<close>).
  \<^item> \<open>Meta_Tile\<close>: metatile files (\<^verbatim>\<open>storage/meta_tile.cpp\<close>). Paths, the binary header, the writer and three readers. What
    is written is read back byte for byte, by the reader in memory and by the one on files.
  \<^item> \<open>Ordered_Index\<close>, \<open>Task_Queue\<close>: the multi-index container of tasks (\<^verbatim>\<open>task_queue.hpp\<close>). The interface of a
    priority queue is the locale \<open>render_queue\<close>, that of an index the locale \<open>ordered_index\<close>, both interpreted on the container.
  \<^item> \<open>Broker\<close>: the broker's loop and its monitor thread (\<^verbatim>\<open>tile_broker_impl.cpp\<close>).
  \<^item> \<open>Consistent_Hash\<close>: the ring of brokers (\<^verbatim>\<open>dqueue/consistent_hash.hpp\<close>), with its contract as the locale
    \<open>hash_ring\<close>.
  \<^item> \<open>Zmq_Worker\<close>, \<open>Zmq_Handler\<close>: the two sides of the 0MQ backend (\<^verbatim>\<open>dqueue/zmq_backend.cpp\<close>): the worker's
    communicator thread as a state machine beside the rendering thread, and the handler's view of live brokers.
  \<^item> \<open>Distributed_Queue\<close>: configuration of the queue and dispatch of finished jobs (\<^verbatim>\<open>dqueue/distributed_queue.cpp\<close>,
    \<^verbatim>\<open>distributed_queue_config.cpp\<close>, \<^verbatim>\<open>backend.cpp\<close>).
  \<^item> \<open>Image\<close>: images over the library GD (\<^verbatim>\<open>image/image.cpp\<close>). The reduction to a palette does not change the picture.
  \<^item> \<open>Storage\<close>, \<open>Storage_Config\<close>: the interface of a storage as a record of operations, storages that are made
    from others, and their creation from the configuration (\<^verbatim>\<open>storage/\<close>). The contract of a store of metatiles is the
    locale \<open>meta_store\<close>, interpreted on the disk.
  \<^item> \<open>Disk_Storage\<close>: the storage on disk (\<^verbatim>\<open>storage/disk_storage.cpp\<close>), over a file system with failing calls.
  \<^item> \<open>Expiry\<close>: the expiry server with failover and its client (\<^verbatim>\<open>storage/expiry_server.cpp\<close>,
    \<^verbatim>\<open>storage/expiry_service.cpp\<close>).
  \<^item> \<open>Storage_Worker\<close>: the I/O threads of a handler (\<^verbatim>\<open>storage_worker.cpp\<close>).
  \<^item> \<open>Tile_Path\<close>, \<open>Style_Rules\<close>, \<open>Http_Reply\<close>, \<open>Tile_Handler\<close>: the path grammar, the rules for styles, the text
    of the replies, and the handler (\<^verbatim>\<open>tile_path_grammar.hpp\<close>, \<^verbatim>\<open>tile_handler.cpp\<close>, \<^verbatim>\<open>http/http_reply.cpp\<close>).
  \<^item> \<open>Mongrel_Request\<close>, \<open>Http_Date\<close>: the messages of Mongrel2 with their headers (\<^verbatim>\<open>mongrel_request_parser.cpp\<close>,
    \<^verbatim>\<open>mongrel_request_grammar.hpp\<close>), and HTTP dates printed and parsed (\<^verbatim>\<open>http/http_date_*\<close>).
  \<^item> \<open>Http_Client\<close>: requests over libcurl, one at a time and several at a time (\<^verbatim>\<open>http/http.cpp\<close>).
  \<^item> \<open>Http_Storage\<close>, \<open>Lts_Storage\<close>: storages behind HTTP servers (\<^verbatim>\<open>storage/http_storage.cpp\<close>,
    \<^verbatim>\<open>simple_http_storage.cpp\<close>, \<^verbatim>\<open>lts_storage.cpp\<close>, \<^verbatim>\<open>hashwrapper.cpp\<close>). \<open>Lts_Roundtrip\<close>: what is put is got back.
  \<^item> \<open>Expire_Tiles\<close>, \<open>Expire_Lts\<close>, \<open>Expire_Main\<close>: the tool that expires lists of tiles (\<^verbatim>\<open>expire_tiles.cpp\<close>), with a
    storage of any kind, its special case for the LTS storage, and its main function up to the start of the threads.
  \<^item> \<open>Istream\<close>: lines read from a stream, for this tool and the submitter.
  \<^item> \<open>Zstream\<close>: the streams of message parts over sockets, with routing headers, integers and tiles (\<^verbatim>\<open>zstream.cpp\<close>,
    \<^verbatim>\<open>zstream_pbuf.cpp\<close>). That a value is received as it was sent is the contract \<open>wire_codec\<close>, a locale.
  \<^item> \<open>Pgq_Backend\<close>: the queue in PostgreSQL (\<^verbatim>\<open>dqueue/pgq_backend.cpp\<close>), each operation with its statements.
  \<^item> \<open>Tile_Submitter\<close>: the tool that submits the tiles listed in a file (\<^verbatim>\<open>tile_submitter.cpp\<close>), as slowly as the queue
    demands.
  \<^item> \<open>Entry_Points\<close>: how handler, broker and expiry server start (\<^verbatim>\<open>tile_handler_main.cpp\<close>, \<^verbatim>\<open>tile_broker.cpp\<close>,
    \<^verbatim>\<open>expiry_server_main.cpp\<close>), and the tool that commands and watches brokers (\<^verbatim>\<open>broker_ctl.cpp\<close>).
  \<^item> this theory: properties of the parts together.

  \<^bold>\<open>How the code is represented.\<close> Objects are records that operations return updated; a C++ exception is the left
  side of a sum of type \<^typ>\<open>cpp_error\<close>, with \<open>Undefined_Behaviour\<close> where the language leaves the result open. Sockets are
  messages that arrive and messages that are sent; a loop is modelled by its pass, and the runs of several threads as
  sequences of passes in any order. Integers have their width where it matters. Loops over data are recursive
  functions with a termination proof; those that can hang are partial functions whose value \<open>None\<close> means that they do not
  return: the scheduling of the next reconnection, the loops in which the submitter waits, and those in
  which the PostgreSQL backend waits for a job and reads its notifications. There is no fuel.

  \<^bold>\<open>What is shown.\<close> Invariants: the task queue keeps its indices consistent; over every run of the broker no request is
  lost or answered twice; the same for the storage worker with its threads, of which a dead one takes its request with it; the worker's protocol never takes the branches it
  logs as impossible. Refinement: the disk is a map from metatiles to their last contents, the ring holds
  the live brokers. Round trips: metatiles in files and on
  the long-term store, request messages and paths, replies, dates, messages between sockets. Safety: one master among two expiry servers, none
  that takes over from a peer heard of in the last two heartbeats, one file per metatile, one answer per client, no database
  transaction left open while rollbacks succeed. Liveness: the submitter ends when the queue drains and has put every job once,
  several transfers end when libcurl reports them all. End to end: the four theorems below. Some theorems show what the code does where it
  falls short of its comments; the findings list them.

  \<^bold>\<open>Parameters.\<close> Protocol buffers, the hash functions and the random generator of Boost, libmemcached, name
  resolution, the library GD, Boost's parsers of options and INI files, libcurl and the servers behind it, libpq and the database, 0MQ, clocks and the file system's failures are
  arguments, with what is needed of them as hypotheses. Nothing guarantees that the points of two brokers on the ring
  differ, as they are drawn from generators seeded by hashes; \<open>points_apart\<close> says so where it is needed. libcurl may have passes
  in which nothing finishes. A rollback may fail.

  \<^bold>\<open>Not modelled.\<close> The layout of what the command line tools print, logging and the Python bindings: they call
  libraries or are input and output.
\<close>

section \<open>From the storage to the client\<close>

lemma answer_found:
  assumes "st_get st tile s = (s1, Inr h)" "h_exists h" "status tile \<noteq> cmdDirty" "status tile \<noteq> cmdStatus" "h_data h = Some d"
  shows "thread_answer st release dl tile s = (release s1,
    tile\<lparr>status := if h_expired h then cmdIgnore else cmdDone, tile_data := d, last_modified := h_last_modified h\<rparr>)"
  using assms by (simp add: thread_answer_def handle_tile_def)

text \<open>
  C1. From a rendered metatile to the client: save the tiles that a worker rendered as a metatile on disk; then the answer
  of an I/O thread to a request for any of its tiles in any of its formats makes the handler send exactly
  one message, a 200 reply to that client with the type of the format and the bytes of the tile as body.
\<close>

theorem saved_tile_reaches_client:
  assumes w: "write_headers x y z formats (map (\<lambda>t. int (length t)) tiles) = Inr hdrs"
    and f: "distinct formats" "\<forall>f \<in> set formats. int32 f" "int32 x" "int32 y" "int32 z"
      "length formats * header_size + length (concat tiles) < 2 ^ 31"
    and i: "i < length formats" "i < 7" "format tile = formats ! i"
    and ok: "disk_ok env dr d" "\<not> data_locked d" "meta_aligned m" "disk_key dr tile = disk_key dr m"
      "\<forall>b. posix_read \<lparr>file_bytes = b, read_ret = fs_read_ret env b\<rparr>"
    and t: "t = tiles ! (64 * i + nat (xyz_to_meta_offset (tp_x tile) (tp_y tile) (tp_z tile)))" "t \<noteq> []" "length t \<le> CACHE_SIZE"
    and put: "disk_put_meta env m (hdrs @ concat tiles) d = (d', Inr saved)"
    and req: "status tile = cmdRender" "request_last_modified tile = 0" "0 \<le> tp_id tile" "mime_type_for (format tile) = Inr mt"
    and h: "CHR '' '' \<notin> set (m_str_mongrel_id h)"
  shows "\<exists>msg. handle_response_from_storage henv
      (snd (thread_answer (disk_storage env) release_disk_handle dl tile d')) h = ([Reply msg], Inr h) \<and>
    response_ok (m_str_mongrel_id h) (send_id tile) 200 mt t msg"
proof -
  have nf: "\<forall>c. \<not> fs_fails env c" "fs_clock env \<noteq> 0" "dir d = dr" using ok(1) by (simp_all add: disk_ok_def)
  note saved = disk_put_stores [OF ok(1,3) put]
  have "st_get (disk_storage env) tile d' = (d'\<lparr>data_cache := t, data_locked := True\<rparr>,
      Inr \<lparr>h_exists = True, h_last_modified = fs_clock env, h_data = Some t, h_expired = (fs_clock env = 0)\<rparr>)"
    unfolding disk_storage_def tile_storage.simps
    by (rule disk_get_written [OF w f i nf(1) _ _ _ ok(5) t, where dr = dr]) (use saved ok(2,4) nf(3) in auto)
  from answer_found [OF this] nf(2)
  have a: "snd (thread_answer (disk_storage env) release_disk_handle dl tile d') =
      tile\<lparr>status := cmdDone, tile_data := t, last_modified := fs_clock env\<rparr>"
    by (simp add: req(1))
  have "CHR '' '' \<notin> set (m_str_mongrel_id h)" "CHR 0x0D \<notin> set (http_date_formatter s)" for s
    using h http_date_plain by auto
  note ok200 = send_tile_ok [OF this(1) mime_plain [OF req(4)] this(2)]
  show ?thesis unfolding a using req t(2) ok200
    by (simp add: handle_response_from_storage_def reply_with_tile_def send_id_def Let_def)
qed

theorem saved_tile_reaches_client_witness:
  "\<exists>d' msg. disk_put_meta ex_fs (ex_meta 0 0) (example_headers @ concat (replicate 64 ''p'')) (mk_disk ''/t'' Map.empty) = (d', Inr True) \<and>
     handle_response_from_storage ex_env
       (snd (thread_answer (disk_storage ex_fs) release_disk_handle Map.empty ((ex_meta 1 2)\<lparr>status := cmdRender\<rparr>) d')) ex_th =
       ([Reply msg], Inr ex_th) \<and>
     response_ok ''m2'' (dec_int 0) 200 ''image/png'' ''p'' msg"
proof -
  let ?h = ex_th and ?t = "(ex_meta 1 2)\<lparr>status := cmdRender\<rparr>"
  have w: "write_headers 0 0 3 [fmtPNG] (map (\<lambda>t. int (length t)) (replicate 64 ''p'')) = Inr example_headers"
    by (subst write_headers_ok) (simp add: example_headers_def)
  obtain d' saved where put: "disk_put_meta ex_fs (ex_meta 0 0) (example_headers @ concat (replicate 64 ''p'')) (mk_disk ''/t'' Map.empty) = (d', Inr saved)"
    using disk.put_meta_content [OF ex_fs_ok ex_meta_props(1), of "example_headers @ concat (replicate 64 ''p'')"] by blast
  have off: "nat (xyz_to_meta_offset 1 2 3) = 17"
    by (simp add: xyz_to_meta_offset_def METATILE_def and_7_eq_mod)
  have posix: "\<forall>b. posix_read \<lparr>file_bytes = b, read_ret = fs_read_ret ex_fs b\<rparr>"
    by (auto simp: posix_read_def ex_fs_def)
  have key: "disk_key ''/t'' ?t = disk_key ''/t'' (ex_meta 0 0)"
    using ex_meta_props(2) by (simp add: disk_key_def)
  have "\<exists>msg. handle_response_from_storage ex_env
       (snd (thread_answer (disk_storage ex_fs) release_disk_handle Map.empty ?t d')) ?h = ([Reply msg], Inr ?h) \<and>
     response_ok (m_str_mongrel_id ?h) (send_id ?t) 200 ''image/png'' ''p'' msg"
    by (rule saved_tile_reaches_client [OF w _ _ _ _ _ _ _ _ _ ex_fs_ok _ ex_meta_props(1) key posix _ _ _ put, of 0])
       (simp_all add: off int32_def fmt_defs header_size_def mk_disk_def ex_meta_def CACHE_SIZE_def mime_type_for_def
         default_tile_def ex_env_def ex_th_def mk_tile_handler_def)
  moreover have "saved" using disk_put_stores [OF ex_fs_ok ex_meta_props(1) put] by simp
  ultimately show ?thesis
    using put by (auto simp: send_id_def ex_meta_def default_tile_def ex_th_def)
qed

section \<open>Dirty tiles\<close>








section \<open>Tiles of a metatile meet at one broker\<close>

lemma same_metatile_hash:
  "task_key (meta_of t) = task_key (meta_of u) \<Longrightarrow> tile_hash_value cs ci seed t = tile_hash_value cs ci seed u"
  by (simp add: task_key_def meta_of_def tile_hash_value_def)

text \<open>
  C3. Requests for tiles of the same metatile and style meet at one task, wherever they come from, when the brokers share no
  point of the ring and the two handlers see the same brokers alive when they send: they choose the same broker, whatever
  their histories, since the hash of a tile is that of its metatile; and there the second request joins the
  task of the first as long as that is in the queue, behind its subscribers.
\<close>

theorem metatile_rendered_once:
  assumes "handler_reachable env U h" "handler_reachable env U g" "points_apart env U" "alive t3 h = alive s3 g"
    and "key_hash env = tile_hash_value cs ci seed" "task_key (meta_of t) = task_key (meta_of u)"
    and "send env connect t1 t2 t3 t h = Some (h', Inr (b, j))" "send env connect' s1 s2 s3 u g = Some (g', Inr (c, i))"
  shows "b = c \<and> (let q1 = snd (push n1 t a1 p1 q); q2 = snd (push n2 u a2 p2 q1); k = task_key (meta_of t) in
    \<not> fst (push n2 u a2 p2 q1) \<and> dom (nodes q2) = insert k (dom (nodes q)) \<and>
    waiting (nodes q2) k = waiting (nodes q) k @ [(t, a1), (u, a2)])"
proof -
  have "key_hash env t = key_hash env u" using same_metatile_hash [OF assms(6)] assms(5) by simp
  then have "b = c" by (rule same_broker [OF assms(1,2,3,7,8,4)])
  then show ?thesis using assms(6)
    by (auto simp: fst_push nodes_push waiting_def Let_def split: option.splits if_splits)
qed

text \<open>Two brokers, and two handlers that have heard of them in a different order and at different times.\<close>

theorem metatile_rendered_once_witness:
  "let t = default_tile\<lparr>tp_x := 1\<rparr>; u = default_tile\<lparr>tp_y := 5\<rparr> in
   ex_handler \<noteq> ex_handler2 \<and> alive 10 ex_handler = {''b'', ''cc''} \<and> alive 12 ex_handler2 = {''b'', ''cc''} \<and>
   (\<exists>b h' g'. b \<in> {''b'', ''cc''} \<and> send ex_henv (\<lambda>_. True) 9 9 10 t ex_handler = Some (h', Inr (b, t)) \<and>
      send ex_henv (\<lambda>_. True) 11 11 12 u ex_handler2 = Some (g', Inr (b, u))) \<and>
   \<not> fst (push 2 u ''h2'' 100 (snd (push 1 t ''h1'' 100 ex_queue)))"
proof -
  let ?t = "default_tile\<lparr>tp_x := 1\<rparr>" and ?u = "default_tile\<lparr>tp_y := 5\<rparr>"
  note live = ex_handlers_alive
  have n: "alive 10 ex_handler \<noteq> {}" "alive 12 ex_handler2 \<noteq> {}" by (simp_all add: live)
  obtain h' b where h: "b \<in> alive 10 ex_handler" "send ex_henv (\<lambda>_. True) 9 9 10 ?t ex_handler = Some (h', Inr (b, ?t))"
    using send_to_live [OF ex_handlers_reachable(1) live(3) ex_points_apart live(5) [of 9] n(1), where job = ?t] .
  obtain g' c where g: "send ex_henv (\<lambda>_. True) 11 11 12 ?u ex_handler2 = Some (g', Inr (c, ?u))"
    using send_to_live [OF ex_handlers_reachable(2) live(4) ex_points_apart live(6) [of 11] n(2), where job = ?u] .
  have "task_key (meta_of ?t) = task_key (meta_of ?u)" by (simp add: task_key_def meta_of_def METATILE_def default_tile_def)
  moreover have "key_hash ex_henv = tile_hash_value (\<lambda>h s. h) (\<lambda>h n. h + of_int n) 0" by (simp add: ex_henv_def)
  moreover have "alive 10 ex_handler = alive 12 ex_handler2" using live(1,2) by simp
  ultimately have "b = c \<and> \<not> fst (push 2 ?u ''h2'' 100 (snd (push 1 ?t ''h1'' 100 ex_queue)))"
    using metatile_rendered_once [OF ex_handlers_reachable ex_points_apart _ _ _ h(2) g,
        where ?n1.0 = 1 and ?a1.0 = "''h1''" and ?p1.0 = 100 and ?n2.0 = 2 and ?a2.0 = "''h2''" and ?p2.0 = 100 and q = ex_queue]
    unfolding Let_def by blast
  moreover have "ex_handler \<noteq> ex_handler2" using ex_heartbeats(1,2) by auto
  ultimately show ?thesis using h(2) g h(1) [unfolded live(1)] live(1,2) unfolding Let_def by blast
qed

section \<open>From the worker to the client\<close>

text \<open>
  C2. From the worker to the client: when a worker returns the metatile it rendered, every subscriber that wants an answer and
  asked for one of the written formats is sent its tile, at its address; and the handler that gets it replies to
  the client with status 200, the type of the format and exactly the bytes that the worker rendered for that
  tile.
\<close>

theorem rendered_tile_reaches_client:
  assumes w: "write_headers x y z formats (map (\<lambda>t. int (length t)) tiles) = Inr hdrs"
    and f: "distinct formats" "\<forall>f \<in> set formats. int32 f" "int32 x" "int32 y" "int32 z"
      "length formats * header_size + length (concat tiles) < 2 ^ 31"
    and i: "i < length formats" "format sub = formats ! i"
    and wk: "tile_data wk = hdrs @ concat tiles" "status wk = cmdDone"
    and sent: "send_tile_to_listeners q wk = Inr (msgs, q')"
    and sub: "(sub, addr) \<in> set (waiting (nodes q) (task_key wk))" "status sub \<noteq> cmdDirty" "status sub \<noteq> cmdRenderBulk"
    and t: "t = tiles ! (64 * i + nat (xyz_to_meta_offset (tp_x sub) (tp_y sub) z))" "t \<noteq> []"
    and req: "request_last_modified sub = 0" "0 \<le> tp_id sub" "mime_type_for (format sub) = Inr mt"
    and h: "CHR '' '' \<notin> set (m_str_mongrel_id h)"
  shows "\<exists>tile msg. Tile_To addr tile \<in> set msgs \<and> reply_with_tile henv h tile = Inr [Reply msg] \<and>
    response_ok (m_str_mongrel_id h) (send_id sub) 200 mt t msg"
proof -
  have "(sub, addr) \<in> set (answered (waiting (nodes q) (task_key wk)))" using sub by (simp add: answered_def)
  then obtain tile where tile: "Tile_To addr tile \<in> set msgs" "answer_for wk sub tile"
    using send_tile_delivers [OF sent] by (force simp: list_all2_conv_all_nth in_set_conv_nth)
  have "reader_tile (tile_data wk) (format sub) (tp_x sub) (tp_y sub) = Inr t"
    using reader_tile_written [OF w f i(1)] wk(1) i(2) t(1) by simp
  then have a: "tile = sub\<lparr>status := cmdDone, last_modified := last_modified wk, tile_data := t\<rparr>"
    using tile(2) wk(2) by (auto simp: answer_for_def)
  have "CHR '' '' \<notin> set (m_str_mongrel_id h)" "CHR 0x0D \<notin> set (http_date_formatter s)" for s
    using h http_date_plain by auto
  note ok200 = send_tile_ok [OF this(1) mime_plain [OF req(3)] this(2)]
  have "\<exists>msg. reply_with_tile henv h tile = Inr [Reply msg] \<and> response_ok (m_str_mongrel_id h) (send_id sub) 200 mt t msg"
    unfolding a using req t(2) ok200 by (simp add: reply_with_tile_def send_id_def)
  then show ?thesis using tile(1) by blast
qed


theorem rendered_tile_reaches_client_witness:
  "\<exists>msgs q' tile msg. send_tile_to_listeners ex_queue
       ((ex_tile 0 0 fmtPNG)\<lparr>status := cmdDone, tile_data := example_headers @ concat (replicate 64 ''p'')\<rparr>) = Inr (msgs, q') \<and>
     Tile_To ''h1'' tile \<in> set msgs \<and> reply_with_tile ex_env ex_th tile = Inr [Reply msg] \<and>
     response_ok ''m2'' (dec_int 0) 200 ''image/png'' ''p'' msg"
proof -
  let ?wk = "(ex_tile 0 0 fmtPNG)\<lparr>status := cmdDone, tile_data := example_headers @ concat (replicate 64 ''p'')\<rparr>"
  let ?sub = "ex_tile 1 2 fmtPNG"
  have w: "write_headers 0 0 3 [fmtPNG] (map (\<lambda>t. int (length t)) (replicate 64 ''p'')) = Inr example_headers"
    by (subst write_headers_ok) (simp add: example_headers_def)
  have f: "distinct [fmtPNG]" "\<forall>f \<in> set [fmtPNG]. int32 f" "int32 0" "int32 0" "int32 3"
      "length [fmtPNG] * header_size + length (concat (replicate 64 ''p'')) < 2 ^ 31"
    by (simp_all add: int32_def fmt_defs header_size_def)
  have off: "nat (xyz_to_meta_offset 1 2 3) = 17"
    by (simp add: xyz_to_meta_offset_def METATILE_def and_7_eq_mod)
  have wait: "waiting (nodes ex_queue) (task_key ?wk) = [(?sub, ''h1'')]"
    by (simp add: waiting_def ex_queue_def nodes_set_processed nodes_push empty_queue_def task_key_def ex_tile_def meta_of_def METATILE_def)
  then have mem: "(?sub, ''h1'') \<in> set (waiting (nodes ex_queue) (task_key ?wk))" by simp
  have "reader_tile (example_headers @ concat (replicate 64 ''p'')) fmtPNG 1 2 = Inr ''p''"
    using reader_tile_written [OF w f, of 0 1 2] off by simp
  then have n: "\<exists>msgs. notify_subscribers ?wk [(?sub, ''h1'')] = Inr msgs"
    by (simp add: ex_tile_def Let_def)
  obtain task where "get ?wk ex_queue = Some task" "subscribers task = [(?sub, ''h1'')]"
    using wait by (auto simp: waiting_def get_def split: option.splits)
  then obtain msgs q' where sent: "send_tile_to_listeners ex_queue ?wk = Inr (msgs, q')"
    using n by (auto simp: send_tile_to_listeners_def)
  have "\<exists>tile msg. Tile_To ''h1'' tile \<in> set msgs \<and> reply_with_tile ex_env ex_th tile = Inr [Reply msg] \<and>
      response_ok (m_str_mongrel_id ex_th) (send_id ?sub) 200 ''image/png'' ''p'' msg"
    by (rule rendered_tile_reaches_client [OF w f _ _ _ _ sent mem, of 0])
       (simp_all add: off ex_tile_def default_tile_def mime_type_for_def fmt_defs ex_env_def ex_th_def mk_tile_handler_def)
  then show ?thesis using sent by (auto simp: ex_th_def send_id_def ex_tile_def default_tile_def)
qed


end
